theory Spec2Isabelle
  imports Complex_Main "HOL-Library.Word" "HOL-Library.Multiset"
begin

section \<open>Strings as the Go code uses them\<close>

text \<open>
  A Go \<open>string\<close> is a byte sequence; it is modelled as \<^typ>\<open>string\<close> (a list of 8-bit
  characters), so \<open>len(s)\<close> is \<^term>\<open>length s\<close>.  The helpers below are the functions of
  package \<open>strings\<close> that the analyzers call.  \<open>strings.ToLower\<close> maps the bytes
  \<open>A\<close>..\<open>Z\<close> to \<open>a\<close>..\<open>z\<close> and keeps every other byte: this is what Go computes for
  a string of ASCII bytes, and the model is of ASCII text (Go maps the letters of other
  alphabets as well).
\<close>

definition lower_char :: "char \<Rightarrow> char" where
  "lower_char c =
     (let n = (of_char c :: nat) in if 65 \<le> n \<and> n \<le> 90 then char_of (n + 32) else c)"

definition ToLower :: "string \<Rightarrow> string" where
  "ToLower s = map lower_char s"

fun HasPrefix :: "string \<Rightarrow> string \<Rightarrow> bool" where
  "HasPrefix s [] = True"
| "HasPrefix [] (p # ps) = False"
| "HasPrefix (c # s) (p # ps) = (c = p \<and> HasPrefix s ps)"

fun Contains :: "string \<Rightarrow> string \<Rightarrow> bool" where
  "Contains [] sub = (sub = [])"
| "Contains (c # s) sub = (HasPrefix (c # s) sub \<or> Contains s sub)"

definition isSpace :: "char \<Rightarrow> bool" where
  "isSpace c \<longleftrightarrow> c \<in> set [CHR 0x20, CHR 0x09, CHR 0x0A, CHR 0x0B, CHR 0x0C, CHR 0x0D]"

definition TrimSpace :: "string \<Rightarrow> string" where
  "TrimSpace s = rev (dropWhile isSpace (rev (dropWhile isSpace s)))"

text \<open>\<open>strings.Split\<close> with a one-byte separator: the empty string gives one empty part.\<close>

fun Split :: "string \<Rightarrow> char \<Rightarrow> string list" where
  "Split [] sep = [[]]"
| "Split (c # s) sep =
     (if c = sep then [] # Split s sep
      else (case Split s sep of [] \<Rightarrow> [[c]] | p # ps \<Rightarrow> (c # p) # ps))"

fun Join :: "string list \<Rightarrow> string \<Rightarrow> string" where
  "Join [] sep = []"
| "Join [x] sep = x"
| "Join (x # y # ys) sep = x @ sep @ Join (y # ys) sep"

text \<open>\<open>strings.ReplaceAll(s, old, "")\<close> for a one-byte \<open>old\<close>.\<close>

definition RemoveAll :: "string \<Rightarrow> char \<Rightarrow> string" where
  "RemoveAll s old = filter (\<lambda>c. c \<noteq> old) s"

text \<open>The verb \<open>%d\<close> of \<open>fmt.Sprintf\<close>.\<close>

fun string_of_nat :: "nat \<Rightarrow> string" where
  "string_of_nat n =
     (if n < 10 then [''0123456789'' ! n]
      else string_of_nat (n div 10) @ [''0123456789'' ! (n mod 10)])"

declare string_of_nat.simps [simp del]

definition string_of_int :: "int \<Rightarrow> string" where
  "string_of_int i = (if i < 0 then CHR ''-'' # string_of_nat (nat (- i)) else string_of_nat (nat i))"

section \<open>Data model (package models)\<close>

type_synonym error = string

type_synonym time = int

record TargetInfo =
  URL :: string
  Domain :: string
  IP :: string
  Protocol :: string
  Port :: int

record Port_rec =
  Number :: int
  Protocol_port :: string
  State :: string
  Service :: string
  Version_port :: string

record NmapScan =
  OpenPorts :: "Port_rec list"
  Duration :: int

record SecurityHeader =
  Name :: string
  Value :: string
  Status :: string
  Severity_hdr :: string
  Description_hdr :: string

record HeaderScan =
  Headers :: "string \<rightharpoonup> string"
  MissingHeaders :: "SecurityHeader list"
  WeakHeaders :: "SecurityHeader list"
  PresentHeaders :: "SecurityHeader list"
  SecurityScore :: int

record CertificateInfo =
  Issuer :: string
  Subject :: string
  ValidFrom :: time
  ValidTo :: time
  IsExpired :: bool
  DaysToExpiry :: int

record TLSScan =
  Protocol_tls :: string
  CipherSuite_tls :: string
  Certificate :: CertificateInfo
  Vulnerabilities :: "string list"
  Score :: int
  IsSecure :: bool

record Vulnerability =
  Type :: string
  Severity :: string
  Location :: string
  Payload :: string
  Evidence :: string
  Description :: string

text \<open>
  A pointer field of \<open>ScanResult\<close> is an \<^typ>\<open>'a option\<close> (\<^term>\<open>None\<close> is \<open>nil\<close>).  The two
  vulnerability slices are options of lists as well: \<^term>\<open>None\<close> is the \<open>nil\<close> slice a failed or
  skipped analyzer leaves behind, \<^term>\<open>Some []\<close> the empty slice a clean scan returns.
\<close>

record ScanResult =
  Target :: TargetInfo
  StartTime :: time
  EndTime :: time
  NmapResults :: "NmapScan option"
  HeaderResults :: "HeaderScan option"
  TLSResults :: "TLSScan option"
  SQLiResults :: "Vulnerability list option"
  XSSResults :: "Vulnerability list option"
  Errors :: "error list"
  RiskLevel :: string

definition elems :: "'a list option \<Rightarrow> 'a list" where
  "elems s = (case s of None \<Rightarrow> [] | Some xs \<Rightarrow> xs)"

section \<open>Risk classification (CalculateRiskLevel)\<close>

text \<open>
  The three counters of \<open>CalculateRiskLevel\<close> are Go \<open>int\<close>s that are incremented once per
  finding; they are modelled as unbounded integers, a slice being far shorter than \<open>2^63\<close>.
\<close>

record Counts =
  criticalCount :: int
  highCount :: int
  mediumCount :: int

definition count_severity :: "Counts \<Rightarrow> Vulnerability \<Rightarrow> Counts" where
  "count_severity c vuln =
     (if Severity vuln = ''critical'' then c\<lparr>criticalCount := criticalCount c + 1\<rparr>
      else if Severity vuln = ''high'' then c\<lparr>highCount := highCount c + 1\<rparr>
      else if Severity vuln = ''medium'' then c\<lparr>mediumCount := mediumCount c + 1\<rparr>
      else c)"

definition CalculateRiskLevel :: "ScanResult \<Rightarrow> string" where
  "CalculateRiskLevel result =
     (let c0 = \<lparr>criticalCount = 0, highCount = 0, mediumCount = 0\<rparr>;
          c1 = foldl count_severity c0 (elems (SQLiResults result));
          c2 = foldl count_severity c1 (elems (XSSResults result));
          c3 = (case TLSResults result of
                  Some t \<Rightarrow> if \<not> IsSecure t then c2\<lparr>highCount := highCount c2 + 1\<rparr> else c2
                | None \<Rightarrow> c2);
          c4 = (case HeaderResults result of
                  Some h \<Rightarrow> if SecurityScore h < 50 then c3\<lparr>mediumCount := mediumCount c3 + 1\<rparr> else c3
                | None \<Rightarrow> c3)
      in if criticalCount c4 > 0 then ''CRITICAL''
         else if highCount c4 > 0 then ''HIGH''
         else if mediumCount c4 > 0 then ''MEDIUM''
         else ''LOW'')"

section \<open>Header analyzer (ScanHeaders)\<close>

record Response =
  StatusCode :: int
  Header :: "string \<rightharpoonup> string list"
  Body :: string

record SecurityHeaderDefinition =
  Name_def :: string
  Description_def :: string
  Severity_def :: string

text \<open>
  The header map of a response is built by the HTTP client, which stores every header name in
  its canonical form (\<open>textproto.CanonicalMIMEHeaderKey\<close>): the first letter and every letter
  after a hyphen in upper case, all other letters in lower case; a name with a byte that is not
  a token character is kept as it is.  Values of a repeated name are collected in order.
\<close>

definition is_upper :: "char \<Rightarrow> bool" where
  "is_upper c \<longleftrightarrow> 65 \<le> (of_char c :: nat) \<and> (of_char c :: nat) \<le> 90"

definition is_lower :: "char \<Rightarrow> bool" where
  "is_lower c \<longleftrightarrow> 97 \<le> (of_char c :: nat) \<and> (of_char c :: nat) \<le> 122"

definition upper_char :: "char \<Rightarrow> char" where
  "upper_char c = (if is_lower c then char_of ((of_char c :: nat) - 32) else c)"

definition validHeaderFieldByte :: "char \<Rightarrow> bool" where
  "validHeaderFieldByte c \<longleftrightarrow>
     is_upper c \<or> is_lower c \<or> (48 \<le> (of_char c :: nat) \<and> (of_char c :: nat) \<le> 57) \<or>
     c \<in> set [CHR ''!'', CHR ''#'', CHR ''$'', CHR ''%'', CHR ''&'', CHR 0x27, CHR ''*'',
                CHR ''+'', CHR ''-'', CHR ''.'', CHR ''^'', CHR ''_'', CHR 0x60, CHR ''|'',
                CHR ''~'']"

fun canonical_bytes :: "bool \<Rightarrow> string \<Rightarrow> string" where
  "canonical_bytes upper [] = []"
| "canonical_bytes upper (c # s) =
     (let c' = (if upper \<and> is_lower c then upper_char c
                else if \<not> upper \<and> is_upper c then lower_char c
                else c)
      in c' # canonical_bytes (c' = CHR ''-'') s)"

definition CanonicalMIMEHeaderKey :: "string \<Rightarrow> string" where
  "CanonicalMIMEHeaderKey s =
     (if list_all validHeaderFieldByte s then canonical_bytes True s else s)"

definition add_header_line :: "(string \<rightharpoonup> string list) \<Rightarrow> string \<times> string \<Rightarrow> (string \<rightharpoonup> string list)" where
  "add_header_line m line =
     (let key = CanonicalMIMEHeaderKey (fst line)
      in m(key \<mapsto> (case m key of None \<Rightarrow> [] | Some vs \<Rightarrow> vs) @ [snd line]))"

definition ReadMIMEHeader :: "(string \<times> string) list \<Rightarrow> (string \<rightharpoonup> string list)" where
  "ReadMIMEHeader lines = foldl add_header_line Map.empty lines"

definition securityHeaders :: "SecurityHeaderDefinition list" where
  "securityHeaders =
     [\<lparr>Name_def = ''Strict-Transport-Security'',
       Description_def = ''Enforces secure HTTPS connections'', Severity_def = ''high''\<rparr>,
      \<lparr>Name_def = ''Content-Security-Policy'',
       Description_def = ''Prevents XSS and data injection attacks'', Severity_def = ''high''\<rparr>,
      \<lparr>Name_def = ''X-Frame-Options'',
       Description_def = ''Prevents clickjacking attacks'', Severity_def = ''medium''\<rparr>,
      \<lparr>Name_def = ''X-Content-Type-Options'',
       Description_def = ''Prevents MIME-type sniffing'', Severity_def = ''medium''\<rparr>,
      \<lparr>Name_def = ''Referrer-Policy'',
       Description_def = ''Controls referrer information'', Severity_def = ''low''\<rparr>,
      \<lparr>Name_def = ''Permissions-Policy'',
       Description_def = ''Controls browser features and APIs'', Severity_def = ''medium''\<rparr>,
      \<lparr>Name_def = ''X-XSS-Protection'',
       Description_def = ''Legacy XSS filter (deprecated but still useful)'',
       Severity_def = ''low''\<rparr>]"

text \<open>
  \<open>fmt.Sscanf(part, "max-age=%d", &maxAge)\<close> on a part that starts with \<open>max-age=\<close>:
  the verb skips blanks (a newline is a scan error), takes an optional sign and the longest run
  of decimal digits, and converts it as a base-10 64-bit integer.  A scan error (no digit, a
  value out of range) is ignored by the caller and leaves \<open>maxAge\<close> at \<open>0\<close>; text after
  the number is ignored.
\<close>

fun skip_space :: "string \<Rightarrow> string option" where
  "skip_space [] = Some []"
| "skip_space (c # s) =
     (if c = CHR 0x0A then None else if isSpace c then skip_space s else Some (c # s))"

definition is_digit :: "char \<Rightarrow> bool" where
  "is_digit c \<longleftrightarrow> 48 \<le> (of_char c :: nat) \<and> (of_char c :: nat) \<le> 57"

definition nat_of_digits :: "string \<Rightarrow> nat" where
  "nat_of_digits ds = foldl (\<lambda>a c. 10 * a + (of_char c - 48)) 0 ds"

definition scan_max_age :: "string \<Rightarrow> int" where
  "scan_max_age rest =
     (case skip_space rest of
        None \<Rightarrow> 0
      | Some s \<Rightarrow>
          (let neg = (s \<noteq> [] \<and> hd s = CHR ''-'');
               s' = (if s \<noteq> [] \<and> (hd s = CHR ''-'' \<or> hd s = CHR ''+'') then tl s else s);
               tok = takeWhile is_digit s';
               v = (if neg then - int (nat_of_digits tok) else int (nat_of_digits tok))
           in if tok = [] then 0
              else if v < - (2 ^ 63) \<or> 2 ^ 63 - 1 < v then 0
              else v))"

fun extractMaxAge_parts :: "string list \<Rightarrow> int" where
  "extractMaxAge_parts [] = 0"
| "extractMaxAge_parts (part # parts) =
     (let p = TrimSpace part
      in if HasPrefix p ''max-age='' then scan_max_age (drop 8 p)
         else extractMaxAge_parts parts)"

definition extractMaxAge :: "string \<Rightarrow> int" where
  "extractMaxAge v = extractMaxAge_parts (Split v CHR '';'')"

definition isWeakHeader :: "string \<Rightarrow> string \<Rightarrow> bool" where
  "isWeakHeader name v =
     (let lowerValue = ToLower v
      in if name = ''Strict-Transport-Security'' then
           (if \<not> Contains lowerValue ''max-age='' then True
            else extractMaxAge lowerValue < 15552000)
         else if name = ''Content-Security-Policy'' then
           (if Contains lowerValue ''unsafe-inline'' \<or> Contains lowerValue ''unsafe-eval'' then True
            else Contains lowerValue ''*'' \<and> \<not> Contains lowerValue [CHR 0x27, CHR ''*'', CHR 0x27])
         else if name = ''X-Frame-Options'' then Contains lowerValue ''allow''
         else if name = ''X-XSS-Protection'' then Contains lowerValue ''0''
         else False)"

text \<open>The body of the loop over \<open>securityHeaders\<close>: one definition is filed into one list.\<close>

definition analyze_header ::
  "(string \<rightharpoonup> string list) \<Rightarrow> HeaderScan \<Rightarrow> SecurityHeaderDefinition \<Rightarrow> HeaderScan" where
  "analyze_header hdr scan headerDef =
     (case hdr (Name_def headerDef) of
        None \<Rightarrow>
          scan\<lparr>MissingHeaders := MissingHeaders scan @
            [\<lparr>Name = Name_def headerDef, Value = [], Status = ''missing'',
              Severity_hdr = Severity_def headerDef,
              Description_hdr = Description_def headerDef\<rparr>]\<rparr>
      | Some v \<Rightarrow>
          (let headerValue = Join v ''; ''
           in if isWeakHeader (Name_def headerDef) headerValue then
                scan\<lparr>WeakHeaders := WeakHeaders scan @
                  [\<lparr>Name = Name_def headerDef, Value = headerValue, Status = ''weak'',
                    Severity_hdr = Severity_def headerDef,
                    Description_hdr = Description_def headerDef @ '' (weak configuration)''\<rparr>]\<rparr>
              else
                scan\<lparr>PresentHeaders := PresentHeaders scan @
                    [\<lparr>Name = Name_def headerDef, Value = headerValue, Status = ''present'',
                      Severity_hdr = ''info'',
                      Description_hdr = Description_def headerDef\<rparr>],
                  SecurityScore := SecurityScore scan + 15\<rparr>))"

text \<open>
  What \<open>ScanHeaders\<close> does with a response it has obtained: copy the headers, run the loop,
  cap the points and turn them into a percentage (Go's integer division; both operands are
  non-negative).
\<close>

definition analyze_response :: "(string \<rightharpoonup> string list) \<Rightarrow> HeaderScan" where
  "analyze_response hdr =
     (let scan0 = \<lparr>Headers = (\<lambda>k. map_option (\<lambda>values. Join values ''; '') (hdr k)),
                   MissingHeaders = [], WeakHeaders = [], PresentHeaders = [],
                   SecurityScore = 0\<rparr>;
          scan1 = foldl (analyze_header hdr) scan0 securityHeaders;
          maxScore = int (length securityHeaders) * 15;
          scan2 = (if SecurityScore scan1 > maxScore then scan1\<lparr>SecurityScore := maxScore\<rparr>
                   else scan1)
      in scan2\<lparr>SecurityScore := (SecurityScore scan2 * 100) div maxScore\<rparr>)"

text \<open>
  The outbound probe: a \<open>HEAD\<close> request, and a \<open>GET\<close> request when the first fails or
  answers with a status of 400 or more.  The two requests are the environment of the analyzer.
\<close>

record HeaderProbe =
  head_request :: "error + Response"
  get_request :: "error + Response"

definition ScanHeaders :: "HeaderProbe \<Rightarrow> error + HeaderScan" where
  "ScanHeaders net =
     (let fallback = (case get_request net of
                        Inl e \<Rightarrow> Inl (''failed to connect: '' @ e)
                      | Inr resp \<Rightarrow> Inr (analyze_response (Header resp)))
      in case head_request net of
           Inl e \<Rightarrow> fallback
         | Inr resp \<Rightarrow>
             if StatusCode resp \<ge> 400 then fallback
             else Inr (analyze_response (Header resp)))"

section \<open>TLS analyzer (ScanTLS)\<close>

text \<open>
  Protocol versions and cipher-suite identifiers are \<open>uint16\<close> constants of Go's package
  \<open>crypto/tls\<close>; the values are those of the TLS registry.
\<close>

definition VersionSSL30 :: "16 word" where "VersionSSL30 = 0x0300"
definition VersionTLS10 :: "16 word" where "VersionTLS10 = 0x0301"
definition VersionTLS11 :: "16 word" where "VersionTLS11 = 0x0302"
definition VersionTLS12 :: "16 word" where "VersionTLS12 = 0x0303"
definition VersionTLS13 :: "16 word" where "VersionTLS13 = 0x0304"

definition TLS_RSA_WITH_RC4_128_SHA :: "16 word" where
  "TLS_RSA_WITH_RC4_128_SHA = 0x0005"
definition TLS_RSA_WITH_3DES_EDE_CBC_SHA :: "16 word" where
  "TLS_RSA_WITH_3DES_EDE_CBC_SHA = 0x000a"
definition TLS_RSA_WITH_AES_128_CBC_SHA :: "16 word" where
  "TLS_RSA_WITH_AES_128_CBC_SHA = 0x002f"
definition TLS_RSA_WITH_AES_256_CBC_SHA :: "16 word" where
  "TLS_RSA_WITH_AES_256_CBC_SHA = 0x0035"
definition TLS_ECDHE_RSA_WITH_RC4_128_SHA :: "16 word" where
  "TLS_ECDHE_RSA_WITH_RC4_128_SHA = 0xc011"
definition TLS_ECDHE_RSA_WITH_3DES_EDE_CBC_SHA :: "16 word" where
  "TLS_ECDHE_RSA_WITH_3DES_EDE_CBC_SHA = 0xc012"
definition TLS_ECDHE_RSA_WITH_AES_128_CBC_SHA :: "16 word" where
  "TLS_ECDHE_RSA_WITH_AES_128_CBC_SHA = 0xc013"

text \<open>
  The part of \<open>tls.ConnectionState\<close> that the analyzer reads.  A peer certificate is
  represented by the \<open>CertificateInfo\<close> the analyzer derives from it: the expiry flag and the
  days to expiry are read off the wall clock (\<open>time.Now\<close>, \<open>time.Until\<close>, a float division)
  and are inputs here.
\<close>

record ConnectionState =
  Version :: "16 word"
  CipherSuite :: "16 word"
  PeerCertificates :: "CertificateInfo list"

text \<open>
  The fields of \<open>tls.Config\<close> that the analyzer sets (\<open>0\<close> and the empty list are the zero
  values; \<open>ServerName\<close> and \<open>InsecureSkipVerify\<close> are the same in every configuration and
  are left out), and the three configurations it dials with: the default one, one pinned to a
  protocol version, and one that offers the two weak suites only.
\<close>

record Config =
  MinVersion :: "16 word"
  MaxVersion :: "16 word"
  CipherSuites :: "16 word list"

definition default_config :: Config where
  "default_config = \<lparr>MinVersion = 0, MaxVersion = 0, CipherSuites = []\<rparr>"

definition version_config :: "16 word \<Rightarrow> Config" where
  "version_config version = \<lparr>MinVersion = version, MaxVersion = version, CipherSuites = []\<rparr>"

definition weak_cipher_config :: Config where
  "weak_cipher_config =
     \<lparr>MinVersion = 0, MaxVersion = 0,
      CipherSuites = [TLS_RSA_WITH_RC4_128_SHA, TLS_RSA_WITH_3DES_EDE_CBC_SHA]\<rparr>"

text \<open>
  The client side of \<open>crypto/tls\<close>, as of Go 1.21, the toolchain of the repository's
  Dockerfile and README.  \<open>Config.supportedVersions\<close> goes through the versions that the
  library implements, the newest first (SSL 3.0 is not among them), and drops a version below
  TLS 1.2 when \<open>MinVersion\<close> is not set, a version below a \<open>MinVersion\<close> that is set and a
  version above a \<open>MaxVersion\<close> that is set.  A handshake fails at once when no version is
  left, and it fails when the server selects a version that is not among them.
\<close>

definition supportedVersions :: "Config \<Rightarrow> 16 word list" where
  "supportedVersions c =
     filter (\<lambda>v. \<not> (MinVersion c = 0 \<and> v < VersionTLS12) \<and>
                 \<not> (MinVersion c \<noteq> 0 \<and> v < MinVersion c) \<and>
                 \<not> (MaxVersion c \<noteq> 0 \<and> MaxVersion c < v))
       [VersionTLS13, VersionTLS12, VersionTLS11, VersionTLS10]"

text \<open>
  The server as the analyzer sees it: what the peer answers to the \<open>ClientHello\<close> of a
  configuration, a failure (no connection, an alert) or the parameters it selects together
  with its certificates.  Which cipher suite a server may select for a configuration is left
  to this answer: the model admits every suite.  \<open>tls.CipherSuiteName\<close> belongs to the
  library.
\<close>

record TLSServer =
  ServerHello :: "Config \<Rightarrow> error + ConnectionState"
  CipherSuiteName :: "16 word \<Rightarrow> string"

text \<open>The verb \<open>%x\<close> of \<open>fmt.Errorf\<close> for an unsigned number.\<close>

fun hex_of_nat :: "nat \<Rightarrow> string" where
  "hex_of_nat n =
     (if n < 16 then [''0123456789abcdef'' ! n]
      else hex_of_nat (n div 16) @ [''0123456789abcdef'' ! (n mod 16)])"

declare hex_of_nat.simps [simp del]

definition DialWithDialer :: "TLSServer \<Rightarrow> Config \<Rightarrow> error + ConnectionState" where
  "DialWithDialer srv config =
     (if supportedVersions config = [] then
        Inl ''tls: no supported versions satisfy MinVersion and MaxVersion''
      else
        (case ServerHello srv config of
           Inl e \<Rightarrow> Inl e
         | Inr state \<Rightarrow>
             if Version state \<in> set (supportedVersions config) then Inr state
             else Inl (''tls: server selected unsupported protocol version '' @
                       hex_of_nat (unat (Version state)))))"

definition hex4 :: "16 word \<Rightarrow> string" where
  "hex4 w = map (\<lambda>k. ''0123456789abcdef'' ! ((unat w div 16 ^ k) mod 16)) [3, 2, 1, 0]"

definition getTLSVersion :: "16 word \<Rightarrow> string" where
  "getTLSVersion version =
     (if version = VersionSSL30 then ''SSL 3.0''
      else if version = VersionTLS10 then ''TLS 1.0''
      else if version = VersionTLS11 then ''TLS 1.1''
      else if version = VersionTLS12 then ''TLS 1.2''
      else if version = VersionTLS13 then ''TLS 1.3''
      else ''Unknown (0x'' @ hex4 version @ '')'')"

definition weakCiphers :: "16 word list" where
  "weakCiphers =
     [TLS_RSA_WITH_RC4_128_SHA, TLS_RSA_WITH_3DES_EDE_CBC_SHA, TLS_RSA_WITH_AES_128_CBC_SHA,
      TLS_RSA_WITH_AES_256_CBC_SHA, TLS_ECDHE_RSA_WITH_3DES_EDE_CBC_SHA,
      TLS_ECDHE_RSA_WITH_RC4_128_SHA]"

definition isWeakCipher :: "16 word \<Rightarrow> bool" where
  "isWeakCipher suite \<longleftrightarrow> suite \<in> set weakCiphers"

definition testProtocolSupport :: "TLSServer \<Rightarrow> 16 word \<Rightarrow> bool" where
  "testProtocolSupport srv version =
     (case DialWithDialer srv (version_config version) of Inl err \<Rightarrow> False | Inr conn \<Rightarrow> True)"

definition testWeakCipherSupport :: "TLSServer \<Rightarrow> bool" where
  "testWeakCipherSupport srv =
     (case DialWithDialer srv weak_cipher_config of Inl err \<Rightarrow> False | Inr conn \<Rightarrow> True)"

definition testTLSVulnerabilities :: "TLSServer \<Rightarrow> string list" where
  "testTLSVulnerabilities srv =
     (if testProtocolSupport srv VersionSSL30
        then [''SSLv3 supported (POODLE vulnerability)''] else []) @
     (if testProtocolSupport srv VersionTLS10
        then [''TLS 1.0 supported (BEAST vulnerability)''] else []) @
     (if testWeakCipherSupport srv then [''Weak cipher suites supported''] else [])"

definition zero_CertificateInfo :: CertificateInfo where
  "zero_CertificateInfo =
     \<lparr>Issuer = [], Subject = [], ValidFrom = 0, ValidTo = 0, IsExpired = False,
      DaysToExpiry = 0\<rparr>"

text \<open>The checks on the leaf certificate, the protocol version and the cipher suite.\<close>

definition check_certificate :: "ConnectionState \<Rightarrow> TLSScan \<Rightarrow> TLSScan" where
  "check_certificate state scan =
     (case PeerCertificates state of
        [] \<Rightarrow> scan
      | cert # _ \<Rightarrow>
          (let scan = scan\<lparr>Certificate := cert\<rparr>
           in if IsExpired cert then
                scan\<lparr>Vulnerabilities := Vulnerabilities scan @ [''Certificate has expired''],
                     IsSecure := False, Score := Score scan - 50\<rparr>
              else if DaysToExpiry cert < 30 then
                scan\<lparr>Vulnerabilities := Vulnerabilities scan @
                       [''Certificate expires soon ('' @ string_of_int (DaysToExpiry cert) @
                        '' days)''],
                     Score := Score scan - 10\<rparr>
              else scan))"

definition check_version :: "ConnectionState \<Rightarrow> TLSScan \<Rightarrow> TLSScan" where
  "check_version state scan =
     (if Version state < VersionTLS12 then
        scan\<lparr>Vulnerabilities := Vulnerabilities scan @
               [''Outdated TLS version: '' @ Protocol_tls scan @ '' (TLS 1.2+ recommended)''],
             IsSecure := False, Score := Score scan - 30\<rparr>
      else if Version state = VersionTLS12 then
        scan\<lparr>Vulnerabilities := Vulnerabilities scan @
               [''TLS 1.2 is acceptable but TLS 1.3 is recommended''],
             Score := Score scan - 5\<rparr>
      else scan)"

definition check_cipher :: "ConnectionState \<Rightarrow> TLSScan \<Rightarrow> TLSScan" where
  "check_cipher state scan =
     (if isWeakCipher (CipherSuite state) then
        scan\<lparr>Vulnerabilities := Vulnerabilities scan @
               [''Weak cipher suite: '' @ CipherSuite_tls scan],
             Score := Score scan - 20, IsSecure := False\<rparr>
      else scan)"

definition check_probes :: "string list \<Rightarrow> TLSScan \<Rightarrow> TLSScan" where
  "check_probes vulnerabilities scan =
     (let scan = scan\<lparr>Vulnerabilities := Vulnerabilities scan @ vulnerabilities\<rparr>
      in if length vulnerabilities > 0 then
           scan\<lparr>Score := Score scan - 10 * int (length vulnerabilities), IsSecure := False\<rparr>
         else scan)"

definition clamp_score :: "TLSScan \<Rightarrow> TLSScan" where
  "clamp_score scan = (if Score scan < 0 then scan\<lparr>Score := 0\<rparr> else scan)"

text \<open>The analysis of a completed handshake, from the initial scan record to the clamp.\<close>

definition initial_scan :: "TLSServer \<Rightarrow> ConnectionState \<Rightarrow> TLSScan" where
  "initial_scan srv state =
     \<lparr>Protocol_tls = getTLSVersion (Version state),
      CipherSuite_tls = CipherSuiteName srv (CipherSuite state),
      Certificate = zero_CertificateInfo,
      Vulnerabilities = [], Score = 100, IsSecure = True\<rparr>"

definition analyze_handshake :: "TLSServer \<Rightarrow> ConnectionState \<Rightarrow> TLSScan" where
  "analyze_handshake srv state =
     (let scan = initial_scan srv state;
          scan = check_certificate state scan;
          scan = check_version state scan;
          scan = check_cipher state scan;
          scan = check_probes (testTLSVulnerabilities srv) scan
      in clamp_score scan)"

text \<open>
  \<open>ScanTLS\<close> returns, besides its result, the configurations of the handshakes it attempted,
  in order: the model's record of the analyzer's network activity.
\<close>

definition ScanTLS :: "TargetInfo \<Rightarrow> TLSServer \<Rightarrow> Config list \<times> (error + TLSScan)" where
  "ScanTLS target srv =
     (if Protocol target \<noteq> ''https'' then
        ([], Inr \<lparr>Protocol_tls = [], CipherSuite_tls = [], Certificate = zero_CertificateInfo,
                  Vulnerabilities = [''Target is not using HTTPS''], Score = 0,
                  IsSecure = False\<rparr>)
      else
        (case DialWithDialer srv default_config of
           Inl err \<Rightarrow> ([default_config], Inl (''TLS connection failed: '' @ err))
         | Inr state \<Rightarrow>
             ([default_config, version_config VersionSSL30, version_config VersionTLS10,
               weak_cipher_config],
              Inr (analyze_handshake srv state))))"

section \<open>Reflected-injection analyzers (ScanSQLi, ScanXSS)\<close>

text \<open>
  The target as the two analyzers see it.  \<open>url.Parse\<close> and the HTTP client belong to the
  library: the parsed URL is an input (its path, and the names of its query parameters in the
  order in which the \<open>range\<close> over the parameter map visits them), and so are the responses.
  A test request is identified by the parameter that carries the payload and by the payload;
  \<^term>\<open>None\<close> is a request that failed.
\<close>

record ParsedURL =
  Path :: string
  Query :: "string list"

record WebServer =
  parsed_url :: "error + ParsedURL"
  get_url :: "error + Response"
  get_param :: "string \<Rightarrow> string \<Rightarrow> Response option"
  get_path :: "string \<Rightarrow> Response option"
  get_fragment :: "Response option"

datatype request =
  GetURL | GetParam string string | GetPath string | GetFragment

record payloadInfo =
  payload :: string
  description :: string

record xssPayloadInfo = payloadInfo +
  pattern :: string

text \<open>
  The loop over the payloads of one parameter, shared by both analyzers: a failed request is
  skipped (\<open>continue\<close>), the first finding ends the loop (\<open>break\<close>).  The result holds the
  payloads that were sent, in order, and the finding.
\<close>

fun test_payloads ::
  "('p \<Rightarrow> Response option) \<Rightarrow> ('p \<Rightarrow> Response \<Rightarrow> Vulnerability option) \<Rightarrow> 'p list
     \<Rightarrow> 'p list \<times> Vulnerability option" where
  "test_payloads get check [] = ([], None)"
| "test_payloads get check (p # ps) =
     (case get p of
        None \<Rightarrow> (let (sent, found) = test_payloads get check ps in (p # sent, found))
      | Some resp \<Rightarrow>
          (case check p resp of
             Some v \<Rightarrow> ([p], Some v)
           | None \<Rightarrow> (let (sent, found) = test_payloads get check ps in (p # sent, found))))"

definition findings :: "Vulnerability option list \<Rightarrow> Vulnerability list" where
  "findings rs = concat (map (\<lambda>r. case r of None \<Rightarrow> [] | Some v \<Rightarrow> [v]) rs)"

subsection \<open>SQL injection\<close>

definition sqliPayloads :: "payloadInfo list" where
  \<open>sqliPayloads =
     [\<lparr>payload = [CHR 0x27], description = ''Single quote test''\<rparr>,
      \<lparr>payload = ''' OR '1'='1'', description = ''Classic OR bypass''\<rparr>,
      \<lparr>payload = ''' OR '1'='1' --'', description = ''OR bypass with comment''\<rparr>,
      \<lparr>payload = ''' OR 1=1 --'', description = ''Numeric OR bypass''\<rparr>,
      \<lparr>payload = ''admin' --'', description = ''Comment injection''\<rparr>,
      \<lparr>payload = ''' UNION SELECT NULL--'', description = ''UNION injection test''\<rparr>,
      \<lparr>payload = ''1' AND '1'='2'', description = ''False condition test''\<rparr>,
      \<lparr>payload = '''; DROP TABLE users--'', description = ''Destructive command test''\<rparr>,
      \<lparr>payload = ''' OR 'x'='x'', description = ''Alternative OR bypass''\<rparr>,
      \<lparr>payload = ''1' ORDER BY 1--'', description = ''ORDER BY enumeration''\<rparr>]\<close>

definition sqlErrorPatterns :: "string list" where
  "sqlErrorPatterns =
     [''sql syntax'', ''mysql_fetch'', ''mysql_num_rows'', ''mysqli'', ''sqlexception'',
      ''postgresql'', ''sqlite'', ''oracle'', ''odbc'', ''mssql'', ''jdbc'', ''ora-'',
      ''pg_query'', ''pg_exec'', ''syntax error'', ''unterminated quoted string'',
      ''unclosed quotation mark'', ''error in your sql syntax'',
      ''you have an error in your sql'']"

definition sqli_fallback_params :: "string list" where
  "sqli_fallback_params = [''id'', ''user'', ''page'', ''search'', ''q'', ''username'']"

definition detectSQLError :: "string \<Rightarrow> string" where
  "detectSQLError body = (case find (Contains body) sqlErrorPatterns of None \<Rightarrow> [] | Some p \<Rightarrow> p)"

text \<open>
  \<open>detectBehaviorChange\<close> divides two \<open>float64\<close> values and compares the quotient with the
  constants \<open>0.1\<close> and \<open>-0.1\<close>.  \<open>float64 x\<close> is the real number \<open>x\<close> rounded to a
  significand of 53 bits, ties to even, which is the value that the conversion of an integer,
  the division and the constant \<open>0.1\<close> have in IEEE 754 binary64 arithmetic as long as the
  magnitude lies between \<open>2^-1022\<close> and \<open>2^1024\<close>; the quotient of two body lengths does.
  \<open>round53\<close> scales its argument into the interval from \<open>2^52\<close> to \<open>2^53\<close>, where the
  representable numbers are the integers, rounds there and scales back.
\<close>

definition round_to_even :: "real \<Rightarrow> int" where
  "round_to_even x =
     (let n = \<lfloor>x\<rfloor>; d = x - of_int n
      in if d < 1 / 2 then n else if 1 / 2 < d then n + 1 else if even n then n else n + 1)"

fun round53 :: "nat \<Rightarrow> real \<Rightarrow> real" where
  "round53 0 x = 0"
| "round53 (Suc n) x =
     (if x < 2 ^ 52 then round53 n (2 * x) / 2
      else if 2 ^ 53 \<le> x then 2 * round53 n (x / 2)
      else of_int (round_to_even x))"

definition float64 :: "real \<Rightarrow> real" where
  "float64 x = (if x < 0 then - round53 1100 (- x) else round53 1100 x)"

text \<open>
  The division by a zero baseline length is as IEEE 754 defines it: a non-zero difference gives
  an infinity, which is beyond the threshold, and \<open>0/0\<close> gives a NaN, for which both
  comparisons are false.
\<close>

definition detectBehaviorChange :: "int \<Rightarrow> int \<Rightarrow> int \<Rightarrow> int \<Rightarrow> bool" where
  "detectBehaviorChange baselineStatus testStatus baselineLength testLength =
     (if baselineStatus \<noteq> testStatus then True
      else if baselineLength = 0 then testLength - baselineLength \<noteq> 0
      else (let lengthDiff = float64 (float64 (of_int (testLength - baselineLength)) /
                                      float64 (of_int baselineLength))
            in lengthDiff > float64 (1 / 10) \<or> lengthDiff < - float64 (1 / 10)))"

text \<open>What the loop body of \<open>ScanSQLi\<close> does with the response to one payload.\<close>

definition sqli_check ::
  "int \<Rightarrow> int \<Rightarrow> string \<Rightarrow> payloadInfo \<Rightarrow> Response \<Rightarrow> Vulnerability option" where
  "sqli_check baselineStatus baselineLength paramName payloadInfo resp =
     (let body = Body resp;
          bodyStr = ToLower body;
          sqlError = detectSQLError bodyStr
      in if sqlError \<noteq> [] then
           Some \<lparr>Type = ''sqli'', Severity = ''critical'',
                 Location = ''Parameter: '' @ paramName,
                 Payload = payload payloadInfo,
                 Evidence = ''SQL error detected: '' @ sqlError,
                 Description = description payloadInfo @ '' - SQL error exposed''\<rparr>
         else if detectBehaviorChange baselineStatus (StatusCode resp) baselineLength
                   (int (length body)) then
           Some \<lparr>Type = ''sqli'', Severity = ''high'',
                 Location = ''Parameter: '' @ paramName,
                 Payload = payload payloadInfo,
                 Evidence = ''Response behavior changed: baseline='' @
                   string_of_int baselineLength @ '' bytes, test='' @
                   string_of_int (int (length body)) @ '' bytes'',
                 Description = description payloadInfo @
                   '' - Response indicates potential SQL injection''\<rparr>
         else None)"

definition test_param_sqli ::
  "WebServer \<Rightarrow> int \<Rightarrow> int \<Rightarrow> string \<Rightarrow> payloadInfo list \<times> Vulnerability option" where
  "test_param_sqli srv baselineStatus baselineLength paramName =
     test_payloads (\<lambda>p. get_param srv paramName (payload p))
       (sqli_check baselineStatus baselineLength paramName) sqliPayloads"

definition path_check :: "string \<Rightarrow> Response \<Rightarrow> Vulnerability option" where
  "path_check p resp =
     (let bodyStr = ToLower (Body resp);
          sqlError = detectSQLError bodyStr
      in if sqlError \<noteq> [] then
           Some \<lparr>Type = ''sqli'', Severity = ''critical'', Location = ''URL Path'',
                 Payload = p, Evidence = ''SQL error detected: '' @ sqlError,
                 Description = ''SQL injection in URL path''\<rparr>
         else None)"

definition pathPayloads :: "string list" where
  \<open>pathPayloads = [[CHR 0x27], ''' OR '1'='1'']\<close>

definition testPathInjection :: "WebServer \<Rightarrow> string list \<times> Vulnerability option" where
  "testPathInjection srv = test_payloads (get_path srv) path_check pathPayloads"

definition param_requests :: "string \<Rightarrow> payloadInfo list \<Rightarrow> request list" where
  "param_requests paramName sent = map (\<lambda>p. GetParam paramName (payload p)) sent"

definition ScanSQLi :: "WebServer \<Rightarrow> request list \<times> (error + Vulnerability list)" where
  "ScanSQLi srv =
     (case parsed_url srv of
        Inl e \<Rightarrow> ([], Inl (''failed to parse URL: '' @ e))
      | Inr parsedURL \<Rightarrow>
          (let queryParams = (if length (Query parsedURL) = 0 then sqli_fallback_params
                              else Query parsedURL)
           in case get_url srv of
                Inl e \<Rightarrow> ([GetURL], Inl (''failed to get baseline response: '' @ e))
              | Inr baselineResp \<Rightarrow>
                  (let baselineLength = int (length (Body baselineResp));
                       tested = map (\<lambda>paramName.
                                  (paramName, test_param_sqli srv (StatusCode baselineResp)
                                                baselineLength paramName)) queryParams;
                       reqs = concat (map (\<lambda>(paramName, sent, _). param_requests paramName sent)
                                        tested);
                       vulnerabilities = findings (map (\<lambda>(_, _, found). found) tested);
                       (sent, found) = (if length (Path parsedURL) > 1 then testPathInjection srv
                                        else ([], None))
                   in (GetURL # reqs @ map GetPath sent,
                       Inr (vulnerabilities @ findings [found])))))"

subsection \<open>Cross-site scripting\<close>

definition xssPayloads :: "xssPayloadInfo list" where
  \<open>xssPayloads =
     [\<lparr>payload = ''<script>alert('XSS')</script>'',
       description = ''Basic script injection'',
       pattern = ''<script>alert('xss')</script>''\<rparr>,
      \<lparr>payload = ''<img src=x onerror=alert('XSS')>'',
       description = ''Image tag with onerror handler'',
       pattern = ''<img src=x onerror=alert('xss')>''\<rparr>,
      \<lparr>payload = ''<svg/onload=alert('XSS')>'',
       description = ''SVG with onload handler'',
       pattern = ''<svg/onload=alert('xss')>''\<rparr>,
      \<lparr>payload = ''"><script>alert('XSS')</script>'',
       description = ''Breaking out of attribute'',
       pattern = ''"><script>alert('xss')</script>''\<rparr>,
      \<lparr>payload = ''javascript:alert('XSS')'',
       description = ''JavaScript protocol handler'',
       pattern = ''javascript:alert('xss')''\<rparr>,
      \<lparr>payload = ''<iframe src=javascript:alert('XSS')>'',
       description = ''Iframe with JavaScript URL'',
       pattern = ''<iframe src=javascript:alert('xss')>''\<rparr>,
      \<lparr>payload = ''<body onload=alert('XSS')>'',
       description = ''Body tag with onload'',
       pattern = ''<body onload=alert('xss')>''\<rparr>,
      \<lparr>payload = ''<input onfocus=alert('XSS') autofocus>'',
       description = ''Input with autofocus'',
       pattern = ''<input onfocus=alert('xss') autofocus>''\<rparr>,
      \<lparr>payload = ''<marquee onstart=alert('XSS')>'',
       description = ''Marquee tag exploitation'',
       pattern = ''<marquee onstart=alert('xss')>''\<rparr>,
      \<lparr>payload = ''<details open ontoggle=alert('XSS')>'',
       description = ''Details tag with ontoggle'',
       pattern = ''<details open ontoggle=alert('xss')>''\<rparr>]\<close>

definition xss_fallback_params :: "string list" where
  "xss_fallback_params =
     [''q'', ''search'', ''query'', ''keyword'', ''name'', ''comment'', ''message'', ''input'']"

definition checkPartialReflection :: "string \<Rightarrow> string \<Rightarrow> bool" where
  "checkPartialReflection body p =
     (let cleanPayload = RemoveAll p CHR ''<'';
          cleanPayload = RemoveAll cleanPayload CHR ''>'';
          cleanPayload = RemoveAll cleanPayload CHR 0x27;
          cleanPayload = RemoveAll cleanPayload CHR 0x22;
          cleanPayload = ToLower cleanPayload
      in if Contains cleanPayload ''alert'' \<and> Contains body ''alert'' then True
         else if Contains cleanPayload ''xss'' \<and> Contains body ''xss'' then True
         else False)"

text \<open>What the loop body of \<open>ScanXSS\<close> does with the response to one payload.\<close>

definition xss_check :: "string \<Rightarrow> xssPayloadInfo \<Rightarrow> Response \<Rightarrow> Vulnerability option" where
  "xss_check paramName payloadInfo resp =
     (let bodyStr = ToLower (Body resp)
      in if Contains bodyStr (pattern payloadInfo) then
           Some \<lparr>Type = ''xss'', Severity = ''high'',
                 Location = ''Parameter: '' @ paramName,
                 Payload = payload payloadInfo,
                 Evidence = ''Payload reflected unescaped in response'',
                 Description = description payloadInfo @
                   '' - Payload found in response without proper encoding''\<rparr>
         else if checkPartialReflection bodyStr (payload payloadInfo) then
           Some \<lparr>Type = ''xss'', Severity = ''medium'',
                 Location = ''Parameter: '' @ paramName,
                 Payload = payload payloadInfo,
                 Evidence = ''Payload partially reflected, may be bypassable'',
                 Description = description payloadInfo @
                   '' - Input reflected with partial encoding''\<rparr>
         else None)"

definition test_param_xss ::
  "WebServer \<Rightarrow> string \<Rightarrow> xssPayloadInfo list \<times> Vulnerability option" where
  "test_param_xss srv paramName =
     test_payloads (\<lambda>p. get_param srv paramName (payload p)) (xss_check paramName) xssPayloads"

definition dangerousPatterns :: "string list" where
  "dangerousPatterns =
     [''location.hash'', ''window.location.hash'', ''document.location.hash'',
      ''location.href'', ''document.write('', ''eval('', ''innerhtml'', ''outerhtml'']"

definition testDOMXSS :: "WebServer \<Rightarrow> Vulnerability list" where
  "testDOMXSS srv =
     (case get_fragment srv of
        None \<Rightarrow> []
      | Some resp \<Rightarrow>
          (case find (Contains (ToLower (Body resp))) dangerousPatterns of
             None \<Rightarrow> []
           | Some dangerousPattern \<Rightarrow>
               [\<lparr>Type = ''xss'', Severity = ''medium'',
                 Location = ''DOM (client-side JavaScript)'',
                 Payload = ''DOM manipulation pattern detected'',
                 Evidence = ''Found dangerous pattern: '' @ dangerousPattern,
                 Description =
                   ''Page uses potentially unsafe DOM manipulation that could lead to XSS''\<rparr>]))"

definition ScanXSS :: "WebServer \<Rightarrow> request list \<times> (error + Vulnerability list)" where
  "ScanXSS srv =
     (case parsed_url srv of
        Inl e \<Rightarrow> ([], Inl (''failed to parse URL: '' @ e))
      | Inr parsedURL \<Rightarrow>
          (let queryParams = (if length (Query parsedURL) = 0 then xss_fallback_params
                              else Query parsedURL);
               tested = map (\<lambda>paramName. (paramName, test_param_xss srv paramName)) queryParams;
               reqs = concat (map (\<lambda>(paramName, sent, _).
                                map (\<lambda>p. GetParam paramName (payload p)) sent) tested);
               vulnerabilities = findings (map (\<lambda>(_, _, found). found) tested)
           in (reqs @ [GetFragment], Inr (vulnerabilities @ testDOMXSS srv))))"

section \<open>Probe orchestrator (RunSecurityScan)\<close>

text \<open>
  The options; the progress reporter is left out of the record, the model logs the percentages
  that are computed for it instead.  \<open>Timeout\<close> is a \<open>time.Duration\<close>, a count of nanoseconds.
\<close>

record ScanOptions =
  SkipNmap :: bool
  SkipHeaders :: bool
  SkipTLS :: bool
  SkipSQLi :: bool
  SkipXSS :: bool
  Timeout :: int

datatype scan_unit = HeadersUnit | TLSUnit | SQLiUnit | XSSUnit | NmapUnit

text \<open>Go's integer division truncates towards zero.\<close>

definition quot :: "int \<Rightarrow> int \<Rightarrow> int" where
  "quot a b = sgn a * sgn b * (\<bar>a\<bar> div \<bar>b\<bar>)"

text \<open>
  The environment of one orchestration: the answers of the two calls of
  \<open>scanner.IsNmapInstalled\<close>, the first when the scans are counted and the second when the
  port probe is about to be launched, and what each analyzer returns for the target; the port
  probe is given its own timeout.
\<close>

record Analyzers =
  IsNmapInstalled_count :: bool
  IsNmapInstalled_launch :: bool
  run_ScanHeaders :: "error + HeaderScan"
  run_ScanTLS :: "error + TLSScan"
  run_ScanSQLi :: "error + Vulnerability list"
  run_ScanXSS :: "error + Vulnerability list"
  run_ScanNmap :: "int \<Rightarrow> error + NmapScan"

definition count_totalScans :: "ScanOptions \<Rightarrow> Analyzers \<Rightarrow> int" where
  "count_totalScans options env =
     (let totalScans = 0;
          totalScans = (if \<not> SkipHeaders options then totalScans + 1 else totalScans);
          totalScans = (if \<not> SkipTLS options then totalScans + 1 else totalScans);
          totalScans = (if \<not> SkipSQLi options then totalScans + 1 else totalScans);
          totalScans = (if \<not> SkipXSS options then totalScans + 1 else totalScans);
          totalScans = (if \<not> SkipNmap options \<and> IsNmapInstalled_count env then totalScans + 1
                        else totalScans)
      in totalScans)"

definition enabled :: "ScanOptions \<Rightarrow> Analyzers \<Rightarrow> scan_unit \<Rightarrow> bool" where
  "enabled options env u =
     (case u of
        HeadersUnit \<Rightarrow> \<not> SkipHeaders options
      | TLSUnit \<Rightarrow> \<not> SkipTLS options
      | SQLiUnit \<Rightarrow> \<not> SkipSQLi options
      | XSSUnit \<Rightarrow> \<not> SkipXSS options
      | NmapUnit \<Rightarrow> \<not> SkipNmap options \<and> IsNmapInstalled_launch env)"

definition launched :: "ScanOptions \<Rightarrow> Analyzers \<Rightarrow> scan_unit list" where
  "launched options env =
     filter (enabled options env) [HeadersUnit, TLSUnit, SQLiUnit, XSSUnit, NmapUnit]"

text \<open>What the analyzer of a unit returns: its error, if it fails.\<close>

definition unit_error :: "ScanOptions \<Rightarrow> Analyzers \<Rightarrow> scan_unit \<Rightarrow> error option" where
  "unit_error options env u =
     (case u of
        HeadersUnit \<Rightarrow> (case run_ScanHeaders env of Inl err \<Rightarrow> Some err | Inr x \<Rightarrow> None)
      | TLSUnit \<Rightarrow> (case run_ScanTLS env of Inl err \<Rightarrow> Some err | Inr x \<Rightarrow> None)
      | SQLiUnit \<Rightarrow> (case run_ScanSQLi env of Inl err \<Rightarrow> Some err | Inr x \<Rightarrow> None)
      | XSSUnit \<Rightarrow> (case run_ScanXSS env of Inl err \<Rightarrow> Some err | Inr x \<Rightarrow> None)
      | NmapUnit \<Rightarrow>
          (case run_ScanNmap env (quot (Timeout options) 2) of
             Inl err \<Rightarrow> Some err | Inr x \<Rightarrow> None))"

text \<open>
  The call is a concurrent program: the goroutine of each launched unit and the calling
  goroutine work on the one \<open>result\<close>.  The model is an interleaving of their steps, each
  step one access to the shared memory.

  A unit runs two critical sections under the one mutex.  In the first it stores its output
  (\<open>Store\<close>), or it appends its error to \<open>result.Errors\<close>, which is a read of the slice
  (\<open>Load\<close>) and a write of the extended slice (\<open>Store\<close>).  In the second, inside
  \<open>updateProgress\<close>, it increments the counter of completed scans and computes the
  percentage (\<open>Count\<close>).

  The calling goroutine takes a branch of the \<open>select\<close> statement (\<open>Select\<close>).  On the
  deadline branch it appends the timeout error, a read (\<open>LoadErrors\<close>) and a write
  (\<open>StoreErrors\<close>) of \<open>result.Errors\<close>.  It then sets the end time (\<open>SetEndTime\<close>), reads
  the four fields that \<open>CalculateRiskLevel\<close> counts, one after the other (\<open>CountSQLi\<close>,
  \<open>CountXSS\<close>, \<open>CountTLS\<close>, \<open>CountHeaders\<close>), writes the risk level (\<open>SetRiskLevel\<close>),
  reports the end and returns (\<open>ReportDone\<close>).  It takes the mutex for none of these steps.

  A slice is a value here: the write of an append replaces the whole slice by the slice that
  was read, extended by one element.  That is what the first append to the empty slice
  \<open>[]error{}\<close> does, and any append that finds the capacity used up.
\<close>

datatype event =
    Load scan_unit | Store scan_unit | Count scan_unit
  | Select | LoadErrors | StoreErrors | SetEndTime
  | CountSQLi | CountXSS | CountTLS | CountHeaders | SetRiskLevel | ReportDone

text \<open>
  A schedule lists the steps up to the return of the call, in the order in which they took
  place, says which branch the \<open>select\<close> took, and gives the two readings of the clock.
\<close>

record Schedule =
  events :: "event list"
  deadline_first :: bool
  now_start :: time
  now_end :: time

text \<open>
  The state: the shared result and counter, the progress reports, and what the goroutines hold
  in local variables: the slice a unit has read for its append, the slice the caller has read
  for the timeout error, and the three counters of \<open>CalculateRiskLevel\<close>.
\<close>

record RunState =
  result :: ScanResult
  completedScans :: int
  reported :: "(string \<times> int) list"
  unit_loaded :: "scan_unit \<Rightarrow> error list"
  main_loaded :: "error list"
  counts :: Counts

text \<open>The write of the first critical section of each of the five units.\<close>

definition store_output ::
  "ScanOptions \<Rightarrow> Analyzers \<Rightarrow> scan_unit \<Rightarrow> error list \<Rightarrow> ScanResult \<Rightarrow> ScanResult" where
  "store_output options env u loaded r =
     (case u of
        HeadersUnit \<Rightarrow>
          (case run_ScanHeaders env of
             Inl err \<Rightarrow> r\<lparr>Errors := loaded @ [err]\<rparr>
           | Inr headerScan \<Rightarrow> r\<lparr>HeaderResults := Some headerScan\<rparr>)
      | TLSUnit \<Rightarrow>
          (case run_ScanTLS env of
             Inl err \<Rightarrow> r\<lparr>Errors := loaded @ [err]\<rparr>
           | Inr tlsScan \<Rightarrow> r\<lparr>TLSResults := Some tlsScan\<rparr>)
      | SQLiUnit \<Rightarrow>
          (case run_ScanSQLi env of
             Inl err \<Rightarrow> r\<lparr>Errors := loaded @ [err]\<rparr>
           | Inr sqliVulns \<Rightarrow> r\<lparr>SQLiResults := Some sqliVulns\<rparr>)
      | XSSUnit \<Rightarrow>
          (case run_ScanXSS env of
             Inl err \<Rightarrow> r\<lparr>Errors := loaded @ [err]\<rparr>
           | Inr xssVulns \<Rightarrow> r\<lparr>XSSResults := Some xssVulns\<rparr>)
      | NmapUnit \<Rightarrow>
          (case run_ScanNmap env (quot (Timeout options) 2) of
             Inl err \<Rightarrow> r\<lparr>Errors := loaded @ [err]\<rparr>
           | Inr nmapScan \<Rightarrow> r\<lparr>NmapResults := Some nmapScan\<rparr>))"

definition scanName :: "scan_unit \<Rightarrow> string" where
  "scanName u =
     (case u of
        HeadersUnit \<Rightarrow> ''Security Headers''
      | TLSUnit \<Rightarrow> ''TLS/SSL''
      | SQLiUnit \<Rightarrow> ''SQL Injection''
      | XSSUnit \<Rightarrow> ''XSS''
      | NmapUnit \<Rightarrow> ''Nmap'')"

text \<open>
  \<open>updateProgress\<close>: the division by \<open>totalScans\<close> panics when the divisor is zero, which is
  the result \<^term>\<open>None\<close>.  A panic in a goroutine ends the program.
\<close>

definition updateProgress :: "int \<Rightarrow> string \<Rightarrow> RunState \<Rightarrow> RunState option" where
  "updateProgress totalScans name st =
     (let completed = completedScans st + 1
      in if totalScans = 0 then None
         else Some (st\<lparr>completedScans := completed,
                       reported := reported st @
                         [(''Completed '' @ name, quot (completed * 100) totalScans)]\<rparr>))"

text \<open>The counters of \<open>CalculateRiskLevel\<close>, field by field, and the level they give.\<close>

definition count_tls :: "Counts \<Rightarrow> TLSScan option \<Rightarrow> Counts" where
  "count_tls c t =
     (case t of
        Some tlsScan \<Rightarrow> if \<not> IsSecure tlsScan then c\<lparr>highCount := highCount c + 1\<rparr> else c
      | None \<Rightarrow> c)"

definition count_headers :: "Counts \<Rightarrow> HeaderScan option \<Rightarrow> Counts" where
  "count_headers c h =
     (case h of
        Some headerScan \<Rightarrow>
          if SecurityScore headerScan < 50 then c\<lparr>mediumCount := mediumCount c + 1\<rparr> else c
      | None \<Rightarrow> c)"

definition risk_of_counts :: "Counts \<Rightarrow> string" where
  "risk_of_counts c =
     (if criticalCount c > 0 then ''CRITICAL''
      else if highCount c > 0 then ''HIGH''
      else if mediumCount c > 0 then ''MEDIUM''
      else ''LOW'')"

text \<open>One step of the program.\<close>

definition step ::
  "ScanOptions \<Rightarrow> Analyzers \<Rightarrow> int \<Rightarrow> time \<Rightarrow> event \<Rightarrow> RunState \<Rightarrow> RunState option" where
  "step options env totalScans now e st =
     (case e of
        Load u \<Rightarrow> Some (st\<lparr>unit_loaded := (unit_loaded st)(u := Errors (result st))\<rparr>)
      | Store u \<Rightarrow>
          Some (st\<lparr>result := store_output options env u (unit_loaded st u) (result st)\<rparr>)
      | Count u \<Rightarrow> updateProgress totalScans (scanName u) st
      | Select \<Rightarrow> Some st
      | LoadErrors \<Rightarrow> Some (st\<lparr>main_loaded := Errors (result st)\<rparr>)
      | StoreErrors \<Rightarrow>
          Some (st\<lparr>result := (result st)\<lparr>Errors := main_loaded st @ [''scan timeout exceeded'']\<rparr>\<rparr>)
      | SetEndTime \<Rightarrow> Some (st\<lparr>result := (result st)\<lparr>EndTime := now\<rparr>\<rparr>)
      | CountSQLi \<Rightarrow>
          Some (st\<lparr>counts := foldl count_severity
                                \<lparr>criticalCount = 0, highCount = 0, mediumCount = 0\<rparr>
                                (elems (SQLiResults (result st)))\<rparr>)
      | CountXSS \<Rightarrow>
          Some (st\<lparr>counts := foldl count_severity (counts st) (elems (XSSResults (result st)))\<rparr>)
      | CountTLS \<Rightarrow> Some (st\<lparr>counts := count_tls (counts st) (TLSResults (result st))\<rparr>)
      | CountHeaders \<Rightarrow>
          Some (st\<lparr>counts := count_headers (counts st) (HeaderResults (result st))\<rparr>)
      | SetRiskLevel \<Rightarrow>
          Some (st\<lparr>result := (result st)\<lparr>RiskLevel := risk_of_counts (counts st)\<rparr>\<rparr>)
      | ReportDone \<Rightarrow> Some (st\<lparr>reported := reported st @ [(''All scans complete'', 100)]\<rparr>))"

fun run_events ::
  "ScanOptions \<Rightarrow> Analyzers \<Rightarrow> int \<Rightarrow> time \<Rightarrow> event list \<Rightarrow> RunState \<Rightarrow> RunState option" where
  "run_events options env totalScans now [] st = Some st"
| "run_events options env totalScans now (e # es) st =
     (case step options env totalScans now e st of
        None \<Rightarrow> None
      | Some st' \<Rightarrow> run_events options env totalScans now es st')"

text \<open>
  The steps of the calling goroutine and of a unit, in program order, and the goroutine a step
  belongs to.
\<close>

definition main_steps :: "bool \<Rightarrow> event list" where
  "main_steps deadline =
     Select # (if deadline then [LoadErrors, StoreErrors] else []) @
     [SetEndTime, CountSQLi, CountXSS, CountTLS, CountHeaders, SetRiskLevel, ReportDone]"

definition unit_steps :: "ScanOptions \<Rightarrow> Analyzers \<Rightarrow> scan_unit \<Rightarrow> event list" where
  "unit_steps options env u =
     (case unit_error options env u of
        Some err \<Rightarrow> [Load u, Store u, Count u]
      | None \<Rightarrow> [Store u, Count u])"

fun unit_of :: "event \<Rightarrow> scan_unit option" where
  "unit_of (Load u) = Some u"
| "unit_of (Store u) = Some u"
| "unit_of (Count u) = Some u"
| "unit_of e = None"

text \<open>
  The mutex: among the steps of the units, the write of an append follows its read at once.
\<close>

fun exclusive :: "event list \<Rightarrow> bool" where
  "exclusive [] = True"
| "exclusive [e] = True"
| "exclusive (Load u # e # es) = (e = Store u \<and> exclusive es)"
| "exclusive (e # es) = exclusive es"

text \<open>
  A schedule is one the program can produce when the steps of the calling goroutine are its
  program, in order; the steps of a launched unit are a beginning of its program, in order, and
  no other unit has a step; the critical sections exclude one another; the completion branch
  of the \<open>select\<close> is taken only after every launched unit has run to its end (\<open>wg.Wait\<close>
  has returned), and the deadline branch only when the timeout has passed on the clock.
\<close>

definition valid_schedule :: "ScanOptions \<Rightarrow> Analyzers \<Rightarrow> Schedule \<Rightarrow> bool" where
  "valid_schedule options env sched \<longleftrightarrow>
     filter (\<lambda>e. unit_of e = None) (events sched) = main_steps (deadline_first sched) \<and>
     list_all (\<lambda>u. let es = filter (\<lambda>e. unit_of e = Some u) (events sched)
                    in if enabled options env u
                       then es = take (length es) (unit_steps options env u)
                       else es = [])
       [HeadersUnit, TLSUnit, SQLiUnit, XSSUnit, NmapUnit] \<and>
     exclusive (filter (\<lambda>e. unit_of e \<noteq> None) (events sched)) \<and>
     (if deadline_first sched then Timeout options \<le> now_end sched - now_start sched
      else list_all (\<lambda>u. Count u \<in> set (takeWhile (\<lambda>e. e \<noteq> Select) (events sched)))
             (launched options env))"

definition initial_result :: "TargetInfo \<Rightarrow> time \<Rightarrow> ScanResult" where
  "initial_result target now =
     \<lparr>Target = target, StartTime = now, EndTime = 0, NmapResults = None,
      HeaderResults = None, TLSResults = None, SQLiResults = None, XSSResults = None,
      Errors = [], RiskLevel = []\<rparr>"

definition orchestrate ::
  "TargetInfo \<Rightarrow> ScanOptions \<Rightarrow> Analyzers \<Rightarrow> Schedule \<Rightarrow> RunState option" where
  "orchestrate target options env sched =
     run_events options env (count_totalScans options env) (now_end sched) (events sched)
       \<lparr>result = initial_result target (now_start sched), completedScans = 0, reported = [],
        unit_loaded = (\<lambda>u. []), main_loaded = [],
        counts = \<lparr>criticalCount = 0, highCount = 0, mediumCount = 0\<rparr>\<rparr>"

text \<open>
  The value of a call: a panic, or the pair that \<open>RunSecurityScan\<close> returns, a pointer to the
  result (\<^term>\<open>None\<close> for \<open>nil\<close>) and an error (\<^term>\<open>None\<close> for \<open>nil\<close>).  The result is
  the shared record as it is when the call returns.
\<close>

datatype 'a outcome = Panic | Return 'a

definition RunSecurityScan ::
  "TargetInfo \<Rightarrow> ScanOptions \<Rightarrow> Analyzers \<Rightarrow> Schedule
     \<Rightarrow> (ScanResult option \<times> error option) outcome" where
  "RunSecurityScan target options env sched =
     (case orchestrate target options env sched of
        None \<Rightarrow> Panic
      | Some st \<Rightarrow> Return (Some (result st), None))"

section \<open>Notions used to state the properties\<close>

text \<open>Some finding of the two vulnerability lists of a result has the given severity.\<close>

definition has_severity :: "string \<Rightarrow> ScanResult \<Rightarrow> bool" where
  "has_severity s r \<longleftrightarrow>
     (\<exists>v \<in> set (elems (SQLiResults r) @ elems (XSSResults r)). Severity v = s)"

definition finding :: "string \<Rightarrow> Vulnerability" where
  "finding s =
     \<lparr>Type = ''sqli'', Severity = s, Location = ''Parameter: id'', Payload = [],
      Evidence = [], Description = []\<rparr>"

text \<open>
  A result with one critical, one high and two medium findings, an insecure TLS result and a
  header score of 14.
\<close>

definition mixed_result :: ScanResult where
  "mixed_result =
     \<lparr>Target = \<lparr>URL = ''https://example.com/?id=1'', Domain = ''example.com'',
                 IP = ''93.184.216.34'', Protocol = ''https'', Port = 443\<rparr>,
      StartTime = 0, EndTime = 1, NmapResults = None,
      HeaderResults = Some \<lparr>Headers = Map.empty, MissingHeaders = [], WeakHeaders = [],
                             PresentHeaders = [], SecurityScore = 14\<rparr>,
      TLSResults = Some \<lparr>Protocol_tls = ''TLS 1.0'', CipherSuite_tls = [],
                          Certificate = zero_CertificateInfo, Vulnerabilities = [],
                          Score = 0, IsSecure = False\<rparr>,
      SQLiResults = Some [finding ''medium'', finding ''critical''],
      XSSResults = Some [finding ''high'', finding ''medium''],
      Errors = [], RiskLevel = []\<rparr>"

text \<open>
  The three cases of the loop of \<open>ScanHeaders\<close> for one definition, read off a response header
  map: the header is absent, present with a weak value, or present with a strong one.
\<close>

definition header_missing :: "(string \<rightharpoonup> string list) \<Rightarrow> SecurityHeaderDefinition \<Rightarrow> bool" where
  "header_missing hdr d \<longleftrightarrow> hdr (Name_def d) = None"

definition header_weak :: "(string \<rightharpoonup> string list) \<Rightarrow> SecurityHeaderDefinition \<Rightarrow> bool" where
  "header_weak hdr d \<longleftrightarrow>
     (case hdr (Name_def d) of None \<Rightarrow> False
      | Some v \<Rightarrow> isWeakHeader (Name_def d) (Join v ''; ''))"

definition header_strong :: "(string \<rightharpoonup> string list) \<Rightarrow> SecurityHeaderDefinition \<Rightarrow> bool" where
  "header_strong hdr d \<longleftrightarrow>
     (case hdr (Name_def d) of None \<Rightarrow> False
      | Some v \<Rightarrow> \<not> isWeakHeader (Name_def d) (Join v ''; ''))"

definition countPresentStrong :: "(string \<rightharpoonup> string list) \<Rightarrow> nat" where
  "countPresentStrong hdr = length (filter (header_strong hdr) securityHeaders)"

text \<open>Response headers: two strong ones, and a weak policy next to one strong header.\<close>

definition headers_two :: "string \<rightharpoonup> string list" where
  "headers_two =
     [''X-Frame-Options'' \<mapsto> [''SAMEORIGIN''], ''X-Content-Type-Options'' \<mapsto> [''nosniff'']]"

definition headers_weak_csp :: "string \<rightharpoonup> string list" where
  "headers_weak_csp =
     [''Content-Security-Policy'' \<mapsto> [''default-src *''], ''X-Frame-Options'' \<mapsto> [''DENY'']]"

text \<open>
  The header lines of a response that carries all seven headers with strong values (the values
  of the case \<open>All security headers present\<close> of the repository's \<open>TestScanHeaders\<close>),
  and the probe that receives this response: the client library files each line under the
  canonical form of its name.
\<close>

definition csp_self :: string where
  "csp_self = ''default-src 'self'' @ [CHR 0x27]"

definition all_seven_lines :: "(string \<times> string) list" where
  "all_seven_lines =
     [(''Strict-Transport-Security'', ''max-age=31536000; includeSubDomains''),
      (''Content-Security-Policy'', csp_self),
      (''X-Frame-Options'', ''DENY''),
      (''X-Content-Type-Options'', ''nosniff''),
      (''Referrer-Policy'', ''no-referrer''),
      (''Permissions-Policy'', ''geolocation=()''),
      (''X-XSS-Protection'', ''1; mode=block'')]"

definition all_seven_probe :: HeaderProbe where
  "all_seven_probe =
     \<lparr>head_request = Inr \<lparr>StatusCode = 200, Header = ReadMIMEHeader all_seven_lines, Body = []\<rparr>,
      get_request = Inr \<lparr>StatusCode = 200, Header = ReadMIMEHeader all_seven_lines, Body = []\<rparr>\<rparr>"

text \<open>In a canonical name no upper-case letter follows a character other than a hyphen.\<close>

fun canonical_shape :: "bool \<Rightarrow> string \<Rightarrow> bool" where
  "canonical_shape upper [] = True"
| "canonical_shape upper (c # s) =
     ((upper \<or> \<not> is_upper c) \<and> canonical_shape (c = CHR ''-'') s)"

text \<open>
  Two targets, and a server that answers every handshake with TLS 1.0, one suite and an expired
  certificate.
\<close>

definition https_target :: TargetInfo where
  "https_target =
     \<lparr>URL = ''https://example.com/?id=1'', Domain = ''example.com'', IP = ''93.184.216.34'',
      Protocol = ''https'', Port = 443\<rparr>"

definition http_target :: TargetInfo where
  "http_target =
     \<lparr>URL = ''http://example.com/?id=1'', Domain = ''example.com'', IP = ''93.184.216.34'',
      Protocol = ''http'', Port = 80\<rparr>"

definition expired_cert :: CertificateInfo where
  "expired_cert =
     \<lparr>Issuer = ''CN=Example CA'', Subject = ''CN=example.com'', ValidFrom = 0, ValidTo = 100,
      IsExpired = True, DaysToExpiry = - 10\<rparr>"

definition old_server :: "16 word \<Rightarrow> TLSServer" where
  "old_server suite =
     \<lparr>ServerHello = (\<lambda>config. Inr \<lparr>Version = VersionTLS10, CipherSuite = suite,
                                      PeerCertificates = [expired_cert]\<rparr>),
      CipherSuiteName = (\<lambda>s. ''0x'' @ hex4 s)\<rparr>"

text \<open>
  A payload is quiet when its request fails or its response yields no finding, so that the loop
  goes on to the next payload.
\<close>

definition quiet :: "('p \<Rightarrow> Response option) \<Rightarrow> ('p \<Rightarrow> Response \<Rightarrow> Vulnerability option) \<Rightarrow> 'p \<Rightarrow> bool" where
  "quiet get check p \<longleftrightarrow> (case get p of None \<Rightarrow> True | Some resp \<Rightarrow> check p resp = None)"

definition sqli_quiet :: "WebServer \<Rightarrow> Response \<Rightarrow> string \<Rightarrow> payloadInfo \<Rightarrow> bool" where
  "sqli_quiet srv baselineResp paramName =
     quiet (\<lambda>p. get_param srv paramName (payload p))
       (sqli_check (StatusCode baselineResp) (int (length (Body baselineResp))) paramName)"

definition xss_quiet :: "WebServer \<Rightarrow> string \<Rightarrow> xssPayloadInfo \<Rightarrow> bool" where
  "xss_quiet srv paramName =
     quiet (\<lambda>p. get_param srv paramName (payload p)) (xss_check paramName)"

text \<open>The parameters an analyzer tests for a parsed URL, and the test requests of one parameter.\<close>

definition sqli_params :: "ParsedURL \<Rightarrow> string list" where
  "sqli_params u = (if Query u = [] then sqli_fallback_params else Query u)"

definition xss_params :: "ParsedURL \<Rightarrow> string list" where
  "xss_params u = (if Query u = [] then xss_fallback_params else Query u)"

definition is_param_request :: "string \<Rightarrow> request \<Rightarrow> bool" where
  "is_param_request paramName r =
     (case r of GetParam q _ \<Rightarrow> q = paramName | _ \<Rightarrow> False)"

definition findings_for :: "string \<Rightarrow> Vulnerability list \<Rightarrow> Vulnerability list" where
  "findings_for paramName vs = filter (\<lambda>v. Location v = ''Parameter: '' @ paramName) vs"

text \<open>
  The behavioural change of the claim, on exact numbers: another status code, or a body length
  that differs from the baseline length by more than a tenth of the baseline length.
\<close>

definition behavior_changed :: "Response \<Rightarrow> Response \<Rightarrow> bool" where
  "behavior_changed baselineResp resp \<longleftrightarrow>
     StatusCode resp \<noteq> StatusCode baselineResp \<or>
     10 * \<bar>int (length (Body resp)) - int (length (Body baselineResp))\<bar>
       > int (length (Body baselineResp))"

text \<open>
  HTML entity encoding as a handler applies it (Go's \<open>html.EscapeString\<close>): the five
  characters \<open>&\<close>, \<open><\<close>, \<open>>\<close>, the double quote and the single quote become entities.
\<close>

definition escape_char :: "char \<Rightarrow> string" where
  "escape_char c =
     (if c = CHR ''&'' then ''&amp;''
      else if c = CHR ''<'' then ''&lt;''
      else if c = CHR ''>'' then ''&gt;''
      else if c = CHR 0x22 then ''&#34;''
      else if c = CHR 0x27 then ''&#39;''
      else [c])"

definition EscapeString :: "string \<Rightarrow> string" where
  "EscapeString s = concat (map escape_char s)"

text \<open>
  Three sites with the one query parameter \<open>q\<close>.  The first answers every request with a page
  that shows the value of \<open>q\<close> as it came, the second with a page that shows it entity-encoded,
  the third with a database error for every value of \<open>q\<close> that holds a single quote.
\<close>

definition page :: "string \<Rightarrow> Response" where
  "page b = \<lparr>StatusCode = 200, Header = Map.empty, Body = b\<rparr>"

definition reflecting_site :: WebServer where
  "reflecting_site =
     \<lparr>parsed_url = Inr \<lparr>Path = ''/'', Query = [''q'']\<rparr>,
      get_url = Inr (page ''Search results for: test''),
      get_param = (\<lambda>p v. Some (page (''Search results for: '' @ v))),
      get_path = (\<lambda>v. Some (page ''Not found'')),
      get_fragment = Some (page ''Search results for: test'')\<rparr>"

definition encoding_site :: WebServer where
  "encoding_site =
     \<lparr>parsed_url = Inr \<lparr>Path = ''/'', Query = [''q'']\<rparr>,
      get_url = Inr (page ''Search results for: test''),
      get_param = (\<lambda>p v. Some (page (''Search results for: '' @ EscapeString v))),
      get_path = (\<lambda>v. Some (page ''Not found'')),
      get_fragment = Some (page ''Search results for: test'')\<rparr>"

definition failing_site :: WebServer where
  "failing_site =
     \<lparr>parsed_url = Inr \<lparr>Path = ''/'', Query = [''q'']\<rparr>,
      get_url = Inr (page ''Search results for: test''),
      get_param = (\<lambda>p v. Some (page (if CHR 0x27 \<in> set v
                     then ''MySQL error: You have an error in your SQL syntax''
                     else ''Search results for: test''))),
      get_path = (\<lambda>v. Some (page ''Not found'')),
      get_fragment = Some (page ''Search results for: test'')\<rparr>"

text \<open>
  A body carries a database-error signature when its lower-case form contains one of the
  patterns.
\<close>

definition has_signature :: "string \<Rightarrow> bool" where
  "has_signature body \<longleftrightarrow> (\<exists>sig \<in> set sqlErrorPatterns. Contains (ToLower body) sig)"

text \<open>
  A site whose page for every test request is four times as long as its baseline page (10 and
  40 bytes), with the same status code and no database error.
\<close>

definition verbose_site :: WebServer where
  "verbose_site =
     \<lparr>parsed_url = Inr \<lparr>Path = ''/'', Query = [''q'']\<rparr>,
      get_url = Inr (page ''No results''),
      get_param = (\<lambda>p v. Some (page ''No results for this query, showing all..'')),
      get_path = (\<lambda>v. Some (page ''Not found'')),
      get_fragment = Some (page ''No results'')\<rparr>"

text \<open>
  Options that skip every category, options that run the header analyzer only, and options
  that run the port probe only, each with a timeout in nanoseconds.
\<close>

definition skip_all :: "int \<Rightarrow> ScanOptions" where
  "skip_all t =
     \<lparr>SkipNmap = True, SkipHeaders = True, SkipTLS = True, SkipSQLi = True, SkipXSS = True,
      Timeout = t\<rparr>"

definition only_headers :: "int \<Rightarrow> ScanOptions" where
  "only_headers t =
     \<lparr>SkipNmap = True, SkipHeaders = False, SkipTLS = True, SkipSQLi = True, SkipXSS = True,
      Timeout = t\<rparr>"

definition only_nmap :: "int \<Rightarrow> ScanOptions" where
  "only_nmap t =
     \<lparr>SkipNmap = False, SkipHeaders = True, SkipTLS = True, SkipSQLi = True, SkipXSS = True,
      Timeout = t\<rparr>"

text \<open>
  A target that refuses connections, on a host without the port-scanning binary; and the same
  target on a host where the binary is not found by the first look-up and is found by the
  second.
\<close>

definition refusing_host :: Analyzers where
  "refusing_host =
     \<lparr>IsNmapInstalled_count = False, IsNmapInstalled_launch = False,
      run_ScanHeaders = Inl ''failed to connect: connection refused'',
      run_ScanTLS = Inl ''TLS connection failed: connection refused'',
      run_ScanSQLi = Inl ''failed to get baseline response: connection refused'',
      run_ScanXSS = Inr [],
      run_ScanNmap = (\<lambda>t. Inl ''nmap is not installed or not in PATH'')\<rparr>"

definition late_nmap_host :: Analyzers where
  "late_nmap_host =
     \<lparr>IsNmapInstalled_count = False, IsNmapInstalled_launch = True,
      run_ScanHeaders = Inl ''failed to connect: connection refused'',
      run_ScanTLS = Inl ''TLS connection failed: connection refused'',
      run_ScanSQLi = Inl ''failed to get baseline response: connection refused'',
      run_ScanXSS = Inr [],
      run_ScanNmap = (\<lambda>t. Inr \<lparr>OpenPorts = [], Duration = 2\<rparr>)\<rparr>"

text \<open>
  Schedules.  No unit runs and the wait ends the \<open>select\<close>; no unit runs and the deadline
  ends it.  The deadline ends the \<open>select\<close> while the header unit is about to append its
  error: the unit reads the error list, the caller reads it and writes it with the timeout
  error, and the unit then writes what it read with its own error.  The port probe runs to
  its end before the wait ends the \<open>select\<close>.
\<close>

definition idle_done :: Schedule where
  "idle_done =
     \<lparr>events = [Select, SetEndTime, CountSQLi, CountXSS, CountTLS, CountHeaders, SetRiskLevel,
                ReportDone],
      deadline_first = False, now_start = 0, now_end = 1\<rparr>"

definition idle_deadline :: Schedule where
  "idle_deadline =
     \<lparr>events = [Select, LoadErrors, StoreErrors, SetEndTime, CountSQLi, CountXSS, CountTLS,
                CountHeaders, SetRiskLevel, ReportDone],
      deadline_first = True, now_start = 0, now_end = 0\<rparr>"

definition racing :: Schedule where
  "racing =
     \<lparr>events = [Select, Load HeadersUnit, LoadErrors, StoreErrors, Store HeadersUnit,
                SetEndTime, CountSQLi, CountXSS, CountTLS, CountHeaders, SetRiskLevel,
                ReportDone],
      deadline_first = True, now_start = 0, now_end = 100400\<rparr>"

definition probe_first :: Schedule where
  "probe_first =
     \<lparr>events = [Store NmapUnit, Count NmapUnit, Select, SetEndTime, CountSQLi, CountXSS,
                CountTLS, CountHeaders, SetRiskLevel, ReportDone],
      deadline_first = False, now_start = 0, now_end = 5\<rparr>"

text \<open>The result of an orchestration in which no unit was launched.\<close>

definition bare_result :: "TargetInfo \<Rightarrow> Schedule \<Rightarrow> ScanResult" where
  "bare_result target sched =
     \<lparr>Target = target, StartTime = now_start sched, EndTime = now_end sched,
      NmapResults = None, HeaderResults = None, TLSResults = None, SQLiResults = None,
      XSSResults = None,
      Errors = (if deadline_first sched then [''scan timeout exceeded''] else []),
      RiskLevel = ''LOW''\<rparr>"

section \<open>Risk classification is a precedence cascade\<close>

lemma foldl_count_critical:
  "criticalCount (foldl count_severity c xs) =
     criticalCount c + int (length (filter (\<lambda>v. Severity v = ''critical'') xs))"
  by (induction xs arbitrary: c) (simp_all add: count_severity_def)

lemma foldl_count_high:
  "highCount (foldl count_severity c xs) =
     highCount c + int (length (filter (\<lambda>v. Severity v = ''high'') xs))"
  by (induction xs arbitrary: c) (simp_all add: count_severity_def)

lemma foldl_count_medium:
  "mediumCount (foldl count_severity c xs) =
     mediumCount c + int (length (filter (\<lambda>v. Severity v = ''medium'') xs))"
  by (induction xs arbitrary: c) (simp_all add: count_severity_def)

lemma filter_pos_iff: "0 < int (length (filter P xs)) \<longleftrightarrow> (\<exists>x \<in> set xs. P x)"
  by (induction xs) auto

lemma critical_pos:
  "0 < criticalCount (foldl count_severity \<lparr>criticalCount = 0, highCount = 0, mediumCount = 0\<rparr> xs)
     \<longleftrightarrow> (\<exists>v \<in> set xs. Severity v = ''critical'')"
  by (simp only: foldl_count_critical filter_pos_iff Counts.simps add_0)

lemma high_pos:
  "0 < highCount (foldl count_severity \<lparr>criticalCount = 0, highCount = 0, mediumCount = 0\<rparr> xs)
     \<longleftrightarrow> (\<exists>v \<in> set xs. Severity v = ''high'')"
  by (simp only: foldl_count_high filter_pos_iff Counts.simps add_0)

lemma medium_pos:
  "0 < mediumCount (foldl count_severity \<lparr>criticalCount = 0, highCount = 0, mediumCount = 0\<rparr> xs)
     \<longleftrightarrow> (\<exists>v \<in> set xs. Severity v = ''medium'')"
  by (simp only: foldl_count_medium filter_pos_iff Counts.simps add_0)

lemma counts_nonneg:
  "0 \<le> highCount (foldl count_severity \<lparr>criticalCount = 0, highCount = 0, mediumCount = 0\<rparr> xs)"
  "0 \<le> mediumCount (foldl count_severity \<lparr>criticalCount = 0, highCount = 0, mediumCount = 0\<rparr> xs)"
  by (simp_all add: foldl_count_high foldl_count_medium)

text \<open>
  Claim C1.  For every scan result the risk level is decided by precedence: \<open>CRITICAL\<close> when
  some SQLi or XSS finding is critical; otherwise \<open>HIGH\<close> when some finding is high or a TLS
  result is present and not secure; otherwise \<open>MEDIUM\<close> when some finding is medium or a header
  result is present with a score below 50; otherwise \<open>LOW\<close>.  Only the existence of a finding
  of a level matters, never how many findings of lower levels there are.
\<close>

theorem risk_level_cascade:
  "CalculateRiskLevel r =
     (if has_severity ''critical'' r then ''CRITICAL''
      else if has_severity ''high'' r
              \<or> (case TLSResults r of Some t \<Rightarrow> \<not> IsSecure t | None \<Rightarrow> False)
           then ''HIGH''
      else if has_severity ''medium'' r
              \<or> (case HeaderResults r of Some h \<Rightarrow> SecurityScore h < 50 | None \<Rightarrow> False)
           then ''MEDIUM''
      else ''LOW'')"
proof -
  let ?V = "elems (SQLiResults r) @ elems (XSSResults r)"
  let ?c0 = "\<lparr>criticalCount = 0, highCount = 0, mediumCount = 0\<rparr>"
  have fold2: "foldl count_severity (foldl count_severity ?c0 (elems (SQLiResults r)))
                 (elems (XSSResults r)) = foldl count_severity ?c0 ?V"
    by simp
  show ?thesis
    unfolding CalculateRiskLevel_def Let_def fold2 has_severity_def
    using critical_pos[of ?V] high_pos[of ?V] medium_pos[of ?V] counts_nonneg[of ?V]
    by (cases "TLSResults r"; cases "HeaderResults r") (simp_all del: set_append foldl_append)
qed

text \<open>
  The cascade at a result that mixes all levels: the single critical finding decides, whatever
  else was found.
\<close>

theorem risk_level_cascade_witness:
  "has_severity ''critical'' mixed_result \<and> has_severity ''high'' mixed_result \<and>
   has_severity ''medium'' mixed_result \<and> CalculateRiskLevel mixed_result = ''CRITICAL''"
proof -
  have c: "has_severity ''critical'' mixed_result"
    and h: "has_severity ''high'' mixed_result"
    and m: "has_severity ''medium'' mixed_result"
    by (simp_all add: has_severity_def mixed_result_def elems_def finding_def)
  from risk_level_cascade [of mixed_result] c have "CalculateRiskLevel mixed_result = ''CRITICAL''"
    by simp
  with c h m show ?thesis by simp
qed

section \<open>Header analyzer: partition and score\<close>

lemma header_cases:
  "(header_missing hdr d \<and> \<not> header_weak hdr d \<and> \<not> header_strong hdr d) \<or>
   (\<not> header_missing hdr d \<and> header_weak hdr d \<and> \<not> header_strong hdr d) \<or>
   (\<not> header_missing hdr d \<and> \<not> header_weak hdr d \<and> header_strong hdr d)"
  by (simp add: header_missing_def header_weak_def header_strong_def split: option.splits)

lemma analyze_header_fold:
  "map Name (MissingHeaders (foldl (analyze_header hdr) s ds)) =
     map Name (MissingHeaders s) @ map Name_def (filter (header_missing hdr) ds)"
  "map Name (WeakHeaders (foldl (analyze_header hdr) s ds)) =
     map Name (WeakHeaders s) @ map Name_def (filter (header_weak hdr) ds)"
  "map Name (PresentHeaders (foldl (analyze_header hdr) s ds)) =
     map Name (PresentHeaders s) @ map Name_def (filter (header_strong hdr) ds)"
  "SecurityScore (foldl (analyze_header hdr) s ds) =
     SecurityScore s + 15 * int (length (filter (header_strong hdr) ds))"
  by (induction ds arbitrary: s;
      simp add: analyze_header_def header_missing_def header_weak_def header_strong_def Let_def
           split: option.splits)+

lemma analyze_header_status:
  "list_all (\<lambda>h. Status h = ''missing'') (MissingHeaders s) \<Longrightarrow>
   list_all (\<lambda>h. Status h = ''missing'') (MissingHeaders (foldl (analyze_header hdr) s ds))"
  "list_all (\<lambda>h. Status h = ''weak'') (WeakHeaders s) \<Longrightarrow>
   list_all (\<lambda>h. Status h = ''weak'') (WeakHeaders (foldl (analyze_header hdr) s ds))"
  "list_all (\<lambda>h. Status h = ''present'') (PresentHeaders s) \<Longrightarrow>
   list_all (\<lambda>h. Status h = ''present'') (PresentHeaders (foldl (analyze_header hdr) s ds))"
  by (induction ds arbitrary: s;
      simp add: analyze_header_def Let_def split: option.splits)+

lemma partition3_mset:
  "mset (map f (filter (header_missing hdr) ds)) + mset (map f (filter (header_weak hdr) ds)) +
   mset (map f (filter (header_strong hdr) ds)) = mset (map f ds)"
proof (induction ds)
  case Nil
  show ?case by simp
next
  case (Cons d ds)
  with header_cases [of hdr d] show ?case by auto
qed

lemma securityHeaders_names:
  "map Name_def securityHeaders =
     [''Strict-Transport-Security'', ''Content-Security-Policy'', ''X-Frame-Options'',
      ''X-Content-Type-Options'', ''Referrer-Policy'', ''Permissions-Policy'',
      ''X-XSS-Protection'']"
  by (simp add: securityHeaders_def)

lemma securityHeaders_distinct: "distinct (map Name_def securityHeaders)"
  unfolding securityHeaders_names by simp

lemma securityHeaders_length: "length securityHeaders = 7"
  by (simp add: securityHeaders_def)

lemma analyze_response_lists:
  "map Name (MissingHeaders (analyze_response hdr)) =
     map Name_def (filter (header_missing hdr) securityHeaders)"
  "map Name (WeakHeaders (analyze_response hdr)) =
     map Name_def (filter (header_weak hdr) securityHeaders)"
  "map Name (PresentHeaders (analyze_response hdr)) =
     map Name_def (filter (header_strong hdr) securityHeaders)"
  by (simp_all add: analyze_response_def Let_def analyze_header_fold)

lemma countPresentStrong_le: "countPresentStrong hdr \<le> 7"
  unfolding countPresentStrong_def
  using length_filter_le [of "header_strong hdr" securityHeaders]
  by (simp add: securityHeaders_length)

lemma analyze_response_score:
  "SecurityScore (analyze_response hdr) = (100 * int (countPresentStrong hdr)) div 7"
proof -
  let ?k = "int (countPresentStrong hdr)"
  have k: "?k \<le> 7" using countPresentStrong_le [of hdr] by simp
  have "(15 * ?k * 100) div 105 = (100 * ?k) div 7"
  proof -
    have "15 * ?k * 100 = (100 * ?k) * 15" by simp
    moreover have "(105::int) = 7 * 15" by simp
    ultimately show ?thesis by (metis div_mult_mult2 zero_neq_numeral)
  qed
  with k show ?thesis
    by (simp add: analyze_response_def Let_def analyze_header_fold securityHeaders_length
          countPresentStrong_def)
qed

lemma count_list_distinct: "distinct xs \<Longrightarrow> x \<in> set xs \<Longrightarrow> count_list xs x = 1"
  by (induction xs) auto

lemma analyze_response_count:
  "length (PresentHeaders (analyze_response hdr)) = countPresentStrong hdr"
  using analyze_response_lists(3) [of hdr, THEN arg_cong, of length]
  by (simp add: countPresentStrong_def)

text \<open>
  Claim C3.  For every response header map, the missing, weak and present lists of the header
  analyzer partition the seven definitions: the names in the three lists together are the seven
  defined names, each exactly once (so none is omitted and none is duplicated, within a list or
  across lists), the three lengths sum to seven, and a definition is filed under missing when
  the header is absent, under weak when its value is weak, under present otherwise.
\<close>

theorem headers_partition:
  "mset (map Name (MissingHeaders (analyze_response hdr) @ WeakHeaders (analyze_response hdr) @
                   PresentHeaders (analyze_response hdr)))
     = mset (map Name_def securityHeaders) \<and>
   distinct (map Name (MissingHeaders (analyze_response hdr) @ WeakHeaders (analyze_response hdr) @
                       PresentHeaders (analyze_response hdr))) \<and>
   (\<forall>d \<in> set securityHeaders.
      count_list (map Name (MissingHeaders (analyze_response hdr) @
                            WeakHeaders (analyze_response hdr) @
                            PresentHeaders (analyze_response hdr))) (Name_def d) = 1) \<and>
   length (MissingHeaders (analyze_response hdr)) + length (WeakHeaders (analyze_response hdr)) +
     length (PresentHeaders (analyze_response hdr)) = 7 \<and>
   length securityHeaders = 7 \<and>
   map Name (MissingHeaders (analyze_response hdr)) =
     map Name_def (filter (header_missing hdr) securityHeaders) \<and>
   map Name (WeakHeaders (analyze_response hdr)) =
     map Name_def (filter (header_weak hdr) securityHeaders) \<and>
   map Name (PresentHeaders (analyze_response hdr)) =
     map Name_def (filter (header_strong hdr) securityHeaders)"
proof -
  let ?s = "analyze_response hdr"
  let ?all = "map Name (MissingHeaders ?s @ WeakHeaders ?s @ PresentHeaders ?s)"
  have m: "mset ?all = mset (map Name_def securityHeaders)"
    using partition3_mset [of Name_def hdr securityHeaders]
    by (simp add: analyze_response_lists add.assoc)
  then have d: "distinct ?all"
    using securityHeaders_distinct mset_eq_imp_distinct_iff by blast
  have c: "\<forall>d \<in> set securityHeaders. count_list ?all (Name_def d) = 1"
  proof
    fix x assume "x \<in> set securityHeaders"
    then have "Name_def x \<in> set (map Name_def securityHeaders)" by simp
    then have "Name_def x \<in> set ?all" using m by (metis set_mset_mset)
    with d show "count_list ?all (Name_def x) = 1" by (rule count_list_distinct)
  qed
  from m have "size (mset ?all) = size (mset (map Name_def securityHeaders))" by simp
  then have l: "length (MissingHeaders ?s) + length (WeakHeaders ?s) + length (PresentHeaders ?s) = 7"
    by (simp add: securityHeaders_length)
  from m d c l show ?thesis
    by (simp only: securityHeaders_length analyze_response_lists simp_thms)
qed

lemma headers_weak_csp_lookup:
  "headers_weak_csp ''Strict-Transport-Security'' = None"
  "headers_weak_csp ''Content-Security-Policy'' = Some [''default-src *'']"
  "headers_weak_csp ''X-Frame-Options'' = Some [''DENY'']"
  "headers_weak_csp ''X-Content-Type-Options'' = None"
  "headers_weak_csp ''Referrer-Policy'' = None"
  "headers_weak_csp ''Permissions-Policy'' = None"
  "headers_weak_csp ''X-XSS-Protection'' = None"
  by (simp_all add: headers_weak_csp_def)

lemma weak_csp_value: "isWeakHeader ''Content-Security-Policy'' ''default-src *''"
proof -
  have "ToLower ''default-src *'' = ''default-src *''"
    by (simp add: ToLower_def lower_char_def)
  then show ?thesis by (simp add: isWeakHeader_def)
qed

lemma strong_frame_value: "\<not> isWeakHeader ''X-Frame-Options'' ''DENY''"
proof -
  have "ToLower ''DENY'' = ''deny''" by code_simp
  then show ?thesis by (simp add: isWeakHeader_def)
qed

text \<open>
  The partition at a response with a weak policy and one strong header: five names are missing,
  one is weak, one is present, and the policy is counted once.
\<close>

theorem headers_partition_witness:
  "map Name (MissingHeaders (analyze_response headers_weak_csp)) =
     [''Strict-Transport-Security'', ''X-Content-Type-Options'', ''Referrer-Policy'',
      ''Permissions-Policy'', ''X-XSS-Protection''] \<and>
   map Name (WeakHeaders (analyze_response headers_weak_csp)) = [''Content-Security-Policy''] \<and>
   map Name (PresentHeaders (analyze_response headers_weak_csp)) = [''X-Frame-Options''] \<and>
   securityHeaders ! 1 \<in> set securityHeaders \<and>
   count_list (map Name (MissingHeaders (analyze_response headers_weak_csp) @
                         WeakHeaders (analyze_response headers_weak_csp) @
                         PresentHeaders (analyze_response headers_weak_csp)))
     ''Content-Security-Policy'' = 1"
proof -
  note p = headers_partition [of headers_weak_csp]
  have mem: "securityHeaders ! 1 \<in> set securityHeaders"
    and nm: "Name_def (securityHeaders ! 1) = ''Content-Security-Policy''"
    by (simp_all add: securityHeaders_def)
  have f: "filter (header_missing headers_weak_csp) securityHeaders =
             [securityHeaders ! 0, securityHeaders ! 3, securityHeaders ! 4, securityHeaders ! 5,
              securityHeaders ! 6]"
          "filter (header_weak headers_weak_csp) securityHeaders = [securityHeaders ! 1]"
          "filter (header_strong headers_weak_csp) securityHeaders = [securityHeaders ! 2]"
    by (simp_all add: securityHeaders_def header_missing_def header_weak_def header_strong_def
          headers_weak_csp_lookup weak_csp_value strong_frame_value)
  have names: "map Name_def [securityHeaders ! 0, securityHeaders ! 3, securityHeaders ! 4,
                 securityHeaders ! 5, securityHeaders ! 6] =
               [''Strict-Transport-Security'', ''X-Content-Type-Options'', ''Referrer-Policy'',
                ''Permissions-Policy'', ''X-XSS-Protection'']"
              "map Name_def [securityHeaders ! 1] = [''Content-Security-Policy'']"
              "map Name_def [securityHeaders ! 2] = [''X-Frame-Options'']"
    by (simp_all add: securityHeaders_def)
  from p mem nm have "count_list (map Name (MissingHeaders (analyze_response headers_weak_csp) @
                         WeakHeaders (analyze_response headers_weak_csp) @
                         PresentHeaders (analyze_response headers_weak_csp)))
     ''Content-Security-Policy'' = 1"
    by metis
  with p mem show ?thesis unfolding f names by simp
qed

text \<open>
  The score as a function of the header map: \<open>100 * k / 7\<close> in Go's integer division, that
  is rounded down, where \<open>k\<close> counts the defined headers that are present and not weak (the
  length of the present list; a weak header adds nothing).  The score is monotonic in \<open>k\<close>;
  it is 100 for \<open>k = 7\<close>, 0 for \<open>k = 0\<close> and 28 for \<open>k = 2\<close>.
\<close>

lemma header_score_formula:
  "SecurityScore (analyze_response hdr) = (100 * int (countPresentStrong hdr)) div 7 \<and>
   SecurityScore (analyze_response hdr) = \<lfloor>100 * real (countPresentStrong hdr) / 7\<rfloor> \<and>
   countPresentStrong hdr = length (PresentHeaders (analyze_response hdr)) \<and>
   (countPresentStrong hdr \<le> countPresentStrong hdr' \<longrightarrow>
      SecurityScore (analyze_response hdr) \<le> SecurityScore (analyze_response hdr')) \<and>
   (countPresentStrong hdr = 7 \<longrightarrow> SecurityScore (analyze_response hdr) = 100) \<and>
   (countPresentStrong hdr = 0 \<longrightarrow> SecurityScore (analyze_response hdr) = 0) \<and>
   (countPresentStrong hdr = 2 \<longrightarrow> SecurityScore (analyze_response hdr) = 28)"
proof -
  have mono: "countPresentStrong hdr \<le> countPresentStrong hdr' \<longrightarrow>
      SecurityScore (analyze_response hdr) \<le> SecurityScore (analyze_response hdr')"
  proof
    assume "countPresentStrong hdr \<le> countPresentStrong hdr'"
    then have "100 * int (countPresentStrong hdr) \<le> 100 * int (countPresentStrong hdr')"
      by simp
    then show "SecurityScore (analyze_response hdr) \<le> SecurityScore (analyze_response hdr')"
      unfolding analyze_response_score by (rule zdiv_mono1) simp
  qed
  have "\<lfloor>real_of_int (100 * int (countPresentStrong hdr)) / real_of_int 7\<rfloor> =
          (100 * int (countPresentStrong hdr)) div 7"
    by (rule floor_divide_of_int_eq)
  then have fl: "\<lfloor>100 * real (countPresentStrong hdr) / 7\<rfloor> =
          (100 * int (countPresentStrong hdr)) div 7"
    by simp
  show ?thesis
    using mono fl by (simp add: analyze_response_score analyze_response_count)
qed

lemma headers_two_lookup:
  "headers_two ''Strict-Transport-Security'' = None"
  "headers_two ''Content-Security-Policy'' = None"
  "headers_two ''X-Frame-Options'' = Some [''SAMEORIGIN'']"
  "headers_two ''X-Content-Type-Options'' = Some [''nosniff'']"
  "headers_two ''Referrer-Policy'' = None"
  "headers_two ''Permissions-Policy'' = None"
  "headers_two ''X-XSS-Protection'' = None"
  by (simp_all add: headers_two_def)

lemma strong_sameorigin_value: "\<not> isWeakHeader ''X-Frame-Options'' ''SAMEORIGIN''"
proof -
  have "ToLower ''SAMEORIGIN'' = ''sameorigin''" by code_simp
  then show ?thesis by (simp add: isWeakHeader_def)
qed

lemma strong_hsts_value:
  "\<not> isWeakHeader ''Strict-Transport-Security'' ''max-age=31536000; includeSubDomains''"
proof -
  have l: "ToLower ''max-age=31536000; includeSubDomains'' = ''max-age=31536000; includesubdomains''"
    by code_simp
  have s: "Split ''max-age=31536000; includesubdomains'' CHR '';'' =
             [''max-age=31536000'', '' includesubdomains'']"
    by simp
  have t: "TrimSpace ''max-age=31536000'' = ''max-age=31536000''"
    by (simp add: TrimSpace_def isSpace_def)
  have n: "scan_max_age ''31536000'' = 31536000"
    by (simp add: scan_max_age_def isSpace_def is_digit_def nat_of_digits_def)
  have e: "extractMaxAge ''max-age=31536000; includesubdomains'' = 31536000"
    unfolding extractMaxAge_def s by (simp add: t n Let_def)
  have c: "Contains ''max-age=31536000; includesubdomains'' ''max-age=''"
    by simp
  show ?thesis by (simp add: isWeakHeader_def l c e del: Contains.simps)
qed

lemma strong_csp_value: "\<not> isWeakHeader ''Content-Security-Policy'' csp_self"
proof -
  have "ToLower csp_self = csp_self"
    by (simp add: ToLower_def lower_char_def csp_self_def)
  moreover have "\<not> Contains csp_self ''unsafe-inline''" "\<not> Contains csp_self ''unsafe-eval''"
    "\<not> Contains csp_self ''*''"
    by (simp_all add: csp_self_def)
  ultimately show ?thesis by (simp add: isWeakHeader_def)
qed

lemma strong_other_values:
  "\<not> isWeakHeader ''X-Content-Type-Options'' v"
  "\<not> isWeakHeader ''Referrer-Policy'' v"
  "\<not> isWeakHeader ''Permissions-Policy'' v"
  by (simp_all add: isWeakHeader_def)

lemma count_headers_two: "countPresentStrong headers_two = 2"
  by (simp add: countPresentStrong_def securityHeaders_def header_strong_def headers_two_lookup
        strong_sameorigin_value strong_other_values)

lemma count_headers_none: "countPresentStrong Map.empty = 0"
  by (simp add: countPresentStrong_def securityHeaders_def header_strong_def)

lemma count_headers_weak_csp: "countPresentStrong headers_weak_csp = 1"
  by (simp add: countPresentStrong_def securityHeaders_def header_strong_def
        headers_weak_csp_lookup weak_csp_value strong_frame_value)

text \<open>
  The score at three header maps: no header (0), a weak policy next to one strong header (14,
  the weak header adds nothing) and two strong headers (28).
\<close>

lemma header_score_examples:
  "countPresentStrong Map.empty = 0 \<and> SecurityScore (analyze_response Map.empty) = 0 \<and>
   countPresentStrong headers_weak_csp = 1 \<and>
   SecurityScore (analyze_response headers_weak_csp) = 14 \<and>
   countPresentStrong headers_two = 2 \<and> SecurityScore (analyze_response headers_two) = 28"
  by (simp add: analyze_response_score count_headers_two count_headers_none
        count_headers_weak_csp)

subsection \<open>Header names in canonical form\<close>

lemma lower_char_not_upper: "is_upper c \<Longrightarrow> \<not> is_upper (lower_char c)"
  by (simp add: is_upper_def lower_char_def Let_def)

lemma canonical_bytes_shape: "canonical_shape upper (canonical_bytes upper s)"
proof (induction s arbitrary: upper)
  case Nil
  show ?case by simp
next
  case (Cons c s)
  show ?case using Cons.IH by (simp add: Let_def lower_char_not_upper)
qed

lemma xss_name_shape: "\<not> canonical_shape True ''X-XSS-Protection''"
  by (simp add: is_upper_def)

lemma xss_name_valid: "list_all validHeaderFieldByte ''X-XSS-Protection''"
  by (simp add: validHeaderFieldByte_def is_upper_def is_lower_def)

lemma canonical_never_xss: "CanonicalMIMEHeaderKey k \<noteq> ''X-XSS-Protection''"
proof (cases "list_all validHeaderFieldByte k")
  case True
  then have "canonical_shape True (CanonicalMIMEHeaderKey k)"
    by (simp add: CanonicalMIMEHeaderKey_def canonical_bytes_shape)
  with xss_name_shape show ?thesis by metis
next
  case False
  then have "CanonicalMIMEHeaderKey k = k" by (simp add: CanonicalMIMEHeaderKey_def)
  with False xss_name_valid show ?thesis by metis
qed

lemma ReadMIMEHeader_dom:
  "dom (foldl add_header_line m0 lines) = dom m0 \<union> CanonicalMIMEHeaderKey ` fst ` set lines"
  by (induction lines arbitrary: m0) (auto simp: add_header_line_def Let_def)

lemma xss_protection_never_found: "ReadMIMEHeader lines ''X-XSS-Protection'' = None"
proof -
  have "''X-XSS-Protection'' \<notin> CanonicalMIMEHeaderKey ` fst ` set lines"
    using canonical_never_xss by (metis (no_types, lifting) imageE)
  then have "''X-XSS-Protection'' \<notin> dom (ReadMIMEHeader lines)"
    by (simp add: ReadMIMEHeader_def ReadMIMEHeader_dom)
  then show ?thesis by (simp add: domIff)
qed

lemma canonical_names:
  "CanonicalMIMEHeaderKey ''Strict-Transport-Security'' = ''Strict-Transport-Security''"
  "CanonicalMIMEHeaderKey ''Content-Security-Policy'' = ''Content-Security-Policy''"
  "CanonicalMIMEHeaderKey ''X-Frame-Options'' = ''X-Frame-Options''"
  "CanonicalMIMEHeaderKey ''X-Content-Type-Options'' = ''X-Content-Type-Options''"
  "CanonicalMIMEHeaderKey ''Referrer-Policy'' = ''Referrer-Policy''"
  "CanonicalMIMEHeaderKey ''Permissions-Policy'' = ''Permissions-Policy''"
  "CanonicalMIMEHeaderKey ''X-XSS-Protection'' = ''X-Xss-Protection''"
  by code_simp+

lemma received_lookup:
  "ReadMIMEHeader all_seven_lines ''Strict-Transport-Security'' =
     Some [''max-age=31536000; includeSubDomains'']"
  "ReadMIMEHeader all_seven_lines ''Content-Security-Policy'' = Some [csp_self]"
  "ReadMIMEHeader all_seven_lines ''X-Frame-Options'' = Some [''DENY'']"
  "ReadMIMEHeader all_seven_lines ''X-Content-Type-Options'' = Some [''nosniff'']"
  "ReadMIMEHeader all_seven_lines ''Referrer-Policy'' = Some [''no-referrer'']"
  "ReadMIMEHeader all_seven_lines ''Permissions-Policy'' = Some [''geolocation=()'']"
  "ReadMIMEHeader all_seven_lines ''X-Xss-Protection'' = Some [''1; mode=block'']"
  by (simp_all add: ReadMIMEHeader_def all_seven_lines_def add_header_line_def canonical_names)

text \<open>
  The analyzer indexes the header map with the name \<open>X-XSS-Protection\<close>, and the client
  library stores that header under \<open>X-Xss-Protection\<close>: whatever a response carries, the
  seventh definition is filed under missing, at most six headers are present and the score is
  at most 85.
\<close>

lemma received_never_full:
  "''X-XSS-Protection'' \<in> set (map Name (MissingHeaders (analyze_response (ReadMIMEHeader lines))))
   \<and> SecurityScore (analyze_response (ReadMIMEHeader lines)) \<le> 85"
proof -
  let ?h = "ReadMIMEHeader lines"
  have miss: "header_missing ?h (securityHeaders ! 6)"
    by (simp add: header_missing_def securityHeaders_def xss_protection_never_found)
  have mem: "securityHeaders ! 6 \<in> set securityHeaders" by (simp add: securityHeaders_def)
  have nm: "Name_def (securityHeaders ! 6) = ''X-XSS-Protection''"
    by (simp add: securityHeaders_def)
  from miss mem have "securityHeaders ! 6 \<in> set (filter (header_missing ?h) securityHeaders)"
    by simp
  then have a: "''X-XSS-Protection'' \<in> set (map Name (MissingHeaders (analyze_response ?h)))"
    unfolding analyze_response_lists using nm by (metis image_eqI set_map)
  have "length (filter (header_strong ?h) securityHeaders) +
          length (filter (\<lambda>d. \<not> header_strong ?h d) securityHeaders) = 7"
    using sum_length_filter_compl [of "header_strong ?h" securityHeaders]
    by (simp add: securityHeaders_length)
  moreover have "\<not> header_strong ?h (securityHeaders ! 6)"
    using miss header_cases [of ?h "securityHeaders ! 6"] by blast
  then have "securityHeaders ! 6 \<in> set (filter (\<lambda>d. \<not> header_strong ?h d) securityHeaders)"
    using mem by simp
  then have "length (filter (\<lambda>d. \<not> header_strong ?h d) securityHeaders) \<noteq> 0"
    by (metis empty_iff length_0_conv list.set(1))
  ultimately have "length (filter (header_strong ?h) securityHeaders) \<le> 6" by arith
  then have "countPresentStrong ?h \<le> 6" by (simp add: countPresentStrong_def)
  then have "100 * int (countPresentStrong ?h) \<le> 600" by simp
  then have "(100 * int (countPresentStrong ?h)) div 7 \<le> 600 div 7" by (rule zdiv_mono1) simp
  then have "SecurityScore (analyze_response ?h) \<le> 85" by (simp add: analyze_response_score)
  with a show ?thesis by simp
qed

text \<open>
  Claim C4 at a response that carries all seven headers with strong values.  The claim gives
  the score 100 for seven strong headers, and the repository's test expects 100 with no header
  missing.  The analyzer finds six of them, files \<open>X-XSS-Protection\<close> under missing and
  returns the score 85.
\<close>

theorem header_score_received:
  "ScanHeaders all_seven_probe = Inr (analyze_response (ReadMIMEHeader all_seven_lines)) \<and>
   map Name (MissingHeaders (analyze_response (ReadMIMEHeader all_seven_lines))) =
     [''X-XSS-Protection''] \<and>
   WeakHeaders (analyze_response (ReadMIMEHeader all_seven_lines)) = [] \<and>
   length (PresentHeaders (analyze_response (ReadMIMEHeader all_seven_lines))) = 6 \<and>
   SecurityScore (analyze_response (ReadMIMEHeader all_seven_lines)) = 85"
proof -
  let ?h = "ReadMIMEHeader all_seven_lines"
  have m: "filter (header_missing ?h) securityHeaders = [securityHeaders ! 6]"
    and w: "filter (header_weak ?h) securityHeaders = []"
    and c: "countPresentStrong ?h = 6"
    by (simp_all add: securityHeaders_def header_missing_def header_weak_def header_strong_def
          countPresentStrong_def received_lookup xss_protection_never_found strong_hsts_value
          strong_csp_value strong_frame_value strong_other_values)
  have n: "map Name_def [securityHeaders ! 6] = [''X-XSS-Protection'']"
    by (simp add: securityHeaders_def)
  have "map Name (WeakHeaders (analyze_response ?h)) = []"
    by (simp add: analyze_response_lists w)
  then have "WeakHeaders (analyze_response ?h) = []" by simp
  moreover have "map Name (MissingHeaders (analyze_response ?h)) = [''X-XSS-Protection'']"
    unfolding analyze_response_lists m n ..
  moreover have "length (PresentHeaders (analyze_response ?h)) = 6"
    by (simp add: analyze_response_count c)
  moreover have "SecurityScore (analyze_response ?h) = 85"
    by (simp add: analyze_response_score c)
  moreover have "ScanHeaders all_seven_probe = Inr (analyze_response ?h)"
    by (simp add: ScanHeaders_def all_seven_probe_def)
  ultimately show ?thesis by simp
qed

section \<open>TLS analyzer: versions the client accepts, score range, plain targets\<close>

lemma supportedVersions_default:
  "supportedVersions default_config = [VersionTLS13, VersionTLS12]"
  by (simp add: supportedVersions_def default_config_def VersionTLS10_def VersionTLS11_def
        VersionTLS12_def VersionTLS13_def)

lemma supportedVersions_ssl30: "supportedVersions (version_config VersionSSL30) = []"
  by (simp add: supportedVersions_def version_config_def VersionSSL30_def VersionTLS10_def
        VersionTLS11_def VersionTLS12_def VersionTLS13_def)

lemma supportedVersions_tls10:
  "supportedVersions (version_config VersionTLS10) = [VersionTLS10]"
  by (simp add: supportedVersions_def version_config_def VersionTLS10_def
        VersionTLS11_def VersionTLS12_def VersionTLS13_def)

text \<open>The default handshake completes at TLS 1.2 or TLS 1.3 only.\<close>

lemma dial_default_version:
  assumes "DialWithDialer srv default_config = Inr state"
  shows "Version state = VersionTLS13 \<or> Version state = VersionTLS12"
  using assms
  by (auto simp: DialWithDialer_def supportedVersions_default split: sum.splits if_splits)

lemma dial_default_not_old:
  assumes "DialWithDialer srv default_config = Inr state"
  shows "\<not> Version state < VersionTLS12"
  using dial_default_version [OF assms]
  by (auto simp: VersionTLS12_def VersionTLS13_def)

text \<open>The probe for SSL 3.0 fails at every server: the library has no such version.\<close>

lemma ssl30_probe_fails: "\<not> testProtocolSupport srv VersionSSL30"
  by (simp add: testProtocolSupport_def DialWithDialer_def supportedVersions_ssl30)

lemma probes_length: "length (testTLSVulnerabilities srv) \<le> 2"
  by (simp add: testTLSVulnerabilities_def ssl30_probe_fails)

lemma check_certificate_score:
  "Score scan - 50 \<le> Score (check_certificate state scan) \<and>
   Score (check_certificate state scan) \<le> Score scan"
  by (simp add: check_certificate_def Let_def split: list.splits)

lemma check_version_score:
  "Score scan - 30 \<le> Score (check_version state scan) \<and>
   Score (check_version state scan) \<le> Score scan"
  by (simp add: check_version_def)

lemma check_version_score_new:
  "\<not> Version state < VersionTLS12 \<Longrightarrow> Score scan - 5 \<le> Score (check_version state scan)"
  by (simp add: check_version_def)

lemma check_cipher_score:
  "Score scan - 20 \<le> Score (check_cipher state scan) \<and>
   Score (check_cipher state scan) \<le> Score scan"
  by (simp add: check_cipher_def)

lemma check_probes_score:
  "Score (check_probes vs scan) = Score scan - 10 * int (length vs)"
  by (simp add: check_probes_def Let_def)

lemma clamp_score_range:
  "Score scan \<le> 100 \<Longrightarrow> 0 \<le> Score (clamp_score scan) \<and> Score (clamp_score scan) \<le> 100"
  by (simp add: clamp_score_def)

lemma analyze_handshake_range:
  "0 \<le> Score (analyze_handshake srv state) \<and> Score (analyze_handshake srv state) \<le> 100"
proof -
  let ?s0 = "initial_scan srv state"
  let ?s1 = "check_certificate state ?s0"
  let ?s2 = "check_version state ?s1"
  let ?s3 = "check_cipher state ?s2"
  let ?s4 = "check_probes (testTLSVulnerabilities srv) ?s3"
  have "Score ?s1 \<le> 100"
    using check_certificate_score [of ?s0 state] by (simp add: initial_scan_def)
  then have "Score ?s2 \<le> 100" using check_version_score [of ?s1 state] by simp
  then have "Score ?s3 \<le> 100" using check_cipher_score [of ?s2 state] by simp
  then have "Score ?s4 \<le> 100" by (simp add: check_probes_score)
  then show ?thesis
    unfolding analyze_handshake_def Let_def by (rule clamp_score_range)
qed

text \<open>
  At TLS 1.2 or above the deductions are at most 50, 5, 20 and 10 for each of two probes, so
  the clamp at zero is never reached.
\<close>

lemma analyze_handshake_floor:
  assumes "\<not> Version state < VersionTLS12"
  shows "5 \<le> Score (analyze_handshake srv state)"
proof -
  let ?s0 = "initial_scan srv state"
  let ?s1 = "check_certificate state ?s0"
  let ?s2 = "check_version state ?s1"
  let ?s3 = "check_cipher state ?s2"
  let ?s4 = "check_probes (testTLSVulnerabilities srv) ?s3"
  have "50 \<le> Score ?s1"
    using check_certificate_score [of ?s0 state] by (simp add: initial_scan_def)
  then have "45 \<le> Score ?s2" using check_version_score_new [OF assms, of ?s1] by simp
  then have "25 \<le> Score ?s3" using check_cipher_score [of ?s2 state] by simp
  then have "5 \<le> Score ?s4" using probes_length [of srv] by (simp add: check_probes_score)
  then show ?thesis
    unfolding analyze_handshake_def Let_def by (simp add: clamp_score_def)
qed

text \<open>
  Every result of the TLS analyzer has a score between 0 and 100; a result for an \<open>https\<close>
  target has a score of 5 at least, and never reports a protocol version below TLS 1.2.
\<close>

lemma tls_score_range:
  assumes "snd (ScanTLS target srv) = Inr scan"
  shows "0 \<le> Score scan \<and> Score scan \<le> 100 \<and>
         (Protocol target = ''https'' \<longrightarrow>
            5 \<le> Score scan \<and> (Protocol_tls scan = ''TLS 1.2'' \<or> Protocol_tls scan = ''TLS 1.3''))"
proof (cases "Protocol target = ''https''")
  case False
  with assms show ?thesis by (auto simp: ScanTLS_def)
next
  case True
  with assms obtain state where d: "DialWithDialer srv default_config = Inr state"
    and s: "scan = analyze_handshake srv state"
    by (auto simp: ScanTLS_def split: sum.splits)
  from d have n: "\<not> Version state < VersionTLS12" by (rule dial_default_not_old)
  have p: "Protocol_tls (analyze_handshake srv state) = getTLSVersion (Version state)"
    by (simp add: analyze_handshake_def initial_scan_def Let_def check_certificate_def
          check_version_def check_cipher_def check_probes_def clamp_score_def
          split: list.splits)
  from dial_default_version [OF d]
  have "getTLSVersion (Version state) = ''TLS 1.2'' \<or> getTLSVersion (Version state) = ''TLS 1.3''"
    by (auto simp: getTLSVersion_def VersionSSL30_def VersionTLS10_def VersionTLS11_def
          VersionTLS12_def VersionTLS13_def)
  with p s analyze_handshake_range [of srv state] analyze_handshake_floor [OF n, of srv]
  show ?thesis by simp
qed

text \<open>
  What the analysis computes for a connection state with an expired certificate, a version
  below TLS 1.2 and a suite of the weak set: the deductions of 50, 30 and 20 that the claim
  describes.  No default handshake delivers such a state.
\<close>

lemma analyze_handshake_expired_old_weak:
  assumes "PeerCertificates state = cert # certs" and "IsExpired cert"
    and "Version state < VersionTLS12" and "isWeakCipher (CipherSuite state)"
  shows "Score (analyze_handshake srv state) = 0 \<and> \<not> IsSecure (analyze_handshake srv state)"
  using assms
  by (simp add: analyze_handshake_def initial_scan_def Let_def check_certificate_def
        check_version_def check_cipher_def check_probes_def clamp_score_def)

lemma cbc_suites_weak:
  "isWeakCipher TLS_RSA_WITH_AES_128_CBC_SHA" "isWeakCipher TLS_RSA_WITH_AES_256_CBC_SHA"
  "isWeakCipher TLS_RSA_WITH_3DES_EDE_CBC_SHA" "isWeakCipher TLS_ECDHE_RSA_WITH_3DES_EDE_CBC_SHA"
  by (simp_all add: isWeakCipher_def weakCiphers_def)



text \<open>
  Claim C9.  For a target whose scheme is not \<open>https\<close> the TLS analyzer attempts no
  handshake and returns, without an error, a result that is not secure and has score 0.
\<close>

theorem tls_plain_target:
  "Protocol target \<noteq> ''https'' \<Longrightarrow>
     fst (ScanTLS target srv) = [] \<and>
     (\<exists>scan. snd (ScanTLS target srv) = Inr scan \<and> \<not> IsSecure scan \<and> Score scan = 0 \<and>
        Vulnerabilities scan = [''Target is not using HTTPS''])"
  by (simp add: ScanTLS_def)

theorem tls_plain_target_witness:
  "Protocol http_target \<noteq> ''https'' \<and> fst (ScanTLS http_target (old_server 0)) = [] \<and>
   (\<exists>scan. snd (ScanTLS http_target (old_server 0)) = Inr scan \<and> \<not> IsSecure scan \<and>
      Score scan = 0)"
proof -
  have h: "Protocol http_target \<noteq> ''https''" by (simp add: http_target_def)
  from tls_plain_target [OF h, of "old_server 0"] h show ?thesis by blast
qed

section \<open>Strings: substrings and lower case\<close>

lemma HasPrefix_iff: "HasPrefix s p \<longleftrightarrow> (\<exists>q. s = p @ q)"
  by (induction s p rule: HasPrefix.induct) simp_all

lemma Contains_intro: "Contains (p @ sub @ q) sub"
proof (induction p)
  case Nil
  have "HasPrefix (sub @ q) sub" unfolding HasPrefix_iff by (rule exI [of _ q]) simp
  then show ?case by (cases "sub @ q") simp_all
next
  case (Cons a p)
  then show ?case by simp
qed

lemma Contains_elim: "Contains s sub \<Longrightarrow> \<exists>p q. s = p @ sub @ q"
proof (induction s)
  case Nil
  then show ?case by simp
next
  case (Cons c s)
  from Cons.prems consider "HasPrefix (c # s) sub" | "Contains s sub" by auto
  then show ?case
  proof cases
    case 1
    then obtain q where "c # s = sub @ q" unfolding HasPrefix_iff ..
    then have "c # s = [] @ sub @ q" by simp
    then show ?thesis by (intro exI)
  next
    case 2
    then have "\<exists>p q. s = p @ sub @ q" by (rule Cons.IH)
    then obtain p q where "s = p @ sub @ q" by (elim exE)
    then have "c # s = (c # p) @ sub @ q" by simp
    then show ?thesis by (intro exI)
  qed
qed

lemma Contains_trans:
  assumes "Contains s t" and "Contains t u"
  shows "Contains s u"
proof -
  from assms(1) have "\<exists>p q. s = p @ t @ q" by (rule Contains_elim)
  then obtain p q where s: "s = p @ t @ q" by (elim exE)
  from assms(2) have "\<exists>p q. t = p @ u @ q" by (rule Contains_elim)
  then obtain p' q' where t: "t = p' @ u @ q'" by (elim exE)
  from s t have "s = (p @ p') @ u @ (q' @ q)" by simp
  then show ?thesis using Contains_intro [of "p @ p'" u "q' @ q"] by simp
qed

lemma Contains_mono: "Contains t u \<Longrightarrow> Contains (p @ t @ q) u"
  using Contains_trans [OF Contains_intro] .

lemma ToLower_append: "ToLower (a @ b) = ToLower a @ ToLower b"
  by (simp add: ToLower_def)

section \<open>The loop over the payloads of one parameter\<close>

lemma test_payloads_first:
  "\<forall>q \<in> set pre. quiet get check q \<Longrightarrow> get p = Some resp \<Longrightarrow> check p resp = Some v \<Longrightarrow>
     test_payloads get check (pre @ p # post) = (pre @ [p], Some v)"
  by (induction pre) (auto simp: quiet_def split: option.splits)

lemma test_payloads_none:
  "\<forall>q \<in> set ps. quiet get check q \<Longrightarrow> test_payloads get check ps = (ps, None)"
  by (induction ps) (auto simp: quiet_def split: option.splits)

lemma test_payloads_found:
  "snd (test_payloads get check ps) = Some v \<Longrightarrow>
     \<exists>p \<in> set ps. \<exists>resp. get p = Some resp \<and> check p resp = Some v"
  by (induction ps) (auto split: option.splits prod.splits)

lemma test_payloads_sent_prefix:
  "\<exists>rest. ps = fst (test_payloads get check ps) @ rest"
  by (induction ps) (auto split: option.splits prod.splits)

section \<open>SQL injection analyzer\<close>

lemma patterns_nonempty: "[] \<notin> set sqlErrorPatterns"
  by (simp add: sqlErrorPatterns_def)

lemma find_SomeD: "find P xs = Some x \<Longrightarrow> x \<in> set xs \<and> P x"
  by (induction xs) (simp_all split: if_splits)

lemma find_NoneD: "find P xs = None \<Longrightarrow> x \<in> set xs \<Longrightarrow> \<not> P x"
  by (induction xs) (auto split: if_splits)

lemma detectSQLError_iff:
  "detectSQLError body \<noteq> [] \<longleftrightarrow> (\<exists>sig \<in> set sqlErrorPatterns. Contains body sig)"
proof (cases "find (Contains body) sqlErrorPatterns")
  case None
  have "\<not> (\<exists>sig \<in> set sqlErrorPatterns. Contains body sig)"
    using find_NoneD [OF None] by blast
  moreover from None have "detectSQLError body = []" by (simp add: detectSQLError_def)
  ultimately show ?thesis by simp
next
  case (Some p)
  from find_SomeD [OF Some] have p: "p \<in> set sqlErrorPatterns" "Contains body p" by simp_all
  from p(1) patterns_nonempty have "p \<noteq> []" by metis
  moreover from Some have "detectSQLError body = p" by (simp add: detectSQLError_def)
  ultimately have "detectSQLError body \<noteq> []" by simp
  moreover from p have "\<exists>sig \<in> set sqlErrorPatterns. Contains body sig" by (rule bexI [rotated])
  ultimately show ?thesis by simp
qed

lemma detectSQLError_signature: "detectSQLError (ToLower body) \<noteq> [] \<longleftrightarrow> has_signature body"
  by (simp add: detectSQLError_iff has_signature_def)

lemma syntax_phrase_signature:
  assumes "Contains (ToLower body) ''you have an error in your sql syntax''"
  shows "has_signature body"
proof -
  have "Contains ''you have an error in your sql syntax'' ''sql syntax''" by simp
  with assms have c: "Contains (ToLower body) ''sql syntax''" by (rule Contains_trans)
  have m: "''sql syntax'' \<in> set sqlErrorPatterns" by (simp add: sqlErrorPatterns_def)
  from m c show ?thesis unfolding has_signature_def by (rule bexI [rotated])
qed

text \<open>
  Rounding to 53 bits: integers below \<open>2^53\<close> are exact, the constant \<open>0.1\<close> is
  \<open>7205759403792794 / 2^56\<close>, and the rounded quotient of two integers below \<open>2^52\<close> lies on
  the same side of that constant as the exact quotient lies of one tenth.
\<close>

lemma round_to_even_int [simp]: "round_to_even (of_int n) = n"
  by (simp add: round_to_even_def)

lemma round_to_even_bounds:
  "x - 1 / 2 \<le> of_int (round_to_even x) \<and> of_int (round_to_even x) \<le> x + 1 / 2"
  unfolding round_to_even_def Let_def by (simp; linarith)

lemma round_to_even_gt:
  assumes "even n"
  shows "n < round_to_even x \<longleftrightarrow> of_int n + 1 / 2 < x"
proof
  assume a: "n < round_to_even x"
  then have "n + 1 \<le> round_to_even x" by simp
  then have "(of_int (n + 1) :: real) \<le> of_int (round_to_even x)" by (simp only: of_int_le_iff)
  then have "of_int n + 1 \<le> (of_int (round_to_even x) :: real)" by simp
  with round_to_even_bounds [of x] have ge: "of_int n + 1 / 2 \<le> x" by linarith
  show "of_int n + 1 / 2 < x"
  proof (rule ccontr)
    assume "\<not> of_int n + 1 / 2 < x"
    with ge have e: "x = of_int n + 1 / 2" by simp
    then have "\<lfloor>x\<rfloor> = n" by linarith
    with e assms have "round_to_even x = n" by (simp add: round_to_even_def)
    with a show False by simp
  qed
next
  assume a: "of_int n + 1 / 2 < x"
  then have fl: "n \<le> \<lfloor>x\<rfloor>" by linarith
  show "n < round_to_even x"
  proof (cases "\<lfloor>x\<rfloor> = n")
    case True
    with a have "1 / 2 < x - of_int \<lfloor>x\<rfloor>" by simp
    with True show ?thesis by (simp add: round_to_even_def Let_def)
  next
    case False
    with fl have "n < \<lfloor>x\<rfloor>" by simp
    moreover have "\<lfloor>x\<rfloor> \<le> round_to_even x"
      by (simp add: round_to_even_def Let_def)
    ultimately show ?thesis by simp
  qed
qed

lemma round53_normal:
  "2 ^ 52 \<le> x * 2 ^ k \<Longrightarrow> x * 2 ^ k < 2 ^ 53 \<Longrightarrow> k < n \<Longrightarrow>
     round53 n x = of_int (round_to_even (x * 2 ^ k)) / 2 ^ k"
proof (induction k arbitrary: x n)
  case 0
  then obtain n' where "n = Suc n'" by (cases n) auto
  with 0 show ?case by simp
next
  case (Suc k)
  then obtain n' where n: "n = Suc n'" by (cases n) auto
  have pos: "0 < x"
  proof (rule ccontr)
    assume "\<not> 0 < x"
    then have "x * 2 ^ Suc k \<le> 0" by (simp add: mult_le_0_iff)
    moreover have "(0::real) < 2 ^ 52" by simp
    ultimately show False using Suc.prems(1) by linarith
  qed
  have "(1::real) \<le> 2 ^ k" by simp
  with pos have "2 * x * 1 \<le> 2 * x * 2 ^ k" by (intro mult_left_mono) simp_all
  then have "2 * x \<le> x * 2 ^ Suc k" by (simp add: mult.assoc mult.left_commute)
  with Suc.prems(2) have "2 * x < 2 ^ 53" by linarith
  then have small: "x < 2 ^ 52" by simp
  have e: "2 * x * 2 ^ k = x * 2 ^ Suc k" by simp
  have "round53 n' (2 * x) = of_int (round_to_even (2 * x * 2 ^ k)) / 2 ^ k"
    using Suc.prems n unfolding e [symmetric] by (intro Suc.IH) simp_all
  with small n show ?case unfolding e by simp
qed

lemma round53_zero [simp]: "round53 n 0 = 0"
  by (induction n) simp_all

lemma normal_exists:
  "0 < (x::real) \<Longrightarrow> x < 2 ^ 53 \<Longrightarrow> 2 ^ 52 \<le> x * 2 ^ j \<Longrightarrow>
     \<exists>k \<le> j. 2 ^ 52 \<le> x * 2 ^ k \<and> x * 2 ^ k < 2 ^ 53"
proof (induction j arbitrary: x)
  case 0
  then show ?case by auto
next
  case (Suc j)
  show ?case
  proof (cases "2 ^ 52 \<le> x")
    case True
    with Suc.prems have "2 ^ 52 \<le> x * 2 ^ 0 \<and> x * 2 ^ 0 < 2 ^ 53" by simp
    then show ?thesis by blast
  next
    case False
    then have "2 * x < 2 ^ 53" by simp
    moreover from Suc.prems have "0 < 2 * x" by simp
    moreover from Suc.prems have "2 ^ 52 \<le> 2 * x * 2 ^ j" by (simp add: mult.assoc mult.left_commute)
    ultimately obtain k where "k \<le> j" "2 ^ 52 \<le> 2 * x * 2 ^ k" "2 * x * 2 ^ k < 2 ^ 53"
      using Suc.IH [of "2 * x"] by blast
    then have "Suc k \<le> Suc j \<and> 2 ^ 52 \<le> x * 2 ^ Suc k \<and> x * 2 ^ Suc k < 2 ^ 53"
      by (simp add: mult.assoc mult.left_commute)
    then show ?thesis by blast
  qed
qed

lemma float64_int:
  assumes "0 \<le> a" and "a < 2 ^ 53"
  shows "float64 (of_int a) = of_int a"
proof (cases "a = 0")
  case True
  then show ?thesis by (simp add: float64_def)
next
  case False
  with assms have pos: "(0::real) < of_int a" and one: "(1::real) \<le> of_int a" by simp_all
  from assms(2) have lt: "(of_int a :: real) < 2 ^ 53"
    by (metis of_int_less_iff of_int_numeral of_int_power)
  from one have "(2::real) ^ 52 \<le> of_int a * 2 ^ 52" by simp
  with pos lt obtain k where k: "k \<le> 52" "2 ^ 52 \<le> (of_int a :: real) * 2 ^ k"
      "(of_int a :: real) * 2 ^ k < 2 ^ 53"
    using normal_exists [of "of_int a" 52] by blast
  have "(of_int a :: real) * 2 ^ k = of_int (a * 2 ^ k)" by simp
  then have "round_to_even (of_int a * 2 ^ k) = a * 2 ^ k"
    by (simp only: round_to_even_int)
  with round53_normal [OF k(2) k(3), of 1100] k(1)
  have "round53 1100 (of_int a) = of_int a" by simp
  with pos show ?thesis by (simp add: float64_def)
qed

lemma float64_tenth: "float64 (1 / 10) = 7205759403792794 / 2 ^ 56"
proof -
  have a: "(2::real) ^ 52 \<le> 1 / 10 * 2 ^ 56" and b: "(1 / 10 :: real) * 2 ^ 56 < 2 ^ 53"
    by simp_all
  have "round_to_even (1 / 10 * 2 ^ 56) = 7205759403792794"
    by (simp add: round_to_even_def Let_def)
  with round53_normal [OF a b, of 1100] show ?thesis by (simp add: float64_def)
qed

lemma float64_neg: "float64 (- x) = - float64 x"
  by (cases "x = 0") (auto simp: float64_def)

lemma threshold_arith:
  fixes a b :: int
  assumes "0 < b" and "b < 2 ^ 52"
  shows "14411518807585589 * b < a * 2 ^ 57 \<longleftrightarrow> b < 10 * a"
proof
  assume "14411518807585589 * b < a * 2 ^ 57"
  then have "144115188075855890 * b < 10 * a * 2 ^ 57" by simp
  with assms(1) have "2 ^ 57 * b < 10 * a * (2 ^ 57 :: int)" by simp
  then show "b < 10 * a" by simp
next
  assume "b < 10 * a"
  then have "b + 1 \<le> 10 * a" by simp
  then have "(b + 1) * 2 ^ 57 \<le> 10 * a * (2 ^ 57 :: int)" by simp
  moreover from assms(2) have "18 * b < (2 ^ 57 :: int)" by simp
  ultimately have "144115188075855890 * b < 10 * a * (2 ^ 57 :: int)" by (simp add: algebra_simps)
  then show "14411518807585589 * b < a * 2 ^ 57" by simp
qed

lemma float64_quotient_gt:
  fixes a b :: int
  assumes "0 < a" and "a < 2 ^ 52" and "0 < b" and "b < 2 ^ 52"
  shows "float64 (1 / 10) < float64 (of_int a / of_int b) \<longleftrightarrow> b < 10 * a"
proof -
  let ?q = "real_of_int a / real_of_int b"
  from assms have ra: "(1::real) \<le> of_int a" and rb: "(1::real) \<le> of_int b" by simp_all
  from assms(2) have ra2: "real_of_int a < 2 ^ 52"
    by (metis of_int_less_iff of_int_numeral of_int_power)
  from assms(4) have rb2: "real_of_int b < 2 ^ 52"
    by (metis of_int_less_iff of_int_numeral of_int_power)
  have qpos: "0 < ?q" using ra rb by simp
  have "?q \<le> real_of_int a" using ra rb by (simp add: field_simps mult_le_cancel_left1)
  with ra2 have qlt: "?q < 2 ^ 53" by simp
  have "1 / real_of_int b \<le> ?q" using ra rb by (simp add: field_simps)
  moreover have "1 / 2 ^ 52 < 1 / real_of_int b" using rb rb2 by (simp add: field_simps)
  ultimately have "1 / 2 ^ 52 < ?q" by linarith
  then have "1 / 2 ^ 52 * 2 ^ 104 < ?q * 2 ^ 104" by (simp only: mult_less_cancel_right_pos zero_less_power zero_less_numeral)
  then have "2 ^ 52 \<le> ?q * 2 ^ 104" by simp
  with qpos qlt obtain k where k: "k \<le> 104" "2 ^ 52 \<le> ?q * 2 ^ k" "?q * 2 ^ k < 2 ^ 53"
    using normal_exists [of ?q 104] by blast
  define m where "m = round_to_even (?q * 2 ^ k)"
  have fq: "float64 ?q = of_int m / 2 ^ k"
    using round53_normal [OF k(2) k(3), of 1100] k(1) qpos by (simp add: float64_def m_def)
  from round_to_even_bounds [of "?q * 2 ^ k"] k
  have "2 ^ 52 - 1 / 2 \<le> real_of_int m" and "real_of_int m \<le> 2 ^ 53 + 1 / 2"
    unfolding m_def by linarith+
  then have "real_of_int (2 ^ 52 - 1) < real_of_int m"
    and "real_of_int m < real_of_int (2 ^ 53 + 1)"
    by simp_all
  then have "2 ^ 52 - 1 < m" and "m < 2 ^ 53 + 1" by (simp_all only: of_int_less_iff)
  then have "2 ^ 52 \<le> m" and "m \<le> 2 ^ 53" by simp_all
  then have mlo: "(2::real) ^ 52 \<le> of_int m" and mhi: "real_of_int m \<le> 2 ^ 53"
    by (metis of_int_le_iff of_int_numeral of_int_power)+
  consider "k \<le> 55" | "k = 56" | "57 \<le> k" by linarith
  then show ?thesis
  proof cases
    case 1
    then have p: "(2::real) ^ k \<le> 2 ^ 55" by (intro power_increasing) simp_all
    have kp: "(0::real) < 2 ^ k" by simp
    from mlo p kp have "2 ^ 52 / 2 ^ 55 \<le> real_of_int m / 2 ^ k"
      by (intro frac_le) simp_all
    then have "1 / 8 \<le> real_of_int m / 2 ^ k" by simp
    moreover have "float64 (1 / 10) < 1 / 8" unfolding float64_tenth by simp
    ultimately have "float64 (1 / 10) < float64 ?q" unfolding fq by linarith
    moreover have "2 ^ 52 / 2 ^ 55 \<le> ?q"
    proof -
      from k(2) kp have "2 ^ 52 / 2 ^ k \<le> ?q" by (simp add: field_simps)
      moreover from p kp have "(2::real) ^ 52 / 2 ^ 55 \<le> 2 ^ 52 / 2 ^ k"
        by (intro frac_le) simp_all
      ultimately show ?thesis by linarith
    qed
    then have "1 / 10 < ?q" by simp
    then have "real_of_int b < real_of_int (10 * a)" using rb by (simp add: field_simps)
    then have "b < 10 * a" by (simp only: of_int_less_iff)
    ultimately show ?thesis by simp
  next
    case 3
    then have p: "(2::real) ^ 57 \<le> 2 ^ k" by (intro power_increasing) simp_all
    from mhi p have "real_of_int m / 2 ^ k \<le> 2 ^ 53 / 2 ^ 57"
      by (intro frac_le) simp_all
    then have "real_of_int m / 2 ^ k \<le> 1 / 16" by simp
    moreover have "1 / 16 < float64 (1 / 10)" unfolding float64_tenth by simp
    ultimately have "\<not> float64 (1 / 10) < float64 ?q" unfolding fq by linarith
    moreover have "?q \<le> 2 ^ 53 / 2 ^ 57"
    proof -
      have kp: "(0::real) < 2 ^ k" by simp
      from k(3) kp have "?q < 2 ^ 53 / 2 ^ k" by (simp add: field_simps)
      moreover from p have "(2::real) ^ 53 / 2 ^ k \<le> 2 ^ 53 / 2 ^ 57"
        by (intro frac_le) simp_all
      ultimately show ?thesis by linarith
    qed
    then have "\<not> 1 / 10 < ?q" by simp
    then have "\<not> real_of_int b < real_of_int (10 * a)" using rb by (simp add: field_simps)
    then have "\<not> b < 10 * a" unfolding of_int_less_iff .
    ultimately show ?thesis by simp
  next
    case 2
    have "float64 (1 / 10) < float64 ?q \<longleftrightarrow> 7205759403792794 < m"
    proof -
      have "float64 (1 / 10) < float64 ?q \<longleftrightarrow>
              (7205759403792794 :: real) / 2 ^ 56 < real_of_int m / 2 ^ 56"
        by (simp only: fq float64_tenth 2)
      also have "\<dots> \<longleftrightarrow> real_of_int 7205759403792794 < real_of_int m"
        by (simp add: divide_less_cancel)
      also have "\<dots> \<longleftrightarrow> 7205759403792794 < m" by (simp only: of_int_less_iff)
      finally show ?thesis .
    qed
    also have "\<dots> \<longleftrightarrow> real_of_int 7205759403792794 + 1 / 2 < ?q * 2 ^ 56"
      unfolding m_def 2 by (rule round_to_even_gt) simp
    also have "\<dots> \<longleftrightarrow> real_of_int (14411518807585589 * b) < real_of_int (a * 2 ^ 57)"
      using rb by (simp add: field_simps)
    also have "\<dots> \<longleftrightarrow> 14411518807585589 * b < a * 2 ^ 57" by (simp only: of_int_less_iff)
    also have "\<dots> \<longleftrightarrow> b < 10 * a" using assms(3) assms(4) by (rule threshold_arith)
    finally show ?thesis .
  qed
qed

lemma round_to_even_nonneg: "0 \<le> x \<Longrightarrow> 0 \<le> round_to_even x"
  using round_to_even_bounds [of x] by linarith

lemma round53_nonneg: "0 \<le> x \<Longrightarrow> 0 \<le> round53 n x"
proof (induction n arbitrary: x)
  case 0
  show ?case by simp
next
  case (Suc n)
  from Suc.prems have "0 \<le> 2 * x" and "0 \<le> x / 2" by simp_all
  then have "0 \<le> round53 n (2 * x)" and "0 \<le> round53 n (x / 2)" by (simp_all only: Suc.IH)
  moreover from Suc.prems have "0 \<le> round_to_even x" by (rule round_to_even_nonneg)
  ultimately show ?case by simp
qed

lemma float64_nonneg: "0 \<le> x \<Longrightarrow> 0 \<le> float64 x"
  by (simp add: float64_def round53_nonneg)

lemma float64_tenth_pos: "0 < float64 (1 / 10)"
  unfolding float64_tenth by simp

lemma float64_int_abs:
  assumes "\<bar>a\<bar> < 2 ^ 53"
  shows "float64 (of_int a) = of_int a"
proof (cases "0 \<le> a")
  case True
  with assms show ?thesis by (intro float64_int) simp_all
next
  case False
  with assms have "float64 (of_int (- a)) = of_int (- a)" by (intro float64_int) simp_all
  then show ?thesis by (simp add: float64_neg)
qed

lemma float64_quotient_above:
  fixes a b :: int
  assumes "\<bar>a\<bar> < 2 ^ 52" and "0 < b" and "b < 2 ^ 52"
  shows "float64 (1 / 10) < float64 (of_int a / of_int b) \<longleftrightarrow> b < 10 * a"
proof (cases "0 < a")
  case True
  with assms show ?thesis by (intro float64_quotient_gt) simp_all
next
  case False
  then have "real_of_int a / real_of_int b \<le> 0" using assms(2) by (simp add: field_simps)
  then have "0 \<le> float64 (- (real_of_int a / real_of_int b))" by (intro float64_nonneg) simp
  then have "float64 (real_of_int a / real_of_int b) \<le> 0" by (simp add: float64_neg)
  with float64_tenth_pos have "\<not> float64 (1 / 10) < float64 (of_int a / of_int b)" by linarith
  moreover from False assms(2) have "\<not> b < 10 * a" by simp
  ultimately show ?thesis by simp
qed

lemma float64_quotient_below:
  fixes a b :: int
  assumes "\<bar>a\<bar> < 2 ^ 52" and "0 < b" and "b < 2 ^ 52"
  shows "float64 (of_int a / of_int b) < - float64 (1 / 10) \<longleftrightarrow> b < 10 * (- a)"
proof -
  from assms have "float64 (1 / 10) < float64 (of_int (- a) / of_int b) \<longleftrightarrow> b < 10 * (- a)"
    by (intro float64_quotient_above) simp_all
  moreover have "float64 (of_int (- a) / of_int b) = - float64 (of_int a / of_int b)"
    by (simp add: float64_neg)
  ultimately show ?thesis by linarith
qed

lemma detectBehaviorChange_iff:
  assumes "0 \<le> blen" and "blen < 2 ^ 52" and "0 \<le> tlen" and "tlen < 2 ^ 52"
  shows "detectBehaviorChange bs ts blen tlen \<longleftrightarrow> ts \<noteq> bs \<or> 10 * \<bar>tlen - blen\<bar> > blen"
proof (cases "blen = 0")
  case True
  then show ?thesis by (auto simp: detectBehaviorChange_def)
next
  case False
  with assms have pos: "0 < blen" by simp
  from assms have d: "\<bar>tlen - blen\<bar> < 2 ^ 52" by simp
  then have d': "\<bar>tlen - blen\<bar> < 2 ^ 53" by simp
  from assms have b': "\<bar>blen\<bar> < 2 ^ 53" by simp
  have c1: "float64 (of_int (tlen - blen)) = of_int (tlen - blen)"
    using d' by (rule float64_int_abs)
  have c2: "float64 (of_int blen) = of_int blen" using b' by (rule float64_int_abs)
  note up = float64_quotient_above [OF d pos assms(2)]
  note down = float64_quotient_below [OF d pos assms(2)]
  have "(blen < 10 * (tlen - blen) \<or> blen < 10 * (- (tlen - blen))) \<longleftrightarrow> 10 * \<bar>tlen - blen\<bar> > blen"
    using assms by (auto simp: abs_if)
  with up down False show ?thesis
    unfolding detectBehaviorChange_def Let_def c1 c2 by auto
qed

lemma sqli_check_critical:
  "has_signature (Body resp) \<Longrightarrow>
     \<exists>v. sqli_check bs blen p pl resp = Some v \<and> Severity v = ''critical'' \<and>
         Location v = ''Parameter: '' @ p \<and> Payload v = payload pl"
  using detectSQLError_signature [of "Body resp"] by (simp add: sqli_check_def Let_def)

lemma sqli_check_location:
  "sqli_check bs blen p pl resp = Some v \<Longrightarrow> Location v = ''Parameter: '' @ p"
  by (auto simp: sqli_check_def Let_def split: if_splits)

lemma sqli_check_high:
  assumes "detectSQLError (ToLower (Body resp)) = []"
    and "length (Body b) < 2 ^ 52" and "length (Body resp) < 2 ^ 52"
  shows "sqli_check (StatusCode b) (int (length (Body b))) p pl resp =
           (if behavior_changed b resp then
              Some \<lparr>Type = ''sqli'', Severity = ''high'', Location = ''Parameter: '' @ p,
                    Payload = payload pl,
                    Evidence = ''Response behavior changed: baseline='' @
                      string_of_int (int (length (Body b))) @ '' bytes, test='' @
                      string_of_int (int (length (Body resp))) @ '' bytes'',
                    Description = description pl @
                      '' - Response indicates potential SQL injection''\<rparr>
            else None)"
proof -
  from assms(2) have "int (length (Body b)) < int (2 ^ 52)" by (simp only: of_nat_less_iff)
  then have lb: "int (length (Body b)) < 2 ^ 52" by simp
  from assms(3) have "int (length (Body resp)) < int (2 ^ 52)" by (simp only: of_nat_less_iff)
  then have lr: "int (length (Body resp)) < 2 ^ 52" by simp
  have "detectBehaviorChange (StatusCode b) (StatusCode resp) (int (length (Body b)))
          (int (length (Body resp))) \<longleftrightarrow> behavior_changed b resp"
    unfolding behavior_changed_def using lb lr by (intro detectBehaviorChange_iff) simp_all
  with assms(1) show ?thesis by (simp add: sqli_check_def Let_def)
qed

lemma test_param_sqli_location:
  assumes "snd (test_param_sqli srv bs blen p) = Some v"
  shows "Location v = ''Parameter: '' @ p"
proof -
  from assms obtain q resp where "sqli_check bs blen p q resp = Some v"
    unfolding test_param_sqli_def by (blast dest: test_payloads_found)
  then show ?thesis by (rule sqli_check_location)
qed

lemma path_check_location: "path_check q resp = Some v \<Longrightarrow> Location v = ''URL Path''"
  by (auto simp: path_check_def Let_def split: if_splits)

lemma findings_for_path:
  assumes "snd (testPathInjection srv) = found"
  shows "findings_for p (findings [found]) = []"
proof (cases found)
  case None
  then show ?thesis by (simp add: findings_def findings_for_def)
next
  case (Some v)
  with assms obtain q resp where "path_check q resp = Some v"
    unfolding testPathInjection_def by (blast dest: test_payloads_found)
  then have "Location v = ''URL Path''" by (rule path_check_location)
  with Some show ?thesis by (simp add: findings_def findings_for_def)
qed

lemma findings_for_params:
  assumes "distinct ps" and "\<And>q v. f q = Some v \<Longrightarrow> Location v = ''Parameter: '' @ q"
  shows "findings_for p (findings (map f ps)) =
           (if p \<in> set ps then findings [f p] else [])"
  using assms(1)
proof (induction ps)
  case Nil
  show ?case by (simp add: findings_def findings_for_def)
next
  case (Cons a ps)
  then have IH: "findings_for p (findings (map f ps)) =
           (if p \<in> set ps then findings [f p] else [])" by simp
  have split: "findings_for p (findings (map f (a # ps))) =
                 findings_for p (findings [f a]) @ findings_for p (findings (map f ps))"
    by (simp add: findings_def findings_for_def)
  have head: "findings_for p (findings [f a]) = (if a = p then findings [f p] else [])"
    using assms(2) [of a] by (cases "f a") (auto simp: findings_def findings_for_def)
  from Cons.prems have "a = p \<Longrightarrow> p \<notin> set ps" by auto
  with split head IH show ?case by auto
qed

lemma param_requests_filter:
  assumes "distinct ps"
  shows "filter (is_param_request p) (concat (map (\<lambda>q. param_requests q (g q)) ps)) =
           (if p \<in> set ps then param_requests p (g p) else [])"
  using assms
proof (induction ps)
  case Nil
  show ?case by simp
next
  case (Cons a ps)
  have own: "filter (is_param_request p) (param_requests a (g a)) =
               (if a = p then param_requests p (g p) else [])"
    by (auto simp: param_requests_def is_param_request_def filter_empty_conv)
  from Cons show ?case by (auto simp: own)
qed

lemma sqli_fallback_distinct: "distinct sqli_fallback_params"
  by (simp add: sqli_fallback_params_def)

lemma sqli_params_distinct: "distinct (Query u) \<Longrightarrow> distinct (sqli_params u)"
  by (simp add: sqli_params_def sqli_fallback_distinct)

lemma ScanSQLi_result:
  assumes "parsed_url srv = Inr u" and "get_url srv = Inr b"
  shows "snd (ScanSQLi srv) =
           Inr (findings (map (\<lambda>p. snd (test_param_sqli srv (StatusCode b)
                                            (int (length (Body b))) p)) (sqli_params u)) @
                findings [if length (Path u) > 1 then snd (testPathInjection srv) else None])"
    and "fst (ScanSQLi srv) =
           GetURL # concat (map (\<lambda>p. param_requests p (fst (test_param_sqli srv (StatusCode b)
                                            (int (length (Body b))) p))) (sqli_params u)) @
           map GetPath (if length (Path u) > 1 then fst (testPathInjection srv) else [])"
  using assms
  by (simp_all add: ScanSQLi_def Let_def sqli_params_def case_prod_beta comp_def
        split: prod.splits)

lemma test_param_sqli_signature:
  assumes "sqliPayloads = pre @ pl # post"
    and "\<forall>q \<in> set pre. sqli_quiet srv b p q"
    and "get_param srv p (payload pl) = Some resp"
    and "has_signature (Body resp)"
  shows "\<exists>v. test_param_sqli srv (StatusCode b) (int (length (Body b))) p = (pre @ [pl], Some v) \<and>
             Severity v = ''critical'' \<and> Payload v = payload pl"
proof -
  from sqli_check_critical [OF assms(4)]
  obtain v where v: "sqli_check (StatusCode b) (int (length (Body b))) p pl resp = Some v"
      "Severity v = ''critical''" "Payload v = payload pl"
    by blast
  have "test_payloads (\<lambda>p'. get_param srv p (payload p'))
          (sqli_check (StatusCode b) (int (length (Body b))) p) (pre @ pl # post)
        = (pre @ [pl], Some v)"
    using assms(2) assms(3) v(1) unfolding sqli_quiet_def by (rule test_payloads_first)
  with assms(1) v show ?thesis by (simp add: test_param_sqli_def)
qed

text \<open>
  Claim C5.  The parameter names of a URL are the keys of a map, hence distinct.  In every
  result of the SQLi analyzer at most one finding is located at a given parameter.  When the
  payloads before some payload are quiet for a parameter and the response to that payload has a
  body with a database-error signature, for instance the text
  \<open>you have an error in your sql syntax\<close> in any case of letters, then exactly one finding is
  located at the parameter, it is critical and carries that payload, and the test requests sent
  for the parameter end with that payload: no later payload is tested.
\<close>

theorem sqli_first_match:
  "parsed_url srv = Inr u \<and> distinct (Query u) \<and> snd (ScanSQLi srv) = Inr vs \<longrightarrow>
     length (findings_for p vs) \<le> 1 \<and>
     (\<forall>b pre pl post resp.
        get_url srv = Inr b \<and> p \<in> set (sqli_params u) \<and> sqliPayloads = pre @ pl # post \<and>
        (\<forall>q \<in> set pre. sqli_quiet srv b p q) \<and> get_param srv p (payload pl) = Some resp \<and>
        (has_signature (Body resp) \<or>
         Contains (ToLower (Body resp)) ''you have an error in your sql syntax'') \<longrightarrow>
          (\<exists>v. findings_for p vs = [v] \<and> Severity v = ''critical'' \<and> Payload v = payload pl) \<and>
          filter (is_param_request p) (fst (ScanSQLi srv)) =
            map (\<lambda>q. GetParam p (payload q)) (pre @ [pl]))"
proof (intro impI, elim conjE)
  assume u: "parsed_url srv = Inr u" and d: "distinct (Query u)"
    and vs: "snd (ScanSQLi srv) = Inr vs"
  from u vs obtain b where b: "get_url srv = Inr b"
    by (cases "get_url srv") (auto simp: ScanSQLi_def Let_def)
  let ?T = "\<lambda>q. test_param_sqli srv (StatusCode b) (int (length (Body b))) q"
  let ?path = "if length (Path u) > 1 then snd (testPathInjection srv) else None"
  from ScanSQLi_result(1) [OF u b] vs
  have vs_eq: "vs = findings (map (\<lambda>q. snd (?T q)) (sqli_params u)) @ findings [?path]"
    by simp
  have path: "findings_for p (findings [?path]) = []"
    using findings_for_path [of srv _ p] by (simp add: findings_def findings_for_def)
  have params: "findings_for p (findings (map (\<lambda>q. snd (?T q)) (sqli_params u))) =
                  (if p \<in> set (sqli_params u) then findings [snd (?T p)] else [])"
    using sqli_params_distinct [OF d] test_param_sqli_location
    by (rule findings_for_params)
  have for_p: "findings_for p vs = (if p \<in> set (sqli_params u) then findings [snd (?T p)] else [])"
    unfolding vs_eq using path params by (simp add: findings_for_def)
  have one: "length (findings_for p vs) \<le> 1"
    unfolding for_p by (cases "snd (?T p)") (simp_all add: findings_def)
  have sig: "(\<exists>v. findings_for p vs = [v] \<and> Severity v = ''critical'' \<and> Payload v = payload pl) \<and>
          filter (is_param_request p) (fst (ScanSQLi srv)) =
            map (\<lambda>q. GetParam p (payload q)) (pre @ [pl])"
    if h: "get_url srv = Inr b'" "p \<in> set (sqli_params u)" "sqliPayloads = pre @ pl # post"
      "\<forall>q \<in> set pre. sqli_quiet srv b' p q" "get_param srv p (payload pl) = Some resp"
      "has_signature (Body resp) \<or>
         Contains (ToLower (Body resp)) ''you have an error in your sql syntax''"
    for b' pre pl post resp
  proof -
    from h(1) b have bb: "b' = b" by simp
    from h(6) have s: "has_signature (Body resp)" using syntax_phrase_signature by blast
    from test_param_sqli_signature [OF h(3) h(4) [unfolded bb] h(5) s]
    obtain v where v: "?T p = (pre @ [pl], Some v)" "Severity v = ''critical''"
        "Payload v = payload pl"
      by blast
    have f: "findings_for p vs = [v]"
      unfolding for_p using h(2) v(1) by (simp add: findings_def)
    have "filter (is_param_request p) (fst (ScanSQLi srv)) =
            filter (is_param_request p)
              (concat (map (\<lambda>q. param_requests q (fst (?T q))) (sqli_params u)))"
      unfolding ScanSQLi_result(2) [OF u b]
      by (simp add: is_param_request_def filter_empty_conv)
    also have "\<dots> = param_requests p (fst (?T p))"
      using param_requests_filter [OF sqli_params_distinct [OF d], of p "\<lambda>q. fst (?T q)"] h(2)
      by simp
    also have "\<dots> = map (\<lambda>q. GetParam p (payload q)) (pre @ [pl])"
      using v(1) by (simp add: param_requests_def)
    finally show ?thesis using f v(2) v(3) by blast
  qed
  from one sig show "length (findings_for p vs) \<le> 1 \<and>
     (\<forall>b pre pl post resp.
        get_url srv = Inr b \<and> p \<in> set (sqli_params u) \<and> sqliPayloads = pre @ pl # post \<and>
        (\<forall>q \<in> set pre. sqli_quiet srv b p q) \<and> get_param srv p (payload pl) = Some resp \<and>
        (has_signature (Body resp) \<or>
         Contains (ToLower (Body resp)) ''you have an error in your sql syntax'') \<longrightarrow>
          (\<exists>v. findings_for p vs = [v] \<and> Severity v = ''critical'' \<and> Payload v = payload pl) \<and>
          filter (is_param_request p) (fst (ScanSQLi srv)) =
            map (\<lambda>q. GetParam p (payload q)) (pre @ [pl]))"
    by blast
qed

lemma sqliPayloads_head: "sqliPayloads = [] @ hd sqliPayloads # tl sqliPayloads"
  by (simp add: sqliPayloads_def)

lemma sqliPayloads_hd:
  "hd sqliPayloads = \<lparr>payload = [CHR 0x27], description = ''Single quote test''\<rparr>"
  by (simp add: sqliPayloads_def)

lemma mysql_error_lower:
  "ToLower ''MySQL error: You have an error in your SQL syntax'' =
     ''mysql error: you have an error in your sql syntax''"
  by code_simp

lemma mysql_error_phrase:
  "Contains ''mysql error: you have an error in your sql syntax''
     ''you have an error in your sql syntax''"
  by simp

lemma mysql_error_detect:
  "detectSQLError ''mysql error: you have an error in your sql syntax'' = ''sql syntax''"
proof -
  have "Contains ''mysql error: you have an error in your sql syntax'' ''sql syntax''"
    by simp
  then show ?thesis by (simp add: detectSQLError_def sqlErrorPatterns_def del: Contains.simps)
qed

lemma failing_site_scan:
  "ScanSQLi failing_site =
     ([GetURL, GetParam ''q'' [CHR 0x27]],
      Inr [\<lparr>Type = ''sqli'', Severity = ''critical'', Location = ''Parameter: q'',
            Payload = [CHR 0x27], Evidence = ''SQL error detected: sql syntax'',
            Description = ''Single quote test - SQL error exposed''\<rparr>])"
proof -
  have t: "test_param_sqli failing_site bs blen ''q'' =
             ([hd sqliPayloads],
              Some \<lparr>Type = ''sqli'', Severity = ''critical'', Location = ''Parameter: q'',
                Payload = [CHR 0x27], Evidence = ''SQL error detected: sql syntax'',
                Description = ''Single quote test - SQL error exposed''\<rparr>)" for bs blen
    unfolding test_param_sqli_def
    by (subst sqliPayloads_head)
       (simp add: sqliPayloads_hd failing_site_def page_def sqli_check_def Let_def
          mysql_error_lower mysql_error_detect)
  have u: "parsed_url failing_site = Inr \<lparr>Path = ''/'', Query = [''q'']\<rparr>"
    and b: "get_url failing_site = Inr (page ''Search results for: test'')"
    by (simp_all add: failing_site_def)
  have "fst (ScanSQLi failing_site) = [GetURL, GetParam ''q'' [CHR 0x27]]"
    unfolding ScanSQLi_result(2) [OF u b]
    by (simp add: t sqli_params_def param_requests_def sqliPayloads_hd)
  moreover have "snd (ScanSQLi failing_site) =
      Inr [\<lparr>Type = ''sqli'', Severity = ''critical'', Location = ''Parameter: q'',
            Payload = [CHR 0x27], Evidence = ''SQL error detected: sql syntax'',
            Description = ''Single quote test - SQL error exposed''\<rparr>]"
    unfolding ScanSQLi_result(1) [OF u b]
    by (simp add: t sqli_params_def findings_def)
  ultimately show ?thesis by (simp add: prod_eq_iff)
qed

text \<open>
  The site that answers a quote with a database error: the scan sends the baseline request and
  the first payload for \<open>q\<close>, and reports one critical finding for \<open>q\<close>.
\<close>

theorem sqli_first_match_witness:
  "parsed_url failing_site = Inr \<lparr>Path = ''/'', Query = [''q'']\<rparr> \<and>
   get_url failing_site = Inr (page ''Search results for: test'') \<and>
   get_param failing_site ''q'' (payload (hd sqliPayloads)) =
     Some (page ''MySQL error: You have an error in your SQL syntax'') \<and>
   Contains (ToLower ''MySQL error: You have an error in your SQL syntax'')
     ''you have an error in your sql syntax'' \<and>
   (\<exists>vs v. snd (ScanSQLi failing_site) = Inr vs \<and> length (findings_for ''q'' vs) \<le> 1 \<and>
      findings_for ''q'' vs = [v] \<and> Severity v = ''critical'' \<and>
      Payload v = payload (hd sqliPayloads)) \<and>
   filter (is_param_request ''q'') (fst (ScanSQLi failing_site)) =
     [GetParam ''q'' (payload (hd sqliPayloads))]"
proof -
  let ?u = "\<lparr>Path = ''/'', Query = [''q'']\<rparr>"
  let ?b = "page ''Search results for: test''"
  let ?r = "page ''MySQL error: You have an error in your SQL syntax''"
  obtain vs where vs: "snd (ScanSQLi failing_site) = Inr vs"
    by (simp add: failing_site_scan)
  have u: "parsed_url failing_site = Inr ?u" and b: "get_url failing_site = Inr ?b"
    by (simp_all add: failing_site_def)
  have g: "get_param failing_site ''q'' (payload (hd sqliPayloads)) = Some ?r"
    by (simp add: failing_site_def sqliPayloads_hd)
  have c: "Contains (ToLower (Body ?r)) ''you have an error in your sql syntax''"
    unfolding page_def using mysql_error_phrase by (simp add: mysql_error_lower)
  have m: "''q'' \<in> set (sqli_params ?u)" and d: "distinct (Query ?u)"
    by (simp_all add: sqli_params_def)
  from sqli_first_match [of failing_site ?u vs "''q''"] u d vs
  have one: "length (findings_for ''q'' vs) \<le> 1"
    and all: "\<forall>b pre pl post resp.
        get_url failing_site = Inr b \<and> ''q'' \<in> set (sqli_params ?u) \<and>
        sqliPayloads = pre @ pl # post \<and>
        (\<forall>q \<in> set pre. sqli_quiet failing_site b ''q'' q) \<and>
        get_param failing_site ''q'' (payload pl) = Some resp \<and>
        (has_signature (Body resp) \<or>
         Contains (ToLower (Body resp)) ''you have an error in your sql syntax'') \<longrightarrow>
          (\<exists>v. findings_for ''q'' vs = [v] \<and> Severity v = ''critical'' \<and>
               Payload v = payload pl) \<and>
          filter (is_param_request ''q'') (fst (ScanSQLi failing_site)) =
            map (\<lambda>q. GetParam ''q'' (payload q)) (pre @ [pl])"
    by blast+
  from all [rule_format, of ?b "[]" "hd sqliPayloads" "tl sqliPayloads" ?r]
    b m sqliPayloads_head g c
  have "(\<exists>v. findings_for ''q'' vs = [v] \<and> Severity v = ''critical'' \<and>
            Payload v = payload (hd sqliPayloads)) \<and>
        filter (is_param_request ''q'') (fst (ScanSQLi failing_site)) =
          [GetParam ''q'' (payload (hd sqliPayloads))]"
    by simp
  with u b g c vs one show ?thesis unfolding page_def by auto
qed

text \<open>
  Claim C8.  For a response to a payload whose body carries no database-error signature, both
  bodies being shorter than \<open>2^52\<close> bytes (so the two lengths and their difference are exact
  as \<open>float64\<close> values), a finding is emitted exactly when the status code differs from the
  baseline status code or the body length differs from the baseline length by more than 10
  percent of the baseline length, upwards or downwards, and the finding is high.  A body four times as long as a non-empty
  baseline body (300 percent longer) with the same status code is flagged.  In the loop, the
  first payload whose response changes the behaviour ends the tests of its parameter with that
  finding.
\<close>

theorem sqli_behavior_change:
  "detectSQLError (ToLower (Body resp)) = [] \<and>
   length (Body b) < 2 ^ 52 \<and> length (Body resp) < 2 ^ 52 \<longrightarrow>
     ((\<exists>v. sqli_check (StatusCode b) (int (length (Body b))) p pl resp = Some v \<and>
           Severity v = ''high'') \<longleftrightarrow> behavior_changed b resp) \<and>
     (sqli_check (StatusCode b) (int (length (Body b))) p pl resp = None
        \<longleftrightarrow> \<not> behavior_changed b resp) \<and>
     (StatusCode resp = StatusCode b \<and> Body b \<noteq> [] \<and>
      length (Body resp) = 4 * length (Body b) \<longrightarrow>
        (\<exists>v. sqli_check (StatusCode b) (int (length (Body b))) p pl resp = Some v \<and>
           Severity v = ''high'')) \<and>
     (sqliPayloads = pre @ pl # post \<and> (\<forall>q \<in> set pre. sqli_quiet srv b p q) \<and>
      get_param srv p (payload pl) = Some resp \<and> behavior_changed b resp \<longrightarrow>
        (\<exists>v. test_param_sqli srv (StatusCode b) (int (length (Body b))) p = (pre @ [pl], Some v) \<and>
           Severity v = ''high'' \<and> Payload v = payload pl))"
proof
  assume "detectSQLError (ToLower (Body resp)) = [] \<and>
    length (Body b) < 2 ^ 52 \<and> length (Body resp) < 2 ^ 52"
  then have n: "detectSQLError (ToLower (Body resp)) = []"
    and lb: "length (Body b) < 2 ^ 52" and lr: "length (Body resp) < 2 ^ 52"
    by simp_all
  note chk = sqli_check_high [OF n lb lr, of p pl]
  have a: "(\<exists>v. sqli_check (StatusCode b) (int (length (Body b))) p pl resp = Some v \<and>
           Severity v = ''high'') \<longleftrightarrow> behavior_changed b resp"
    unfolding chk by simp
  have c: "sqli_check (StatusCode b) (int (length (Body b))) p pl resp = None
        \<longleftrightarrow> \<not> behavior_changed b resp"
    unfolding chk by simp
  have l: "behavior_changed b resp"
    if "StatusCode resp = StatusCode b \<and> Body b \<noteq> [] \<and> length (Body resp) = 4 * length (Body b)"
    using that by (cases "Body b") (simp_all add: behavior_changed_def)
  have t: "\<exists>v. test_param_sqli srv (StatusCode b) (int (length (Body b))) p = (pre @ [pl], Some v) \<and>
           Severity v = ''high'' \<and> Payload v = payload pl"
    if h: "sqliPayloads = pre @ pl # post \<and> (\<forall>q \<in> set pre. sqli_quiet srv b p q) \<and>
      get_param srv p (payload pl) = Some resp \<and> behavior_changed b resp"
  proof -
    from h a obtain v where v: "sqli_check (StatusCode b) (int (length (Body b))) p pl resp = Some v"
      "Severity v = ''high''" by blast
    from v(1) h have pv: "Payload v = payload pl" unfolding chk by auto
    from h have q: "\<forall>q \<in> set pre. quiet (\<lambda>p'. get_param srv p (payload p'))
          (sqli_check (StatusCode b) (int (length (Body b))) p) q"
      and g: "get_param srv p (payload pl) = Some resp"
      unfolding sqli_quiet_def by simp_all
    have "test_payloads (\<lambda>p'. get_param srv p (payload p'))
          (sqli_check (StatusCode b) (int (length (Body b))) p) (pre @ pl # post)
        = (pre @ [pl], Some v)"
      using q g v(1) by (rule test_payloads_first)
    with h v(2) pv show ?thesis by (simp add: test_param_sqli_def)
  qed
  from a c l t show "((\<exists>v. sqli_check (StatusCode b) (int (length (Body b))) p pl resp = Some v \<and>
           Severity v = ''high'') \<longleftrightarrow> behavior_changed b resp) \<and>
     (sqli_check (StatusCode b) (int (length (Body b))) p pl resp = None
        \<longleftrightarrow> \<not> behavior_changed b resp) \<and>
     (StatusCode resp = StatusCode b \<and> Body b \<noteq> [] \<and>
      length (Body resp) = 4 * length (Body b) \<longrightarrow>
        (\<exists>v. sqli_check (StatusCode b) (int (length (Body b))) p pl resp = Some v \<and>
           Severity v = ''high'')) \<and>
     (sqliPayloads = pre @ pl # post \<and> (\<forall>q \<in> set pre. sqli_quiet srv b p q) \<and>
      get_param srv p (payload pl) = Some resp \<and> behavior_changed b resp \<longrightarrow>
        (\<exists>v. test_param_sqli srv (StatusCode b) (int (length (Body b))) p = (pre @ [pl], Some v) \<and>
           Severity v = ''high'' \<and> Payload v = payload pl))"
    by blast
qed

lemma verbose_lower:
  "ToLower ''No results for this query, showing all..'' =
     ''no results for this query, showing all..''"
  by code_simp

lemma verbose_no_signature:
  "detectSQLError ''no results for this query, showing all..'' = []"
  by (simp add: detectSQLError_def sqlErrorPatterns_def)

text \<open>
  The verbose site: the first payload already gets a page of 40 bytes against a baseline of 10
  bytes, with status 200 both times, and the parameter is flagged high.
\<close>

theorem sqli_behavior_change_witness:
  "detectSQLError (ToLower (Body (page ''No results for this query, showing all..''))) = [] \<and>
   length (Body (page ''No results'')) < 2 ^ 52 \<and>
   length (Body (page ''No results for this query, showing all..'')) < 2 ^ 52 \<and>
   StatusCode (page ''No results for this query, showing all..'') = StatusCode (page ''No results'') \<and>
   length (Body (page ''No results for this query, showing all..'')) =
     4 * length (Body (page ''No results'')) \<and>
   behavior_changed (page ''No results'') (page ''No results for this query, showing all..'') \<and>
   get_param verbose_site ''q'' (payload (hd sqliPayloads)) =
     Some (page ''No results for this query, showing all..'') \<and>
   (\<exists>v. test_param_sqli verbose_site 200 10 ''q'' = ([hd sqliPayloads], Some v) \<and>
      Severity v = ''high'' \<and> Payload v = payload (hd sqliPayloads))"
proof -
  let ?b = "page ''No results''"
  let ?r = "page ''No results for this query, showing all..''"
  have n: "detectSQLError (ToLower (Body ?r)) = []"
    by (simp add: page_def verbose_lower verbose_no_signature)
  have s: "StatusCode ?r = StatusCode ?b" and len: "length (Body ?r) = 4 * length (Body ?b)"
    and ne: "Body ?b \<noteq> []"
    by (simp_all add: page_def)
  have ch: "behavior_changed ?b ?r" by (simp add: behavior_changed_def page_def)
  have g: "get_param verbose_site ''q'' (payload (hd sqliPayloads)) = Some ?r"
    by (simp add: verbose_site_def)
  have sb: "StatusCode ?b = 200" "int (length (Body ?b)) = 10" by (simp_all add: page_def)
  have lb: "length (Body ?b) < 2 ^ 52" and lr: "length (Body ?r) < 2 ^ 52"
    by (simp_all add: page_def)
  from sqli_behavior_change [of ?r ?b "''q''" "hd sqliPayloads" "[]" "tl sqliPayloads" verbose_site]
    n lb lr s len ne ch g sqliPayloads_head
  have "\<exists>v. test_param_sqli verbose_site (StatusCode ?b) (int (length (Body ?b))) ''q'' =
              ([hd sqliPayloads], Some v) \<and>
            Severity v = ''high'' \<and> Payload v = payload (hd sqliPayloads)"
    by simp
  then have "\<exists>v. test_param_sqli verbose_site 200 10 ''q'' = ([hd sqliPayloads], Some v) \<and>
            Severity v = ''high'' \<and> Payload v = payload (hd sqliPayloads)"
    unfolding sb .
  with n lb lr s len ch g show ?thesis by blast
qed

section \<open>Cross-site scripting analyzer\<close>

lemma xss_patterns_lower_map: "map (\<lambda>p. ToLower (payload p)) xssPayloads = map pattern xssPayloads"
  by code_simp

lemma xss_patterns_lower: "pl \<in> set xssPayloads \<Longrightarrow> pattern pl = ToLower (payload pl)"
  using xss_patterns_lower_map by simp

lemma xss_clean_all:
  "list_all (\<lambda>p. checkPartialReflection ''alert'' (payload p) \<and>
                  checkPartialReflection ''xss'' (payload p)) xssPayloads"
  by code_simp

lemma xss_escaped_all:
  "list_all (\<lambda>p. Contains (ToLower (EscapeString (payload p))) ''alert'') xssPayloads"
  by code_simp

lemma checkPartialReflection_iff:
  assumes "pl \<in> set xssPayloads"
  shows "checkPartialReflection body (payload pl) \<longleftrightarrow>
           Contains body ''alert'' \<or> Contains body ''xss''"
proof -
  let ?clean = "ToLower (RemoveAll (RemoveAll (RemoveAll (RemoveAll (payload pl) CHR ''<'')
                  CHR ''>'') CHR 0x27) CHR 0x22)"
  from assms xss_clean_all
  have "checkPartialReflection ''alert'' (payload pl)"
    and "checkPartialReflection ''xss'' (payload pl)"
    by (simp_all add: list_all_iff)
  then have "Contains ?clean ''alert''" and "Contains ?clean ''xss''"
    by (simp_all add: checkPartialReflection_def Let_def split: if_splits)
  then show ?thesis by (simp add: checkPartialReflection_def Let_def)
qed

lemma xss_check_high:
  "Contains (ToLower (Body resp)) (pattern pl) \<Longrightarrow>
     xss_check p pl resp =
       Some \<lparr>Type = ''xss'', Severity = ''high'', Location = ''Parameter: '' @ p,
             Payload = payload pl, Evidence = ''Payload reflected unescaped in response'',
             Description = description pl @
               '' - Payload found in response without proper encoding''\<rparr>"
  by (simp add: xss_check_def Let_def)

lemma xss_check_not_verbatim:
  assumes "pl \<in> set xssPayloads" and "\<not> Contains (ToLower (Body resp)) (pattern pl)"
  shows "xss_check p pl resp =
           (if Contains (ToLower (Body resp)) ''alert'' \<or> Contains (ToLower (Body resp)) ''xss''
            then Some \<lparr>Type = ''xss'', Severity = ''medium'', Location = ''Parameter: '' @ p,
                   Payload = payload pl,
                   Evidence = ''Payload partially reflected, may be bypassable'',
                   Description = description pl @ '' - Input reflected with partial encoding''\<rparr>
            else None)"
  using assms(2) checkPartialReflection_iff [OF assms(1)]
  by (simp add: xss_check_def Let_def)

lemma escaped_contains_alert:
  assumes "pl \<in> set xssPayloads"
  shows "Contains (ToLower (before @ EscapeString (payload pl) @ after)) ''alert''"
proof -
  from assms xss_escaped_all have "Contains (ToLower (EscapeString (payload pl))) ''alert''"
    by (simp add: list_all_iff)
  then have "Contains (ToLower before @ ToLower (EscapeString (payload pl)) @ ToLower after)
               ''alert''"
    by (rule Contains_mono)
  then show ?thesis by (simp add: ToLower_append)
qed

text \<open>
  Claim C6, amended.  A response whose lower-case body contains the lower-case payload verbatim
  yields a high finding for the parameter (the pattern of each payload is its lower-case form),
  and ends the tests of the parameter when the payloads before it were quiet.  A response that
  does not contain the payload verbatim yields a medium finding when its lower-case body
  contains \<open>alert\<close> or \<open>xss\<close>, and no finding otherwise.  A response that shows the payload
  entity-encoded contains \<open>alert\<close>, so it always yields a finding: medium when the payload
  does not also occur verbatim.
\<close>

theorem xss_reflection:
  "(Contains (ToLower (Body resp)) (pattern pl) \<longrightarrow>
      (\<exists>v. xss_check p pl resp = Some v \<and> Severity v = ''high'' \<and>
           Location v = ''Parameter: '' @ p \<and> Payload v = payload pl)) \<and>
   (pl \<in> set xssPayloads \<longrightarrow> pattern pl = ToLower (payload pl)) \<and>
   (xssPayloads = pre @ pl # post \<and> (\<forall>q \<in> set pre. xss_quiet srv p q) \<and>
    get_param srv p (payload pl) = Some resp \<and> Contains (ToLower (Body resp)) (pattern pl) \<longrightarrow>
      (\<exists>v. test_param_xss srv p = (pre @ [pl], Some v) \<and> Severity v = ''high'' \<and>
           Location v = ''Parameter: '' @ p \<and> Payload v = payload pl)) \<and>
   (pl \<in> set xssPayloads \<and> \<not> Contains (ToLower (Body resp)) (pattern pl) \<longrightarrow>
      (if Contains (ToLower (Body resp)) ''alert'' \<or> Contains (ToLower (Body resp)) ''xss''
       then \<exists>v. xss_check p pl resp = Some v \<and> Severity v = ''medium'' \<and>
              Location v = ''Parameter: '' @ p \<and> Payload v = payload pl
       else xss_check p pl resp = None)) \<and>
   (pl \<in> set xssPayloads \<and> Body resp = before @ EscapeString (payload pl) @ after \<longrightarrow>
      (\<exists>v. xss_check p pl resp = Some v \<and>
         Severity v = (if Contains (ToLower (Body resp)) (pattern pl) then ''high''
                       else ''medium'')))"
proof -
  have a: "Contains (ToLower (Body resp)) (pattern pl) \<longrightarrow>
      (\<exists>v. xss_check p pl resp = Some v \<and> Severity v = ''high'' \<and>
           Location v = ''Parameter: '' @ p \<and> Payload v = payload pl)"
    by (simp add: xss_check_high)
  have b: "pl \<in> set xssPayloads \<longrightarrow> pattern pl = ToLower (payload pl)"
    using xss_patterns_lower by blast
  have c: "\<exists>v. test_param_xss srv p = (pre @ [pl], Some v) \<and> Severity v = ''high'' \<and>
           Location v = ''Parameter: '' @ p \<and> Payload v = payload pl"
    if h: "xssPayloads = pre @ pl # post \<and> (\<forall>q \<in> set pre. xss_quiet srv p q) \<and>
      get_param srv p (payload pl) = Some resp \<and> Contains (ToLower (Body resp)) (pattern pl)"
  proof -
    from h have q: "\<forall>q \<in> set pre. quiet (\<lambda>p'. get_param srv p (payload p')) (xss_check p) q"
      and g: "get_param srv p (payload pl) = Some resp"
      unfolding xss_quiet_def by simp_all
    from h have v: "xss_check p pl resp =
       Some \<lparr>Type = ''xss'', Severity = ''high'', Location = ''Parameter: '' @ p,
             Payload = payload pl, Evidence = ''Payload reflected unescaped in response'',
             Description = description pl @
               '' - Payload found in response without proper encoding''\<rparr>"
      by (simp add: xss_check_high)
    have "test_payloads (\<lambda>p'. get_param srv p (payload p')) (xss_check p) (pre @ pl # post) =
            (pre @ [pl], Some \<lparr>Type = ''xss'', Severity = ''high'', Location = ''Parameter: '' @ p,
             Payload = payload pl, Evidence = ''Payload reflected unescaped in response'',
             Description = description pl @
               '' - Payload found in response without proper encoding''\<rparr>)"
      using q g v by (rule test_payloads_first)
    with h show ?thesis by (simp add: test_param_xss_def)
  qed
  have d: "pl \<in> set xssPayloads \<and> \<not> Contains (ToLower (Body resp)) (pattern pl) \<longrightarrow>
      (if Contains (ToLower (Body resp)) ''alert'' \<or> Contains (ToLower (Body resp)) ''xss''
       then \<exists>v. xss_check p pl resp = Some v \<and> Severity v = ''medium'' \<and>
              Location v = ''Parameter: '' @ p \<and> Payload v = payload pl
       else xss_check p pl resp = None)"
    by (simp add: xss_check_not_verbatim)
  have e: "\<exists>v. xss_check p pl resp = Some v \<and>
         Severity v = (if Contains (ToLower (Body resp)) (pattern pl) then ''high''
                       else ''medium'')"
    if h: "pl \<in> set xssPayloads \<and> Body resp = before @ EscapeString (payload pl) @ after"
  proof (cases "Contains (ToLower (Body resp)) (pattern pl)")
    case True
    then show ?thesis by (simp add: xss_check_high)
  next
    case False
    from h have "Contains (ToLower (Body resp)) ''alert''"
      using escaped_contains_alert [of pl before after] by simp
    with h False show ?thesis by (simp add: xss_check_not_verbatim)
  qed
  from a b c d e show ?thesis by blast
qed

lemma xssPayloads_head: "xssPayloads = [] @ hd xssPayloads # tl xssPayloads"
  by (simp add: xssPayloads_def)

lemma xssPayloads_hd:
  \<open>hd xssPayloads =
     \<lparr>payload = ''<script>alert('XSS')</script>'', description = ''Basic script injection'',
      pattern = ''<script>alert('xss')</script>''\<rparr>\<close>
  by (simp add: xssPayloads_def)

lemma xssPayloads_hd_mem: "hd xssPayloads \<in> set xssPayloads"
  by (simp add: xssPayloads_def)

lemma script_escaped:
  \<open>EscapeString ''<script>alert('XSS')</script>'' =
     ''&lt;script&gt;alert(&#39;XSS&#39;)&lt;/script&gt;''\<close>
  by (simp add: EscapeString_def escape_char_def)

lemma encoded_page_lower:
  \<open>ToLower ''Search results for: &lt;script&gt;alert(&#39;XSS&#39;)&lt;/script&gt;'' =
     ''search results for: &lt;script&gt;alert(&#39;xss&#39;)&lt;/script&gt;''\<close>
  by code_simp

lemma encoded_page_not_verbatim:
  \<open>\<not> Contains ''search results for: &lt;script&gt;alert(&#39;xss&#39;)&lt;/script&gt;''
         ''<script>alert('xss')</script>''\<close>
  by simp

lemma encoded_page_alert:
  \<open>Contains ''search results for: &lt;script&gt;alert(&#39;xss&#39;)&lt;/script&gt;'' ''alert''\<close>
  by simp

lemma reflected_page_lower:
  \<open>ToLower ''Search results for: <script>alert('XSS')</script>'' =
     ''search results for: <script>alert('xss')</script>''\<close>
  by code_simp

lemma reflected_page_verbatim:
  \<open>Contains ''search results for: <script>alert('xss')</script>''
      ''<script>alert('xss')</script>''\<close>
  by simp

lemma plain_page_lower: "ToLower ''Search results for: test'' = ''search results for: test''"
  by code_simp

lemma plain_page_dom: "find (Contains ''search results for: test'') dangerousPatterns = None"
  by (simp add: dangerousPatterns_def)

lemma ScanXSS_result:
  assumes "parsed_url srv = Inr u"
  shows "snd (ScanXSS srv) =
           Inr (findings (map (\<lambda>p. snd (test_param_xss srv p)) (xss_params u)) @ testDOMXSS srv)"
    and "fst (ScanXSS srv) =
           concat (map (\<lambda>p. map (\<lambda>q. GetParam p (payload q)) (fst (test_param_xss srv p)))
                     (xss_params u)) @ [GetFragment]"
  using assms
  by (simp_all add: ScanXSS_def Let_def xss_params_def case_prod_beta comp_def)

lemma test_param_xss_first:
  assumes "xssPayloads = pre @ pl # post" and "\<forall>q \<in> set pre. xss_quiet srv p q"
    and "get_param srv p (payload pl) = Some resp" and "xss_check p pl resp = Some v"
  shows "test_param_xss srv p = (pre @ [pl], Some v)"
proof -
  have "test_payloads (\<lambda>p'. get_param srv p (payload p')) (xss_check p) (pre @ pl # post) =
          (pre @ [pl], Some v)"
    using assms(2) [unfolded xss_quiet_def] assms(3) assms(4) by (rule test_payloads_first)
  then show ?thesis unfolding test_param_xss_def assms(1) .
qed

text \<open>
  Claim C6 as stated fails for the handler that entity-encodes the value of \<open>q\<close>: the first
  payload comes back as \<open>&lt;script&gt;alert(&#39;XSS&#39;)&lt;/script&gt;\<close>, which does not
  contain the payload but contains \<open>alert\<close>, and the scan reports a medium finding for \<open>q\<close>.
\<close>

theorem xss_encoded_counterexample:
  \<open>get_param encoding_site ''q'' ''<script>alert('XSS')</script>'' =
     Some (page ''Search results for: &lt;script&gt;alert(&#39;XSS&#39;)&lt;/script&gt;'') \<and>
   ScanXSS encoding_site =
     ([GetParam ''q'' ''<script>alert('XSS')</script>'', GetFragment],
      Inr [\<lparr>Type = ''xss'', Severity = ''medium'', Location = ''Parameter: q'',
            Payload = ''<script>alert('XSS')</script>'',
            Evidence = ''Payload partially reflected, may be bypassable'',
            Description = ''Basic script injection - Input reflected with partial encoding''\<rparr>])\<close>
proof -
  let ?resp = "page ''Search results for: &lt;script&gt;alert(&#39;XSS&#39;)&lt;/script&gt;''"
  have g: "get_param encoding_site ''q'' (payload (hd xssPayloads)) = Some ?resp"
    by (simp add: encoding_site_def xssPayloads_hd script_escaped)
  have nv: "\<not> Contains (ToLower (Body ?resp)) (pattern (hd xssPayloads))"
    using encoded_page_not_verbatim by (simp add: page_def encoded_page_lower xssPayloads_hd)
  have al: "Contains (ToLower (Body ?resp)) ''alert''"
    using encoded_page_alert by (simp add: page_def encoded_page_lower)
  have chk: "xss_check ''q'' (hd xssPayloads) ?resp =
      Some \<lparr>Type = ''xss'', Severity = ''medium'', Location = ''Parameter: q'',
            Payload = payload (hd xssPayloads),
            Evidence = ''Payload partially reflected, may be bypassable'',
            Description = description (hd xssPayloads) @
              '' - Input reflected with partial encoding''\<rparr>"
    using xss_check_not_verbatim [OF xssPayloads_hd_mem nv, of "''q''"] al by simp
  have t: "test_param_xss encoding_site ''q'' =
        ([hd xssPayloads],
         Some \<lparr>Type = ''xss'', Severity = ''medium'', Location = ''Parameter: q'',
            Payload = payload (hd xssPayloads),
            Evidence = ''Payload partially reflected, may be bypassable'',
            Description = description (hd xssPayloads) @
              '' - Input reflected with partial encoding''\<rparr>)"
    using test_param_xss_first [OF xssPayloads_head _ g chk] by simp
  have dom: "testDOMXSS encoding_site = []"
    by (simp add: testDOMXSS_def encoding_site_def page_def plain_page_lower plain_page_dom)
  have u: "parsed_url encoding_site = Inr \<lparr>Path = ''/'', Query = [''q'']\<rparr>"
    by (simp add: encoding_site_def)
  have "fst (ScanXSS encoding_site) = [GetParam ''q'' (payload (hd xssPayloads)), GetFragment]"
    unfolding ScanXSS_result(2) [OF u] by (simp add: t xss_params_def)
  moreover have "snd (ScanXSS encoding_site) =
      Inr [\<lparr>Type = ''xss'', Severity = ''medium'', Location = ''Parameter: q'',
            Payload = payload (hd xssPayloads),
            Evidence = ''Payload partially reflected, may be bypassable'',
            Description = description (hd xssPayloads) @
              '' - Input reflected with partial encoding''\<rparr>]"
    unfolding ScanXSS_result(1) [OF u] by (simp add: t dom xss_params_def findings_def)
  ultimately have "ScanXSS encoding_site =
     ([GetParam ''q'' (payload (hd xssPayloads)), GetFragment],
      Inr [\<lparr>Type = ''xss'', Severity = ''medium'', Location = ''Parameter: q'',
            Payload = payload (hd xssPayloads),
            Evidence = ''Payload partially reflected, may be bypassable'',
            Description = description (hd xssPayloads) @
              '' - Input reflected with partial encoding''\<rparr>])"
    by (simp add: prod_eq_iff)
  with g show ?thesis by (simp add: xssPayloads_hd)
qed

text \<open>
  The two handlers at the first payload: the reflecting one makes the loop stop with a high
  finding for \<open>q\<close>, the encoding one yields a medium finding.
\<close>

theorem xss_reflection_witness:
  \<open>hd xssPayloads \<in> set xssPayloads \<and>
   get_param reflecting_site ''q'' (payload (hd xssPayloads)) =
     Some (page ''Search results for: <script>alert('XSS')</script>'') \<and>
   Contains (ToLower (Body (page ''Search results for: <script>alert('XSS')</script>'')))
     (pattern (hd xssPayloads)) \<and>
   (\<exists>v. test_param_xss reflecting_site ''q'' = ([hd xssPayloads], Some v) \<and>
      Severity v = ''high'' \<and> Location v = ''Parameter: q'') \<and>
   Body (page ''Search results for: &lt;script&gt;alert(&#39;XSS&#39;)&lt;/script&gt;'') =
     ''Search results for: '' @ EscapeString (payload (hd xssPayloads)) @ [] \<and>
   \<not> Contains
       (ToLower (Body (page ''Search results for: &lt;script&gt;alert(&#39;XSS&#39;)&lt;/script&gt;'')))
       (pattern (hd xssPayloads)) \<and>
   (\<exists>v. xss_check ''q'' (hd xssPayloads)
          (page ''Search results for: &lt;script&gt;alert(&#39;XSS&#39;)&lt;/script&gt;'') = Some v \<and>
      Severity v = ''medium'')\<close>
proof -
  let ?refl = \<open>page ''Search results for: <script>alert('XSS')</script>''\<close>
  let ?enc = "page ''Search results for: &lt;script&gt;alert(&#39;XSS&#39;)&lt;/script&gt;''"
  have g: "get_param reflecting_site ''q'' (payload (hd xssPayloads)) = Some ?refl"
    by (simp add: reflecting_site_def xssPayloads_hd)
  have v: "Contains (ToLower (Body ?refl)) (pattern (hd xssPayloads))"
    using reflected_page_verbatim by (simp add: page_def reflected_page_lower xssPayloads_hd)
  have b: "Body ?enc = ''Search results for: '' @ EscapeString (payload (hd xssPayloads)) @ []"
    by (simp add: page_def xssPayloads_hd script_escaped)
  have nv: "\<not> Contains (ToLower (Body ?enc)) (pattern (hd xssPayloads))"
    using encoded_page_not_verbatim by (simp add: page_def encoded_page_lower xssPayloads_hd)
  have e: "\<forall>q \<in> set []. xss_quiet reflecting_site ''q'' q" by simp
  from xss_reflection [of ?refl "hd xssPayloads" "''q''" "[]" "tl xssPayloads" reflecting_site]
    xssPayloads_head e g v
  have "\<exists>v. test_param_xss reflecting_site ''q'' = ([] @ [hd xssPayloads], Some v) \<and>
      Severity v = ''high'' \<and> Location v = ''Parameter: '' @ ''q''"
    by blast
  then have hi: "\<exists>v. test_param_xss reflecting_site ''q'' = ([hd xssPayloads], Some v) \<and>
      Severity v = ''high'' \<and> Location v = ''Parameter: q''"
    by simp
  from xss_reflection [of ?enc "hd xssPayloads" "''q''" "[]" "tl xssPayloads" encoding_site
         "''Search results for: ''" "[]"] xssPayloads_hd_mem b nv
  have me: "\<exists>v. xss_check ''q'' (hd xssPayloads) ?enc = Some v \<and> Severity v = ''medium''"
    by auto
  from xssPayloads_hd_mem g v hi b nv me show ?thesis by blast
qed

section \<open>Probe orchestrator\<close>

lemma unit_of_cases:
  "unit_of e = None \<or> unit_of e = Some HeadersUnit \<or> unit_of e = Some TLSUnit \<or>
   unit_of e = Some SQLiUnit \<or> unit_of e = Some XSSUnit \<or> unit_of e = Some NmapUnit"
proof (cases "unit_of e")
  case None
  then show ?thesis by simp
next
  case (Some u)
  then show ?thesis by (cases u) simp_all
qed

lemma filter_all: "(\<And>x. x \<in> set xs \<Longrightarrow> P x) \<Longrightarrow> filter P xs = xs"
  by (induction xs) simp_all

text \<open>When no unit is launched, a schedule holds the steps of the caller and nothing else.\<close>

lemma idle_schedule:
  assumes v: "valid_schedule options env sched" and l: "launched options env = []"
  shows "events sched = main_steps (deadline_first sched)"
proof -
  from l have off: "\<not> enabled options env u" for u
    by (cases u) (auto simp: launched_def split: if_splits)
  from v have none: "filter (\<lambda>e. unit_of e = Some u) (events sched) = []"
    if "u \<in> {HeadersUnit, TLSUnit, SQLiUnit, XSSUnit, NmapUnit}" for u
    using that off by (auto simp: valid_schedule_def Let_def)
  have "unit_of e = None" if m: "e \<in> set (events sched)" for e
  proof (rule ccontr)
    assume "unit_of e \<noteq> None"
    then obtain u where u: "unit_of e = Some u" by auto
    from unit_of_cases [of e] u have "u \<in> {HeadersUnit, TLSUnit, SQLiUnit, XSSUnit, NmapUnit}"
      by auto
    then have "filter (\<lambda>e. unit_of e = Some u) (events sched) = []" by (rule none)
    with m u show False by (simp add: filter_empty_conv)
  qed
  then have "filter (\<lambda>e. unit_of e = None) (events sched) = events sched" by (rule filter_all)
  with v show ?thesis by (simp add: valid_schedule_def)
qed

lemma idle_launched:
  "SkipHeaders options \<Longrightarrow> SkipTLS options \<Longrightarrow> SkipSQLi options \<Longrightarrow> SkipXSS options \<Longrightarrow>
   SkipNmap options \<or> \<not> IsNmapInstalled_launch env \<Longrightarrow> launched options env = []"
  by (auto simp: launched_def enabled_def)

text \<open>The run of the caller's steps alone.\<close>

lemma idle_run:
  assumes "events sched = main_steps (deadline_first sched)"
  shows "map_option result (orchestrate target options env sched) =
           Some (bare_result target sched)"
    and "map_option reported (orchestrate target options env sched) =
           Some [(''All scans complete'', 100)]"
    and "map_option completedScans (orchestrate target options env sched) = Some 0"
  using assms
  by (simp_all add: orchestrate_def main_steps_def step_def initial_result_def bare_result_def
        elems_def count_tls_def count_headers_def risk_of_counts_def)

text \<open>
  Claim C10, amended.  When the four analyzers are skipped and the port probe is skipped or
  its binary is absent when the probe is to be launched, no unit is launched and a schedule
  holds the steps of the caller only, so that the percentage is never computed: the only
  progress report is the final one.  The call returns a result whose sub-results are all
  \<open>nil\<close> and whose risk level is \<open>LOW\<close>.  Its error list is empty when the wait ends the
  \<open>select\<close>; it holds the one error \<open>scan timeout exceeded\<close> when the deadline ends it.
  The count of scans is zero when the port probe is skipped or its binary is absent when the
  scans are counted.
\<close>

theorem nothing_to_scan:
  "SkipHeaders options \<and> SkipTLS options \<and> SkipSQLi options \<and> SkipXSS options \<and>
   (SkipNmap options \<or> \<not> IsNmapInstalled_launch env) \<and> valid_schedule options env sched \<longrightarrow>
     launched options env = [] \<and>
     events sched = main_steps (deadline_first sched) \<and>
     (\<forall>u. Count u \<notin> set (events sched)) \<and>
     map_option reported (orchestrate target options env sched) =
       Some [(''All scans complete'', 100)] \<and>
     RunSecurityScan target options env sched = Return (Some (bare_result target sched), None) \<and>
     (SkipNmap options \<or> \<not> IsNmapInstalled_count env \<longrightarrow> count_totalScans options env = 0) \<and>
     (\<not> deadline_first sched \<longrightarrow> Errors (bare_result target sched) = [])"
proof
  assume h: "SkipHeaders options \<and> SkipTLS options \<and> SkipSQLi options \<and> SkipXSS options \<and>
   (SkipNmap options \<or> \<not> IsNmapInstalled_launch env) \<and> valid_schedule options env sched"
  then have l: "launched options env = []" by (intro idle_launched) simp_all
  from h l have e: "events sched = main_steps (deadline_first sched)"
    by (intro idle_schedule) simp_all
  then have n: "\<forall>u. Count u \<notin> set (events sched)" by (simp add: main_steps_def)
  note run = idle_run [OF e, of target options env]
  from run(1) have r: "RunSecurityScan target options env sched =
                  Return (Some (bare_result target sched), None)"
    by (auto simp: RunSecurityScan_def split: option.splits)
  from h have c: "SkipNmap options \<or> \<not> IsNmapInstalled_count env \<longrightarrow>
                    count_totalScans options env = 0"
    by (auto simp: count_totalScans_def)
  from l e n run(2) r c show "launched options env = [] \<and>
     events sched = main_steps (deadline_first sched) \<and>
     (\<forall>u. Count u \<notin> set (events sched)) \<and>
     map_option reported (orchestrate target options env sched) =
       Some [(''All scans complete'', 100)] \<and>
     RunSecurityScan target options env sched = Return (Some (bare_result target sched), None) \<and>
     (SkipNmap options \<or> \<not> IsNmapInstalled_count env \<longrightarrow> count_totalScans options env = 0) \<and>
     (\<not> deadline_first sched \<longrightarrow> Errors (bare_result target sched) = [])"
    by (simp add: bare_result_def)
qed

lemma idle_done_valid: "valid_schedule (skip_all t) refusing_host idle_done"
  by (simp add: valid_schedule_def launched_def enabled_def skip_all_def idle_done_def
        main_steps_def)

theorem nothing_to_scan_witness:
  "SkipHeaders (skip_all 300000000000) \<and> SkipTLS (skip_all 300000000000) \<and>
   SkipSQLi (skip_all 300000000000) \<and> SkipXSS (skip_all 300000000000) \<and>
   SkipNmap (skip_all 300000000000) \<and>
   valid_schedule (skip_all 300000000000) refusing_host idle_done \<and>
   count_totalScans (skip_all 300000000000) refusing_host = 0 \<and>
   RunSecurityScan https_target (skip_all 300000000000) refusing_host idle_done =
     Return (Some \<lparr>Target = https_target, StartTime = 0, EndTime = 1, NmapResults = None,
                   HeaderResults = None, TLSResults = None, SQLiResults = None,
                   XSSResults = None, Errors = [], RiskLevel = ''LOW''\<rparr>, None)"
proof -
  have s: "SkipHeaders (skip_all 300000000000)" "SkipTLS (skip_all 300000000000)"
    "SkipSQLi (skip_all 300000000000)" "SkipXSS (skip_all 300000000000)"
    "SkipNmap (skip_all 300000000000)"
    by (simp_all add: skip_all_def)
  note v = idle_done_valid [of 300000000000]
  from nothing_to_scan [of "skip_all 300000000000" refusing_host idle_done https_target] s v
  have "RunSecurityScan https_target (skip_all 300000000000) refusing_host idle_done =
          Return (Some (bare_result https_target idle_done), None)"
    and c: "count_totalScans (skip_all 300000000000) refusing_host = 0"
    by simp_all
  then have "RunSecurityScan https_target (skip_all 300000000000) refusing_host idle_done =
     Return (Some \<lparr>Target = https_target, StartTime = 0, EndTime = 1, NmapResults = None,
                   HeaderResults = None, TLSResults = None, SQLiResults = None,
                   XSSResults = None, Errors = [], RiskLevel = ''LOW''\<rparr>, None)"
    by (simp add: bare_result_def idle_done_def)
  with s v c show ?thesis by simp
qed

text \<open>
  Claim C10 as stated fails when the timeout is zero: the context is cancelled when it is
  created, the \<open>select\<close> may take the deadline branch although nothing was launched, and the
  error list of the result is not empty.
\<close>

theorem nothing_to_scan_counterexample:
  "valid_schedule (skip_all 0) refusing_host idle_deadline \<and>
   RunSecurityScan https_target (skip_all 0) refusing_host idle_deadline =
     Return (Some \<lparr>Target = https_target, StartTime = 0, EndTime = 0, NmapResults = None,
                   HeaderResults = None, TLSResults = None, SQLiResults = None,
                   XSSResults = None, Errors = [''scan timeout exceeded''],
                   RiskLevel = ''LOW''\<rparr>, None)"
  by (simp add: valid_schedule_def launched_def enabled_def skip_all_def idle_deadline_def
        main_steps_def RunSecurityScan_def orchestrate_def step_def initial_result_def
        elems_def count_tls_def count_headers_def risk_of_counts_def)

text \<open>
  The call returns a result and no error, or the program panics.  It does not panic when the
  two look-ups of the port-scanning binary agree: the count of scans is then the number of
  launched units, and a unit divides by it only when it is not zero.
\<close>

lemma step_total: "totalScans \<noteq> 0 \<Longrightarrow> \<exists>st'. step options env totalScans now e st = Some st'"
  by (cases e) (simp_all add: step_def updateProgress_def Let_def)

lemma run_events_total:
  "totalScans \<noteq> 0 \<Longrightarrow> \<exists>st'. run_events options env totalScans now es st = Some st'"
proof (induction es arbitrary: st)
  case Nil
  show ?case by simp
next
  case (Cons e es)
  from Cons.prems obtain st1 where "step options env totalScans now e st = Some st1"
    using step_total by blast
  with Cons show ?case by simp
qed

lemma count_totalScans_launched:
  "IsNmapInstalled_count env = IsNmapInstalled_launch env \<Longrightarrow>
     count_totalScans options env = int (length (launched options env))"
  by (simp add: count_totalScans_def launched_def enabled_def Let_def)

lemma returns_when_lookups_agree:
  assumes "IsNmapInstalled_count env = IsNmapInstalled_launch env"
    and v: "valid_schedule options env sched"
  shows "\<exists>r. RunSecurityScan target options env sched = Return (Some r, None)"
proof (cases "count_totalScans options env = 0")
  case True
  with assms(1) have "launched options env = []" by (simp add: count_totalScans_launched)
  with v have "events sched = main_steps (deadline_first sched)" by (rule idle_schedule)
  from idle_run(1) [OF this, of target options env] show ?thesis
    by (auto simp: RunSecurityScan_def split: option.splits)
next
  case False
  then obtain st where "orchestrate target options env sched = Some st"
    unfolding orchestrate_def using run_events_total by blast
  then show ?thesis by (simp add: RunSecurityScan_def)
qed

text \<open>
  Claim C2 on a run in which the deadline ends the \<open>select\<close> while the header analyzer, the
  only one enabled, has just failed.  The claim says that the failure is recorded and that the
  timeout error is appended.  The caller appends the timeout error without the mutex that
  guards the error list: the unit reads the empty list, the caller reads it and stores the
  list with the timeout error, the unit stores the list with its own error.  The call returns
  a result whose error list holds the failure of the analyzer and no timeout error.
\<close>

theorem timeout_error_lost:
  "valid_schedule (only_headers 100000) refusing_host racing \<and>
   RunSecurityScan https_target (only_headers 100000) refusing_host racing =
     Return (Some \<lparr>Target = https_target, StartTime = 0, EndTime = 100400, NmapResults = None,
                   HeaderResults = None, TLSResults = None, SQLiResults = None,
                   XSSResults = None, Errors = [''failed to connect: connection refused''],
                   RiskLevel = ''LOW''\<rparr>, None)"
proof -
  have "valid_schedule (only_headers 100000) refusing_host racing"
    by (simp add: valid_schedule_def enabled_def launched_def only_headers_def racing_def
          main_steps_def unit_steps_def unit_error_def refusing_host_def)
  moreover have "RunSecurityScan https_target (only_headers 100000) refusing_host racing =
     Return (Some \<lparr>Target = https_target, StartTime = 0, EndTime = 100400, NmapResults = None,
                   HeaderResults = None, TLSResults = None, SQLiResults = None,
                   XSSResults = None, Errors = [''failed to connect: connection refused''],
                   RiskLevel = ''LOW''\<rparr>, None)"
    by (simp add: RunSecurityScan_def orchestrate_def racing_def step_def store_output_def
          refusing_host_def initial_result_def elems_def count_tls_def count_headers_def
          risk_of_counts_def)
  ultimately show ?thesis by simp
qed

text \<open>
  The second defect of the orchestrator.  The binary of the port probe is looked up twice.
  When only the port probe is enabled and the binary is found by the second look-up and not
  by the first, the probe is launched with a count of zero scans, and its progress update
  divides by zero: the program panics and the call does not return.
\<close>

lemma late_binary_panics:
  "valid_schedule (only_nmap 300000000000) late_nmap_host probe_first \<and>
   count_totalScans (only_nmap 300000000000) late_nmap_host = 0 \<and>
   launched (only_nmap 300000000000) late_nmap_host = [NmapUnit] \<and>
   RunSecurityScan https_target (only_nmap 300000000000) late_nmap_host probe_first = Panic"
proof -
  have "valid_schedule (only_nmap 300000000000) late_nmap_host probe_first"
    by (simp add: valid_schedule_def enabled_def launched_def only_nmap_def probe_first_def
          main_steps_def unit_steps_def unit_error_def late_nmap_host_def)
  moreover have "count_totalScans (only_nmap 300000000000) late_nmap_host = 0"
    by (simp add: count_totalScans_def only_nmap_def late_nmap_host_def)
  moreover have "launched (only_nmap 300000000000) late_nmap_host = [NmapUnit]"
    by (simp add: launched_def enabled_def only_nmap_def late_nmap_host_def)
  moreover have
    "RunSecurityScan https_target (only_nmap 300000000000) late_nmap_host probe_first = Panic"
    by (simp add: RunSecurityScan_def orchestrate_def probe_first_def step_def
          store_output_def count_totalScans_def only_nmap_def late_nmap_host_def
          updateProgress_def)
  ultimately show ?thesis by simp
qed

end
